theory Spec2Isabelle
  imports Complex_Main "HOL-Library.Word"
begin

section \<open>JavaScript values used by the feature model\<close>

text \<open>
  A plain JavaScript array is a list of slots; a slot that was reserved by growing
  \<^verbatim>\<open>length\<close> and never assigned is a hole (\<open>None\<close>).  Numbers that hold coordinates
  are modelled as reals; numbers that count or index vertices are \<open>nat\<close> or \<open>int\<close>.
\<close>

type_synonym 'a js_array = "'a option list"

datatype error = UnsupportedFeatureType | UnhandledGeojsonType | RangeError | TypeError

text \<open>\<^verbatim>\<open>a.length = n\<close> for \<open>n \<ge> 0\<close>: truncates, or pads with holes.\<close>

definition set_length :: "'a js_array \<Rightarrow> nat \<Rightarrow> 'a js_array" where
  "set_length a n = take n a @ replicate (n - length a) None"

text \<open>\<^verbatim>\<open>a[i] = v\<close>: an index past the end grows the array, leaving holes between.\<close>

definition js_write :: "'a js_array \<Rightarrow> nat \<Rightarrow> 'a \<Rightarrow> 'a js_array" where
  "js_write a i v =
     (if i < length a then a[i := Some v]
      else a @ replicate (i - length a) None @ [Some v])"

text \<open>\<^verbatim>\<open>Infinity\<close> and \<^verbatim>\<open>-Infinity\<close> are the start values of every altitude range.\<close>

datatype extnum = NegInfinity | Finite real | Infinity

fun Math_min :: "extnum \<Rightarrow> extnum \<Rightarrow> extnum" where
  "Math_min NegInfinity b = NegInfinity"
| "Math_min a NegInfinity = NegInfinity"
| "Math_min Infinity b = b"
| "Math_min a Infinity = a"
| "Math_min (Finite x) (Finite y) = Finite (min x y)"

fun Math_max :: "extnum \<Rightarrow> extnum \<Rightarrow> extnum" where
  "Math_max Infinity b = Infinity"
| "Math_max a Infinity = Infinity"
| "Math_max NegInfinity b = b"
| "Math_max a NegInfinity = a"
| "Math_max (Finite x) (Finite y) = Finite (max x y)"

section \<open>Core/Feature.js: the data model\<close>

text \<open>\<^verbatim>\<open>FEATURE_TYPES\<close>.\<close>

definition POINT :: nat where "POINT = 0"
definition LINE :: nat where "LINE = 1"
definition POLYGON :: nat where "POLYGON = 2"

text \<open>
  One entry of \<^verbatim>\<open>FeatureGeometry.indices\<close>.  The offset is an \<open>int\<close>:
  \<^verbatim>\<open>closeSubGeometry\<close> subtracts a count from a buffer position.  The \<^verbatim>\<open>extent\<close>
  members of the classes belong to the \<^verbatim>\<open>Extent\<close> class, which is outside the
  files modelled here; they do not influence the buffers and are left out of the
  value-level records.
\<close>

record SubGeometryIndex =
  offset :: int
  count :: nat

record altitude_range =
  amin :: extnum
  amax :: extnum

record 'p FeatureGeometry =
  indices :: "SubGeometryIndex list"
  properties :: "'p option"
  gsize :: nat
  galtitude :: altitude_range

record 'p Feature =
  ftype :: nat
  geometries :: "'p FeatureGeometry list"
  vertices :: "real js_array"
  crs :: string
  fsize :: nat
  normals :: "real js_array option"
  pos :: nat
  altitude :: altitude_range

text \<open>
  The part of the parent collection a Feature reads when it is constructed.
  \<^verbatim>\<open>FeatureCollection\<close>'s constructor sets \<^verbatim>\<open>size\<close> to 3 when
  \<^verbatim>\<open>options.structure == '3d'\<close> and to 2 otherwise.
\<close>

record collection_view =
  ccrs :: string
  csize :: nat

definition FeatureCollection_view :: "string \<Rightarrow> string \<Rightarrow> collection_view" where
  "FeatureCollection_view crs_in structure =
     \<lparr> ccrs = crs_in, csize = (if structure = ''3d'' then 3 else 2) \<rparr>"

definition empty_altitude :: altitude_range where
  "empty_altitude = \<lparr> amin = Infinity, amax = NegInfinity \<rparr>"

text \<open>\<^verbatim>\<open>new Feature(type, collection)\<close>: throws for a type outside \<^verbatim>\<open>FEATURE_TYPES\<close>.\<close>

definition new_Feature :: "nat \<Rightarrow> collection_view \<Rightarrow> error + 'p Feature" where
  "new_Feature type collection =
     (if type = POINT \<or> type = LINE \<or> type = POLYGON then
        Inr \<lparr> ftype = type, geometries = [], vertices = [], crs = ccrs collection,
              fsize = csize collection,
              normals = (if csize collection = 3 then Some [] else None),
              pos = 0, altitude = empty_altitude \<rparr>
      else Inl UnsupportedFeatureType)"

text \<open>\<^verbatim>\<open>new FeatureGeometry(feature)\<close> and \<^verbatim>\<open>Feature.bindNewGeometry()\<close>.\<close>

definition new_FeatureGeometry :: "'p Feature \<Rightarrow> 'p FeatureGeometry" where
  "new_FeatureGeometry feature =
     \<lparr> indices = [], properties = None, gsize = fsize feature, galtitude = empty_altitude \<rparr>"

definition bindNewGeometry :: "'p Feature \<Rightarrow> 'p Feature" where
  "bindNewGeometry feature =
     feature \<lparr> geometries := geometries feature @ [new_FeatureGeometry feature] \<rparr>"

text \<open>\<^verbatim>\<open>_extendBuffer(feature, size)\<close>.\<close>

definition extendBuffer :: "'p Feature \<Rightarrow> nat \<Rightarrow> 'p Feature" where
  "extendBuffer feature n =
     (let vs = set_length (vertices feature) (length (vertices feature) + n * fsize feature)
      in feature \<lparr> vertices := vs,
                   normals := (case normals feature of
                                 None \<Rightarrow> None
                               | Some ns \<Rightarrow> Some (set_length ns (length vs))) \<rparr>)"

text \<open>
  The offset of the next entry of a geometry: the end of its last entry, or else the
  buffer fill \<^verbatim>\<open>feature.vertices.length / this.size\<close>.  The quotient is written with
  \<open>div\<close>; lemma \<open>run_size_dvd\<close> below shows that the geometry's size divides the
  buffer length in every state the operations of this file reach, so the JavaScript
  quotient is that integer.
\<close>

definition next_offset :: "'p FeatureGeometry \<Rightarrow> 'p Feature \<Rightarrow> int" where
  "next_offset this feature =
     (if indices this \<noteq> [] then
        offset (last (indices this)) + int (count (last (indices this)))
      else int (length (vertices feature)) div int (gsize this))"

text \<open>
  \<^verbatim>\<open>FeatureGeometry.startSubGeometry(count, feature)\<close>, for the geometry at position
  \<open>g\<close> of \<^verbatim>\<open>feature.geometries\<close>.
\<close>

definition startSubGeometry :: "nat \<Rightarrow> nat \<Rightarrow> 'p Feature \<Rightarrow> 'p Feature" where
  "startSubGeometry g n feature =
     (let this = geometries feature ! g;
          entry = \<lparr> offset = next_offset this feature, count = n \<rparr>;
          this' = this \<lparr> indices := indices this @ [entry] \<rparr>
      in extendBuffer (feature \<lparr> geometries := (geometries feature)[g := this'] \<rparr>) n)"

text \<open>\<^verbatim>\<open>FeatureGeometry.closeSubGeometry(count, feature)\<close>: the buffer is not extended.\<close>

definition closeSubGeometry :: "nat \<Rightarrow> nat \<Rightarrow> 'p Feature \<Rightarrow> 'p Feature" where
  "closeSubGeometry g n feature =
     (let this = geometries feature ! g;
          off = (if indices this \<noteq> [] then
                   offset (last (indices this)) + int (count (last (indices this)))
                 else int (length (vertices feature)) div int (gsize this) - int n);
          this' = this \<lparr> indices := indices this @ [\<lparr> offset = off, count = n \<rparr>] \<rparr>
      in feature \<lparr> geometries := (geometries feature)[g := this'] \<rparr>)"

text \<open>
  \<^verbatim>\<open>push2DValues\<close> and \<^verbatim>\<open>push3DValues\<close>; the constructor binds
  \<^verbatim>\<open>_pushValues\<close> to the one that matches \<^verbatim>\<open>size\<close>.
\<close>

definition push2DValues :: "real \<Rightarrow> real \<Rightarrow> 'p Feature \<Rightarrow> 'p Feature" where
  "push2DValues value0 value1 feature =
     feature \<lparr> vertices := js_write (js_write (vertices feature) (pos feature) value0)
                               (pos feature + 1) value1,
               pos := pos feature + 2 \<rparr>"

definition push3DValues :: "real \<Rightarrow> real \<Rightarrow> real \<Rightarrow> 'p Feature \<Rightarrow> 'p Feature" where
  "push3DValues value0 value1 value2 feature =
     feature \<lparr> vertices := js_write (js_write (js_write (vertices feature) (pos feature) value0)
                               (pos feature + 1) value1) (pos feature + 2) value2,
               pos := pos feature + 3 \<rparr>"

definition pushValues :: "real \<Rightarrow> real \<Rightarrow> real \<Rightarrow> 'p Feature \<Rightarrow> 'p Feature" where
  "pushValues x y z feature =
     (if fsize feature = 3 then push3DValues x y z feature else push2DValues x y feature)"

text \<open>\<^verbatim>\<open>normal.toArray(feature.normals, feature._pos)\<close>, when the normals exist.\<close>

definition write_normal :: "real \<times> real \<times> real \<Rightarrow> 'p Feature \<Rightarrow> 'p Feature" where
  "write_normal n feature =
     (case normals feature of
        None \<Rightarrow> feature
      | Some ns \<Rightarrow>
          (case n of (nx, ny, nz) \<Rightarrow>
             feature \<lparr> normals := Some (js_write (js_write (js_write ns (pos feature) nx)
                                           (pos feature + 1) ny) (pos feature + 2) nz) \<rparr>))"

definition expand_altitude :: "real \<Rightarrow> 'p FeatureGeometry \<Rightarrow> 'p FeatureGeometry" where
  "expand_altitude z this =
     (if gsize this = 3 then
        this \<lparr> galtitude := \<lparr> amin = Math_min (amin (galtitude this)) (Finite z),
                              amax = Math_max (amax (galtitude this)) (Finite z) \<rparr> \<rparr>
      else this)"

text \<open>
  \<^verbatim>\<open>FeatureGeometry.pushCoordinatesValues(feature, long, lat, alt, normal)\<close>.
\<close>

definition pushCoordinatesValues ::
  "nat \<Rightarrow> real \<Rightarrow> real \<Rightarrow> real \<Rightarrow> real \<times> real \<times> real \<Rightarrow> 'p Feature \<Rightarrow> 'p Feature" where
  "pushCoordinatesValues g long lat alt normal feature =
     (let f1 = pushValues long lat alt (write_normal normal feature)
      in f1 \<lparr> geometries := (geometries f1)[g := expand_altitude alt (geometries f1 ! g)] \<rparr>)"

text \<open>
  \<^verbatim>\<open>FeatureGeometry.pushCoordinates(coordIn, feature)\<close>.  The style hook, the
  projection \<^verbatim>\<open>coordIn.as(feature.crs, coordOut)\<close> and the collection's local frame
  are collaborators outside these files; a pushed coordinate is given by what they
  produce: the input altitude after the hook, the local output coordinate and its
  geodesic normal.
\<close>

record pushed =
  z_in :: real
  out :: "real \<times> real \<times> real"
  geodesicNormal :: "real \<times> real \<times> real"

definition pushCoordinates :: "nat \<Rightarrow> pushed \<Rightarrow> 'p Feature \<Rightarrow> 'p Feature" where
  "pushCoordinates g c feature =
     (case out c of (x, y, z) \<Rightarrow>
        (let f1 = pushValues x y z (write_normal (geodesicNormal c) feature)
         in f1 \<lparr> geometries :=
                   (geometries f1)[g := expand_altitude (z_in c) (geometries f1 ! g)] \<rparr>))"

text \<open>\<^verbatim>\<open>Feature.updateExtent(geometry)\<close>: the altitude roll-up.\<close>

definition updateExtent :: "nat \<Rightarrow> 'p Feature \<Rightarrow> 'p Feature" where
  "updateExtent g feature =
     (if fsize feature = 3 then
        feature \<lparr> altitude :=
          \<lparr> amin = Math_min (amin (altitude feature)) (amin (galtitude (geometries feature ! g))),
            amax = Math_max (amax (altitude feature)) (amax (galtitude (geometries feature ! g))) \<rparr> \<rparr>
      else feature)"

section \<open>Sequences of calls on one Feature\<close>

text \<open>
  A call names the geometry it is invoked on by its position in
  \<^verbatim>\<open>feature.geometries\<close>; a position that holds no geometry stands for no object, and
  the call does not take place.
\<close>

datatype call =
    BindNewGeometry
  | StartSubGeometry nat nat
  | CloseSubGeometry nat nat
  | PushCoordinatesValues nat real real real "real \<times> real \<times> real"
  | PushCoordinates nat pushed
  | UpdateExtent nat

fun on_geometry :: "nat \<Rightarrow> ('p Feature \<Rightarrow> 'p Feature) \<Rightarrow> 'p Feature \<Rightarrow> 'p Feature" where
  "on_geometry g m feature = (if g < length (geometries feature) then m feature else feature)"

fun do_call :: "call \<Rightarrow> 'p Feature \<Rightarrow> 'p Feature" where
  "do_call BindNewGeometry feature = bindNewGeometry feature"
| "do_call (StartSubGeometry g n) feature = on_geometry g (startSubGeometry g n) feature"
| "do_call (CloseSubGeometry g n) feature = on_geometry g (closeSubGeometry g n) feature"
| "do_call (PushCoordinatesValues g long lat alt normal) feature =
     on_geometry g (pushCoordinatesValues g long lat alt normal) feature"
| "do_call (PushCoordinates g c) feature = on_geometry g (pushCoordinates g c) feature"
| "do_call (UpdateExtent g) feature = on_geometry g (updateExtent g) feature"

fun run :: "call list \<Rightarrow> 'p Feature \<Rightarrow> 'p Feature" where
  "run [] feature = feature"
| "run (c # cs) feature = run cs (do_call c feature)"

text \<open>Contiguity of the entries of one geometry.\<close>

fun contiguous :: "SubGeometryIndex list \<Rightarrow> bool" where
  "contiguous [] = True"
| "contiguous [a] = True"
| "contiguous (a # b # rest) =
     (offset a + int (count a) = offset b \<and> contiguous (b # rest))"

section \<open>The GeoJSON parser: population of a Feature\<close>

text \<open>
  The coordinates of one GeoJSON geometry, by its (lower-cased) type.  A position is
  given as the \<open>pushed\<close> record that the projection makes of it.
\<close>

datatype geojson =
    Point pushed
  | MultiPoint "pushed list"
  | LineString "pushed list"
  | MultiLineString "pushed list list"
  | Polygon "pushed list list"
  | MultiPolygon "pushed list list list"
  | GeometryCollection

text \<open>\<^verbatim>\<open>toFeatureType(jsonType)\<close>.\<close>

fun toFeatureType :: "geojson \<Rightarrow> error + nat" where
  "toFeatureType (Point c) = Inr POINT"
| "toFeatureType (MultiPoint cs) = Inr POINT"
| "toFeatureType (LineString cs) = Inr LINE"
| "toFeatureType (MultiLineString ls) = Inr LINE"
| "toFeatureType (Polygon rs) = Inr POLYGON"
| "toFeatureType (MultiPolygon ps) = Inr POLYGON"
| "toFeatureType GeometryCollection = Inl UnhandledGeojsonType"

text \<open>
  \<^verbatim>\<open>collection.filterExtent && firstPtIsOut(collection.filterExtent, aCoords, crs)\<close>.
  The extent test is the \<^verbatim>\<open>Extent\<close> class's; a filter is given as the predicate
  ``this position is outside''.  Reading the first position of an empty list throws.
\<close>

type_synonym filterExtent = "(pushed \<Rightarrow> bool) option"

definition firstPtIsOut :: "filterExtent \<Rightarrow> pushed list \<Rightarrow> error + bool" where
  "firstPtIsOut fe aCoords =
     (case fe of
        None \<Rightarrow> Inr False
      | Some is_out \<Rightarrow> (case aCoords of [] \<Rightarrow> Inl TypeError | c # _ \<Rightarrow> Inr (is_out c)))"

text \<open>\<^verbatim>\<open>toFeature.populateGeometry\<close>, on the geometry at position \<open>g\<close>.\<close>

definition populateGeometry :: "pushed list \<Rightarrow> nat \<Rightarrow> 'p Feature \<Rightarrow> 'p Feature" where
  "populateGeometry coordinates g feature =
     fold (pushCoordinates g) coordinates (startSubGeometry g (length coordinates) feature)"

definition set_properties :: "nat \<Rightarrow> 'p \<Rightarrow> 'p Feature \<Rightarrow> 'p Feature" where
  "set_properties g props feature =
     feature \<lparr> geometries :=
       (geometries feature)[g := (geometries feature ! g) \<lparr> properties := Some props \<rparr>] \<rparr>"

text \<open>\<^verbatim>\<open>toFeature.default\<close>; \<^verbatim>\<open>toFeature.point\<close> calls it with the one position.\<close>

definition toFeature_default ::
  "filterExtent \<Rightarrow> pushed list \<Rightarrow> 'p \<Rightarrow> 'p Feature \<Rightarrow> error + 'p Feature" where
  "toFeature_default fe coordsIn props feature =
     (case firstPtIsOut fe coordsIn of
        Inl e \<Rightarrow> Inl e
      | Inr True \<Rightarrow> Inr feature
      | Inr False \<Rightarrow>
          (let f1 = bindNewGeometry feature;
               g = length (geometries f1) - 1;
               f2 = set_properties g props f1;
               f3 = populateGeometry coordsIn g f2
           in Inr (updateExtent g f3)))"

definition toFeature_point ::
  "filterExtent \<Rightarrow> pushed \<Rightarrow> 'p \<Rightarrow> 'p Feature \<Rightarrow> error + 'p Feature" where
  "toFeature_point fe coordsIn props feature = toFeature_default fe [coordsIn] props feature"

text \<open>\<^verbatim>\<open>toFeature.polygon\<close>: one geometry, one sub-geometry per ring.\<close>

definition toFeature_polygon ::
  "filterExtent \<Rightarrow> pushed list list \<Rightarrow> 'p \<Rightarrow> 'p Feature \<Rightarrow> error + 'p Feature" where
  "toFeature_polygon fe coordsIn props feature =
     (case (case fe of None \<Rightarrow> Inr False
            | Some is_out \<Rightarrow> (case coordsIn of [] \<Rightarrow> Inl TypeError
                               | ring # _ \<Rightarrow> firstPtIsOut fe ring)) of
        Inl e \<Rightarrow> Inl e
      | Inr True \<Rightarrow> Inr feature
      | Inr False \<Rightarrow>
          (let f1 = bindNewGeometry feature;
               g = length (geometries f1) - 1;
               f2 = set_properties g props f1;
               f3 = fold (\<lambda>ring f. populateGeometry ring g f) coordsIn f2
           in Inr (updateExtent g f3)))"

text \<open>\<^verbatim>\<open>toFeature.multi\<close>: the first part that throws ends the loop.\<close>

fun toFeature_multi ::
  "('c \<Rightarrow> 'p Feature \<Rightarrow> error + 'p Feature) \<Rightarrow> 'c list \<Rightarrow> 'p Feature \<Rightarrow> error + 'p Feature" where
  "toFeature_multi part [] feature = Inr feature"
| "toFeature_multi part (coords # rest) feature =
     (case part coords feature of
        Inl e \<Rightarrow> Inl e
      | Inr f \<Rightarrow> toFeature_multi part rest f)"

text \<open>\<^verbatim>\<open>coordinatesToFeature\<close>.  A \<^verbatim>\<open>Point\<close> arrives wrapped in a one-element list.\<close>

fun coordinatesToFeature ::
  "filterExtent \<Rightarrow> geojson \<Rightarrow> 'p \<Rightarrow> 'p Feature \<Rightarrow> error + 'p Feature" where
  "coordinatesToFeature fe (Point c) props feature = toFeature_default fe [c] props feature"
| "coordinatesToFeature fe (LineString cs) props feature =
     (if cs = [] then Inr feature else toFeature_default fe cs props feature)"
| "coordinatesToFeature fe (MultiPoint cs) props feature =
     (if cs = [] then Inr feature
      else toFeature_multi (\<lambda>c. toFeature_point fe c props) cs feature)"
| "coordinatesToFeature fe (MultiLineString ls) props feature =
     (if ls = [] then Inr feature
      else toFeature_multi (\<lambda>l. toFeature_default fe l props) ls feature)"
| "coordinatesToFeature fe (Polygon rs) props feature =
     (if rs = [] then Inr feature else toFeature_polygon fe rs props feature)"
| "coordinatesToFeature fe (MultiPolygon ps) props feature =
     (if ps = [] then Inr feature
      else toFeature_multi (\<lambda>p. toFeature_polygon fe p props) ps feature)"
| "coordinatesToFeature fe GeometryCollection props feature = Inl UnhandledGeojsonType"

text \<open>
  The loop of \<^verbatim>\<open>jsonFeaturesToFeatures\<close> as one Feature sees it: the geometries,
  with their properties, that are converted into it one after the other.
\<close>

fun populate ::
  "filterExtent \<Rightarrow> (geojson \<times> 'p) list \<Rightarrow> 'p Feature \<Rightarrow> error + 'p Feature" where
  "populate fe [] feature = Inr feature"
| "populate fe ((j, props) # rest) feature =
     (case coordinatesToFeature fe j props feature of
        Inl e \<Rightarrow> Inl e
      | Inr f \<Rightarrow> populate fe rest f)"

text \<open>The bookkeeping of the packed buffers.\<close>

definition sum_counts :: "'p Feature \<Rightarrow> nat" where
  "sum_counts feature =
     sum_list (map (\<lambda>g. sum_list (map count (indices g))) (geometries feature))"

definition buffers_ok :: "'p Feature \<Rightarrow> bool" where
  "buffers_ok feature =
     (length (vertices feature) = fsize feature * sum_counts feature \<and>
      (normals feature \<noteq> None) = (fsize feature = 3) \<and>
      (case normals feature of
         None \<Rightarrow> True
       | Some ns \<Rightarrow> length ns = length (vertices feature)))"

text \<open>
  What the population keeps true between two geometries: the bookkeeping, a size of at
  least two values per vertex, and a write position inside the reserved buffer.  A
  push advances the write position by \<open>push_step\<close>.
\<close>

definition push_step :: "'p Feature \<Rightarrow> nat" where
  "push_step f = (if fsize f = 3 then 3 else 2)"

definition population_inv :: "'p Feature \<Rightarrow> bool" where
  "population_inv f = (buffers_ok f \<and> 2 \<le> fsize f \<and> pos f \<le> length (vertices f))"

text \<open>
  Alignment of a Feature: the size is 2 or 3, every geometry carries the Feature's size,
  and the write position and the buffer length are multiples of it.
\<close>

definition aligned :: "'p Feature \<Rightarrow> bool" where
  "aligned f = ((fsize f = 2 \<or> fsize f = 3) \<and> fsize f dvd pos f \<and>
                fsize f dvd length (vertices f) \<and>
                list_all (\<lambda>g. gsize g = fsize f) (geometries f))"

subsection \<open>Example data\<close>

definition example_line2d :: "unit Feature" where
  "example_line2d = \<lparr> ftype = LINE, geometries = [], vertices = [], crs = ''EPSG:4326'',
              fsize = 2, normals = None, pos = 0, altitude = empty_altitude \<rparr>"

definition example_calls :: "call list" where
  "example_calls =
     [BindNewGeometry, StartSubGeometry 0 3, CloseSubGeometry 0 4, StartSubGeometry 0 2]"

definition pt :: "real \<Rightarrow> real \<Rightarrow> real \<Rightarrow> pushed" where
  "pt x y z = \<lparr> z_in = z, out = (x, y, z), geodesicNormal = (0, 0, 1) \<rparr>"

definition example_json :: "(geojson \<times> unit) list" where
  "example_json =
     [(LineString [pt 0 0 5, pt 1 0 6], ()),
      (MultiLineString [[pt 2 2 7, pt 3 3 8, pt 4 4 9]], ())]"

definition example_line3d :: "unit Feature" where
  "example_line3d = \<lparr> ftype = LINE, geometries = [], vertices = [], crs = ''EPSG:4326'',
              fsize = 3, normals = Some [], pos = 0, altitude = empty_altitude \<rparr>"

definition example_populated :: "unit Feature" where
  "example_populated =
    \<lparr> ftype = LINE,
      geometries =
        [\<lparr> indices = [\<lparr>offset = 0, count = 2\<rparr>], properties = Some (),
           gsize = 3, galtitude = \<lparr>amin = Finite 5, amax = Finite 6\<rparr> \<rparr>,
         \<lparr> indices = [\<lparr>offset = 2, count = 3\<rparr>], properties = Some (),
           gsize = 3, galtitude = \<lparr>amin = Finite 7, amax = Finite 9\<rparr> \<rparr>],
      vertices =
        [Some 0, Some 0, Some 5, Some 1, Some 0, Some 6, Some 2, Some 2,
         Some 7, Some 3, Some 3, Some 8, Some 4, Some 4, Some 9],
      crs = ''EPSG:4326'', fsize = 3,
      normals =
        Some [Some 0, Some 0, Some 1, Some 0, Some 0, Some 1, Some 0, Some 0,
              Some 1, Some 0, Some 0, Some 1, Some 0, Some 0, Some 1],
      pos = 15, altitude = \<lparr>amin = Finite 5, amax = Finite 9\<rparr> \<rparr>"

section \<open>Core/Feature.js: the collection, object identity and sharing\<close>

text \<open>
  \<^verbatim>\<open>requestFeature\<close> and \<^verbatim>\<open>newFeatureByReference\<close> hand out and share objects, so
  the collection is modelled over a store.  An address is the position of an object in
  the store; \<^verbatim>\<open>new\<close> and an array literal append a cell.  A Feature object holds its
  arrays, its extent and its style by address.  The cells of the arrays hold the
  contents that the value-level \<open>Feature\<close> above has as fields: \<open>deref\<close> reads a
  Feature object as that record, and \<open>on_feature\<close> runs a call on it in place.
\<close>

type_synonym addr = nat

text \<open>
  \<^verbatim>\<open>defaultExtent(crs)\<close> makes
  \<^verbatim>\<open>new Extent(crs, Infinity, -Infinity, Infinity, -Infinity)\<close>.
\<close>

record Extent =
  ecrs :: string
  west :: extnum
  east :: extnum
  south :: extnum
  north :: extnum

definition defaultExtent :: "string \<Rightarrow> Extent" where
  "defaultExtent c =
     \<lparr> ecrs = c, west = Infinity, east = NegInfinity, south = Infinity, north = NegInfinity \<rparr>"

text \<open>
  Modelled from the spec: \<^verbatim>\<open>Extent.union\<close>, of the \<^verbatim>\<open>Extent\<close> class that is not
  among the source files.  The spec has an extent as a box (xmin, xmax, ymin, ymax)
  that \<^verbatim>\<open>union\<close> only ever grows.
\<close>

definition Extent_union :: "Extent \<Rightarrow> Extent \<Rightarrow> Extent" where
  "Extent_union this other =
     this \<lparr> west := Math_min (west this) (west other), east := Math_max (east this) (east other),
            south := Math_min (south this) (south other),
            north := Math_max (north this) (north other) \<rparr>"

text \<open>
  A Feature object.  \<open>o_id\<close> is the property \<^verbatim>\<open>id\<close> that \<^verbatim>\<open>requestFeatureById\<close>
  reads; \<open>None\<close> is \<^verbatim>\<open>undefined\<close>.  The constructor does not assign it.
\<close>

record 'i FeatureObj =
  o_type :: nat
  o_geometries :: addr
  o_vertices :: addr
  o_crs :: string
  o_size :: nat
  o_normals :: "addr option"
  o_extent :: "addr option"
  o_useCrsOut :: "bool option"
  o_pos :: nat
  o_style :: addr
  o_altitude :: altitude_range
  o_id :: "'i option"

text \<open>
  A style object is known by its \<^verbatim>\<open>parent\<close>, the one member these files assign; a
  style supplied from outside is a value of type \<open>'s\<close>.
\<close>

datatype ('p, 's, 'i) cell =
    NumArray "real js_array"
  | GeomArray "'p FeatureGeometry list"
  | ExtentCell Extent
  | StyleCell "'s option"
  | FeatureCell "'i FeatureObj"

type_synonym ('p, 's, 'i) heap = "('p, 's, 'i) cell list"

record 's FeatureCollection =
  fc_crs :: string
  features :: "addr list"
  mergeFeatures :: bool
  fc_extent :: "Extent option"
  fc_size :: nat
  fc_style :: "'s option"
  fc_altitude :: altitude_range

text \<open>
  The options the constructor of \<^verbatim>\<open>FeatureCollection\<close> reads; \<open>opt_crs\<close> is the
  result of \<^verbatim>\<open>CRS.formatToEPSG(options.crs)\<close>.
\<close>

record 's build_options =
  opt_crs :: string
  opt_mergeFeatures :: "bool option"
  opt_buildExtent :: bool
  opt_forcedExtentCrs :: "string option"
  opt_structure :: string
  opt_style :: "'s option"

definition new_FeatureCollection :: "'s build_options \<Rightarrow> 's FeatureCollection" where
  "new_FeatureCollection options =
     \<lparr> fc_crs = opt_crs options,
       features = [],
       mergeFeatures = (case opt_mergeFeatures options of None \<Rightarrow> True | Some b \<Rightarrow> b),
       fc_extent = (if opt_buildExtent options then
                      Some (defaultExtent (case opt_forcedExtentCrs options of
                                             None \<Rightarrow> opt_crs options
                                           | Some c \<Rightarrow> if c = [] then opt_crs options else c))
                    else None),
       fc_size = (if opt_structure options = ''3d'' then 3 else 2),
       fc_style = opt_style options,
       fc_altitude = empty_altitude \<rparr>"

type_synonym ('p, 's, 'i) state = "'s FeatureCollection \<times> ('p, 's, 'i) heap"

definition feature_at :: "('p, 's, 'i) heap \<Rightarrow> addr \<Rightarrow> 'i FeatureObj option" where
  "feature_at h a =
     (if a < length h then (case h ! a of FeatureCell f \<Rightarrow> Some f | _ \<Rightarrow> None) else None)"

definition nums_at :: "('p, 's, 'i) heap \<Rightarrow> addr \<Rightarrow> real js_array" where
  "nums_at h a = (if a < length h then (case h ! a of NumArray xs \<Rightarrow> xs | _ \<Rightarrow> []) else [])"

definition geoms_at :: "('p, 's, 'i) heap \<Rightarrow> addr \<Rightarrow> 'p FeatureGeometry list" where
  "geoms_at h a = (if a < length h then (case h ! a of GeomArray gs \<Rightarrow> gs | _ \<Rightarrow> []) else [])"

definition extent_at :: "('p, 's, 'i) heap \<Rightarrow> addr \<Rightarrow> Extent option" where
  "extent_at h a =
     (if a < length h then (case h ! a of ExtentCell e \<Rightarrow> Some e | _ \<Rightarrow> None) else None)"

definition style_at :: "('p, 's, 'i) heap \<Rightarrow> addr \<Rightarrow> 's option option" where
  "style_at h a =
     (if a < length h then (case h ! a of StyleCell s \<Rightarrow> Some s | _ \<Rightarrow> None) else None)"

text \<open>
  \<^verbatim>\<open>new Feature(type, collection)\<close> on the store: the arrays, the extent (when the
  collection has one) and the style \<^verbatim>\<open>new Style({}, collection.style)\<close> are new
  objects.  \<^verbatim>\<open>collection.forceExtentCrs\<close> is a property that no constructor sets, so
  \<^verbatim>\<open>useCrsOut\<close> is \<^verbatim>\<open>true\<close> whenever it is assigned.
\<close>

definition new_Feature_obj ::
  "nat \<Rightarrow> 's FeatureCollection \<Rightarrow> ('p, 's, 'i) heap \<Rightarrow> error + (addr \<times> ('p, 's, 'i) heap)" where
  "new_Feature_obj type collection h =
     (if type = POINT \<or> type = LINE \<or> type = POLYGON then
        (let g = length h;
             h1 = h @ [GeomArray []];
             v = length h1;
             h2 = h1 @ [NumArray []];
             n = (if fc_size collection = 3 then Some (length h2) else None);
             h3 = (if fc_size collection = 3 then h2 @ [NumArray []] else h2);
             e = (case fc_extent collection of None \<Rightarrow> None | Some x \<Rightarrow> Some (length h3));
             h4 = (case fc_extent collection of
                     None \<Rightarrow> h3
                   | Some x \<Rightarrow> h3 @ [ExtentCell (defaultExtent (ecrs x))]);
             s = length h4;
             h5 = h4 @ [StyleCell (fc_style collection)];
             this = \<lparr> o_type = type, o_geometries = g, o_vertices = v,
                      o_crs = fc_crs collection, o_size = fc_size collection, o_normals = n,
                      o_extent = e,
                      o_useCrsOut = (case fc_extent collection of None \<Rightarrow> None
                                     | Some x \<Rightarrow> Some True),
                      o_pos = 0, o_style = s, o_altitude = empty_altitude, o_id = None \<rparr>
         in Inr (length h5, h5 @ [FeatureCell this]))
      else Inl UnsupportedFeatureType)"

text \<open>\<^verbatim>\<open>FeatureCollection.requestFeature(type, callback)\<close>.\<close>

definition requestFeature ::
  "nat \<Rightarrow> ('i FeatureObj \<Rightarrow> bool) \<Rightarrow> ('p, 's, 'i) state \<Rightarrow> error + (addr \<times> ('p, 's, 'i) state)" where
  "requestFeature type callback st =
     (case st of (this, h) \<Rightarrow>
        (let feature = List.find (\<lambda>a. case feature_at h a of Some f \<Rightarrow> callback f
                                        | None \<Rightarrow> False) (features this)
         in if feature \<noteq> None \<and> mergeFeatures this then Inr (the feature, this, h)
            else (case new_Feature_obj type this h of
                    Inl e \<Rightarrow> Inl e
                  | Inr (newFeature, h') \<Rightarrow>
                      Inr (newFeature, this \<lparr> features := features this @ [newFeature] \<rparr>, h'))))"

definition requestFeatureByType ::
  "nat \<Rightarrow> ('p, 's, 'i) state \<Rightarrow> error + (addr \<times> ('p, 's, 'i) state)" where
  "requestFeatureByType type st = requestFeature type (\<lambda>feature. o_type feature = type) st"

definition requestFeatureById ::
  "'i option \<Rightarrow> nat \<Rightarrow> ('p, 's, 'i) state \<Rightarrow> error + (addr \<times> ('p, 's, 'i) state)" where
  "requestFeatureById ident type st = requestFeature type (\<lambda>feature. o_id feature = ident) st"

text \<open>
  \<^verbatim>\<open>FeatureCollection.newFeatureByReference(feature)\<close>; the argument is the address of
  the Feature to reference.
\<close>

definition newFeatureByReference ::
  "addr \<Rightarrow> ('p, 's, 'i) state \<Rightarrow> error + (addr \<times> ('p, 's, 'i) state)" where
  "newFeatureByReference a st =
     (case st of (this, h) \<Rightarrow>
        (case feature_at h a of
           None \<Rightarrow> Inl TypeError
         | Some feature \<Rightarrow>
             (case new_Feature_obj (o_type feature) this h of
                Inl e \<Rightarrow> Inl e
              | Inr (r, h') \<Rightarrow>
                  (case feature_at h' r of
                     None \<Rightarrow> Inl TypeError
                   | Some ref \<Rightarrow>
                       Inr (r, this \<lparr> features := features this @ [r] \<rparr>,
                            h'[r := FeatureCell
                                      (ref \<lparr> o_extent := o_extent feature,
                                             o_geometries := o_geometries feature,
                                             o_normals := o_normals feature,
                                             o_size := o_size feature,
                                             o_vertices := o_vertices feature,
                                             o_pos := o_pos feature \<rparr>)])))))"

text \<open>\<^verbatim>\<open>FeatureCollection.removeEmptyFeature()\<close>.\<close>

definition removeEmptyFeature :: "('p, 's, 'i) state \<Rightarrow> ('p, 's, 'i) state" where
  "removeEmptyFeature st =
     (case st of (this, h) \<Rightarrow>
        (this \<lparr> features :=
                  filter (\<lambda>a. case feature_at h a of
                                 Some feature \<Rightarrow> geoms_at h (o_geometries feature) \<noteq> []
                               | None \<Rightarrow> False) (features this) \<rparr>, h))"

text \<open>\<^verbatim>\<open>FeatureCollection.setParentStyle(style)\<close>; \<open>None\<close> is a falsy argument.\<close>

definition setParentStyle :: "'s option \<Rightarrow> ('p, 's, 'i) state \<Rightarrow> ('p, 's, 'i) state" where
  "setParentStyle style st =
     (case st of (this, h) \<Rightarrow>
        (case style of
           None \<Rightarrow> st
         | Some s \<Rightarrow>
             (this, fold (\<lambda>a h. case feature_at h a of
                                   Some f \<Rightarrow> h[o_style f := StyleCell (Some s)]
                                 | None \<Rightarrow> h) (features this) h)))"

text \<open>
  \<^verbatim>\<open>Feature.updateExtent(geometry)\<close> on the store, for the Feature at address \<open>a\<close>:
  \<^verbatim>\<open>this.extent.union(geometry.extent)\<close> changes the extent object in place.  The
  geometry is given by its extent and its altitude range; \<open>unite\<close> is the
  \<^verbatim>\<open>union\<close> method of the \<^verbatim>\<open>Extent\<close> class.
\<close>

definition updateExtent_obj ::
  "(Extent \<Rightarrow> Extent \<Rightarrow> Extent) \<Rightarrow> addr \<Rightarrow> Extent \<Rightarrow> altitude_range \<Rightarrow>
   ('p, 's, 'i) heap \<Rightarrow> ('p, 's, 'i) heap" where
  "updateExtent_obj unite a geometry_extent geometry_altitude h =
     (case feature_at h a of
        None \<Rightarrow> h
      | Some this \<Rightarrow>
          (let h1 = (case o_extent this of
                       None \<Rightarrow> h
                     | Some e \<Rightarrow> (case extent_at h e of
                                     None \<Rightarrow> h
                                   | Some x \<Rightarrow> h[e := ExtentCell (unite x geometry_extent)]))
           in if o_size this = 3 then
                h1[a := FeatureCell (this \<lparr> o_altitude :=
                   \<lparr> amin = Math_min (amin (o_altitude this)) (amin geometry_altitude),
                     amax = Math_max (amax (o_altitude this)) (amax geometry_altitude) \<rparr> \<rparr>)]
              else h1))"

text \<open>The Feature object at an address, read as the value-level record.\<close>

definition deref :: "('p, 's, 'i) heap \<Rightarrow> 'i FeatureObj \<Rightarrow> 'p Feature" where
  "deref h f =
     \<lparr> ftype = o_type f, geometries = geoms_at h (o_geometries f),
       vertices = nums_at h (o_vertices f), crs = o_crs f, fsize = o_size f,
       normals = map_option (nums_at h) (o_normals f), pos = o_pos f,
       altitude = o_altitude f \<rparr>"

text \<open>
  A call on the Feature at address \<open>a\<close>: the arrays are changed in place, at their
  addresses, and the write position and the altitude range in the Feature object.
\<close>

definition on_feature ::
  "addr \<Rightarrow> ('p Feature \<Rightarrow> 'p Feature) \<Rightarrow> ('p, 's, 'i) heap \<Rightarrow> ('p, 's, 'i) heap" where
  "on_feature a m h =
     (case feature_at h a of
        None \<Rightarrow> h
      | Some f \<Rightarrow>
          (let f' = m (deref h f);
               h1 = h[o_vertices f := NumArray (vertices f')];
               h2 = (case (o_normals f, normals f') of
                       (Some n, Some ns) \<Rightarrow> h1[n := NumArray ns]
                     | _ \<Rightarrow> h1);
               h3 = h2[o_geometries f := GeomArray (geometries f')]
           in h3[a := FeatureCell (f \<lparr> o_pos := pos f', o_altitude := altitude f' \<rparr>)]))"

text \<open>Sequences of calls on a collection, from its construction.\<close>

datatype 'i collection_call =
    RequestFeatureByType nat
  | RequestFeatureById "'i option" nat
  | NewFeatureByReference addr
  | RemoveEmptyFeature
  | OnFeature addr call

fun result_state ::
  "('p, 's, 'i) state \<Rightarrow> error + (addr \<times> ('p, 's, 'i) state) \<Rightarrow> ('p, 's, 'i) state" where
  "result_state st (Inl e) = st"
| "result_state st (Inr (a, st')) = st'"

fun do_collection_call :: "'i collection_call \<Rightarrow> ('p, 's, 'i) state \<Rightarrow> ('p, 's, 'i) state" where
  "do_collection_call (RequestFeatureByType t) st = result_state st (requestFeatureByType t st)"
| "do_collection_call (RequestFeatureById i t) st = result_state st (requestFeatureById i t st)"
| "do_collection_call (NewFeatureByReference a) st = result_state st (newFeatureByReference a st)"
| "do_collection_call RemoveEmptyFeature st = removeEmptyFeature st"
| "do_collection_call (OnFeature a c) st = (fst st, on_feature a (do_call c) (snd st))"

fun run_collection :: "'i collection_call list \<Rightarrow> ('p, 's, 'i) state \<Rightarrow> ('p, 's, 'i) state" where
  "run_collection [] st = st"
| "run_collection (c # cs) st = run_collection cs (do_collection_call c st)"

text \<open>
  A well-formed store: every member of a Feature object that holds an object holds
  the address of a cell of the right kind, and no Feature object has an \<^verbatim>\<open>id\<close>.  A
  collection is held properly when every entry of \<^verbatim>\<open>features\<close> is the address of a
  Feature object of a well-formed store.
\<close>

datatype kind = KNum | KGeom | KExtent | KStyle | KFeature

fun kind_of :: "('p, 's, 'i) cell \<Rightarrow> kind" where
  "kind_of (NumArray xs) = KNum"
| "kind_of (GeomArray gs) = KGeom"
| "kind_of (ExtentCell e) = KExtent"
| "kind_of (StyleCell s) = KStyle"
| "kind_of (FeatureCell f) = KFeature"

definition has_kind :: "kind list \<Rightarrow> addr \<Rightarrow> kind \<Rightarrow> bool" where
  "has_kind ks a k = (a < length ks \<and> ks ! a = k)"

definition refs_ok :: "kind list \<Rightarrow> 'i FeatureObj \<Rightarrow> bool" where
  "refs_ok ks f =
     (has_kind ks (o_vertices f) KNum \<and> has_kind ks (o_geometries f) KGeom \<and>
      (case o_normals f of None \<Rightarrow> True | Some n \<Rightarrow> has_kind ks n KNum) \<and>
      (case o_extent f of None \<Rightarrow> True | Some e \<Rightarrow> has_kind ks e KExtent) \<and>
      has_kind ks (o_style f) KStyle)"

definition cell_ok :: "kind list \<Rightarrow> ('p, 's, 'i) cell \<Rightarrow> bool" where
  "cell_ok ks c = (case c of FeatureCell f \<Rightarrow> refs_ok ks f \<and> o_id f = None | _ \<Rightarrow> True)"

definition heap_ok :: "('p, 's, 'i) heap \<Rightarrow> bool" where
  "heap_ok h = list_all (cell_ok (map kind_of h)) h"

definition features_ok :: "('p, 's, 'i) state \<Rightarrow> bool" where
  "features_ok st =
     (case st of (this, h) \<Rightarrow>
        list_all (\<lambda>a. has_kind (map kind_of h) a KFeature) (features this) \<and> heap_ok h)"

subsection \<open>Example collections\<close>

definition example_options :: "unit build_options" where
  "example_options =
     \<lparr> opt_crs = ''EPSG:4326'', opt_mergeFeatures = None, opt_buildExtent = True,
       opt_forcedExtentCrs = None, opt_structure = ''3d'', opt_style = None \<rparr>"

definition example_state :: "(unit, unit, nat) state" where
  "example_state =
     run_collection [RequestFeatureByType LINE] (new_FeatureCollection example_options, [])"

definition example_state1 :: "(unit, unit, nat) state" where
  "example_state1 = result_state example_state (requestFeatureByType POLYGON example_state)"

definition example_options_nomerge :: "unit build_options" where
  "example_options_nomerge = example_options \<lparr> opt_mergeFeatures := Some False \<rparr>"

definition example_state_nomerge :: "(unit, unit, nat) state" where
  "example_state_nomerge =
     run_collection [RequestFeatureByType LINE] (new_FeatureCollection example_options_nomerge, [])"

definition example_state_nomerge1 :: "(unit, unit, nat) state" where
  "example_state_nomerge1 =
     result_state example_state_nomerge (requestFeatureByType POLYGON example_state_nomerge)"

definition example_state_nomerge2 :: "(unit, unit, nat) state" where
  "example_state_nomerge2 =
     result_state example_state_nomerge1 (requestFeatureByType POLYGON example_state_nomerge1)"

definition example_state_by_id :: "(unit, unit, nat) state" where
  "example_state_by_id =
     result_state example_state (requestFeatureById (Some 7) LINE example_state)"

definition example_state_ref :: "(unit, unit, nat) state" where
  "example_state_ref = result_state example_state (newFeatureByReference 5 example_state)"

definition example_geometry_extent :: Extent where
  "example_geometry_extent =
     \<lparr> ecrs = ''EPSG:4326'', west = Finite 1, east = Finite 2, south = Finite 3,
       north = Finite 4 \<rparr>"

section \<open>Feature2Mesh: numbers and typed arrays\<close>

text \<open>
  A JavaScript number that holds a coordinate or a colour channel is a \<open>number\<close>:
  \<open>Some x\<close> for a finite value, \<open>None\<close> for a value that is not a finite number
  (\<^verbatim>\<open>NaN\<close>, an infinity, or \<^verbatim>\<open>undefined\<close> read as a number).  Sums, differences
  and products of numbers are finite exactly when their operands are; rounding is not
  modelled.  A number that indexes or counts vertices is a \<open>rat\<close>: the engine divides
  buffer lengths by 3.
\<close>

type_synonym number = "real option"

definition num_add :: "number \<Rightarrow> number \<Rightarrow> number" where
  "num_add a b = (case (a, b) of (Some x, Some y) \<Rightarrow> Some (x + y) | _ \<Rightarrow> None)"

definition num_sub :: "number \<Rightarrow> number \<Rightarrow> number" where
  "num_sub a b = (case (a, b) of (Some x, Some y) \<Rightarrow> Some (x - y) | _ \<Rightarrow> None)"

definition num_mul :: "number \<Rightarrow> number \<Rightarrow> number" where
  "num_mul a b = (case (a, b) of (Some x, Some y) \<Rightarrow> Some (x * y) | _ \<Rightarrow> None)"

text \<open>\<^verbatim>\<open>a < b\<close> on numbers: false when an operand is not a number.\<close>

definition num_less :: "number \<Rightarrow> number \<Rightarrow> bool" where
  "num_less a b = (case (a, b) of (Some x, Some y) \<Rightarrow> x < y | _ \<Rightarrow> False)"

text \<open>Truncation towards zero (\<^verbatim>\<open>ToIntegerOrInfinity\<close> of a finite value).\<close>

definition trunc_real :: "real \<Rightarrow> int" where
  "trunc_real x = (if 0 \<le> x then \<lfloor>x\<rfloor> else \<lceil>x\<rceil>)"

definition trunc_rat :: "rat \<Rightarrow> int" where
  "trunc_rat x = (if 0 \<le> x then \<lfloor>x\<rfloor> else \<lceil>x\<rceil>)"

definition is_integer :: "rat \<Rightarrow> bool" where
  "is_integer x = (of_int \<lfloor>x\<rfloor> = x)"

text \<open>
  The conversions of the typed arrays: a value that is not a finite number becomes 0,
  a finite one is truncated and wraps around.
\<close>

definition ToUint8 :: "number \<Rightarrow> 8 word" where
  "ToUint8 v = (case v of None \<Rightarrow> 0 | Some x \<Rightarrow> word_of_int (trunc_real x))"

definition ToUint16 :: "rat option \<Rightarrow> 16 word" where
  "ToUint16 v = (case v of None \<Rightarrow> 0 | Some x \<Rightarrow> word_of_int (trunc_rat x))"

definition ToUint32 :: "int \<Rightarrow> 32 word" where
  "ToUint32 v = word_of_int v"

text \<open>
  \<^verbatim>\<open>new Uint8Array(n)\<close> and its siblings for a length \<open>n\<close> that is a number:
  \<^verbatim>\<open>ToIndex\<close> truncates it and throws a \<^verbatim>\<open>RangeError\<close> when the result is negative.
\<close>

definition ToIndex :: "rat \<Rightarrow> error + nat" where
  "ToIndex n = (if trunc_rat n < 0 then Inl RangeError else Inr (nat (trunc_rat n)))"

text \<open>
  \<^verbatim>\<open>a[i] = v\<close> on a typed array: no effect unless \<open>i\<close> is an integer index inside
  the array.  \<^verbatim>\<open>a[i]\<close> on a plain array or on \<^verbatim>\<open>undefined\<close>.
\<close>

definition ta_write :: "'a list \<Rightarrow> rat \<Rightarrow> 'a \<Rightarrow> 'a list" where
  "ta_write a i v =
     (if is_integer i \<and> 0 \<le> i \<and> nat \<lfloor>i\<rfloor> < length a then a[nat \<lfloor>i\<rfloor> := v] else a)"

definition js_read :: "'a js_array \<Rightarrow> rat \<Rightarrow> 'a option" where
  "js_read a i =
     (if is_integer i \<and> 0 \<le> i \<and> nat \<lfloor>i\<rfloor> < length a then a ! nat \<lfloor>i\<rfloor> else None)"

text \<open>
  \<^verbatim>\<open>a.slice(begin, end)\<close> on a typed array, for integer arguments: a negative argument
  counts from the end.
\<close>

definition slice_index :: "nat \<Rightarrow> int \<Rightarrow> nat" where
  "slice_index len k = (if k < 0 then nat (max (int len + k) 0) else min (nat k) len)"

definition ta_slice :: "'a list \<Rightarrow> rat \<Rightarrow> rat \<Rightarrow> 'a list" where
  "ta_slice a b e =
     (let from = slice_index (length a) (trunc_rat b); to = slice_index (length a) (trunc_rat e)
      in take (to - from) (drop from a))"

section \<open>Feature2Mesh: the collaborators of the engine\<close>

text \<open>A \<^verbatim>\<open>THREE.Color\<close>.\<close>

record rgb =
  red :: number
  green :: number
  blue :: number

text \<open>
  What \<^verbatim>\<open>drawingStylefromContext\<close> returns when it returns a style: the members
  \<^verbatim>\<open>stroke\<close> (with its \<^verbatim>\<open>width\<close> and \<^verbatim>\<open>color\<close>) and \<^verbatim>\<open>fill\<close> (with its
  \<^verbatim>\<open>color\<close>), each possibly \<^verbatim>\<open>undefined\<close>.  A colour of a style is a value of type
  \<open>'c\<close>.
\<close>

record 'c context_style =
  stroke :: "(number \<times> 'c option) option"
  fill :: "'c option option"

text \<open>
  The collaborators: the style of the feature, \<^verbatim>\<open>THREE.Color\<close>, \<^verbatim>\<open>Earcut\<close>.
  \<^item> \<open>drawingStylefromContext g zoom\<close> is
    \<^verbatim>\<open>(geometry.properties.style || feature.style).drawingStylefromContext(ctx)\<close> for
    the geometry \<open>g\<close> and \<^verbatim>\<open>context.zoom\<close>; \<open>None\<close> is a falsy result.
  \<^item> \<open>extrusion_height\<close> is \<^verbatim>\<open>feature.style.fill.extrusion_height\<close>: falsy, a truthy
    value that cannot be called (a number other than 0), or a function of the
    properties; \<open>fill_color\<close> is \<^verbatim>\<open>feature.style.fill.color\<close>, \<open>None\<close> when it is
    not a function.
  \<^item> \<open>Color c\<close> is \<^verbatim>\<open>new THREE.Color(c)\<close> for a style colour or \<^verbatim>\<open>undefined\<close>,
    \<open>Color_hex x\<close> the same for a number, and \<open>channels c\<close> are the members
    \<^verbatim>\<open>r\<close>, \<^verbatim>\<open>g\<close>, \<^verbatim>\<open>b\<close> read off a style colour itself.
  \<^item> \<open>Earcut data holes dim\<close> is the triangulation.
\<close>

datatype 'p extrusion =
    NoExtrusion
  | ExtrusionValue
  | ExtrusionFunction "'p option \<Rightarrow> number"

record ('p, 'c) collaborators =
  drawingStylefromContext :: "'p FeatureGeometry \<Rightarrow> number \<Rightarrow> 'c context_style option"
  extrusion_height :: "'p extrusion"
  fill_color :: "('p option \<Rightarrow> rgb) option"
  Color :: "'c option \<Rightarrow> rgb"
  Color_hex :: "number \<Rightarrow> rgb"
  channels :: "'c option \<Rightarrow> rgb"
  Earcut :: "number list \<Rightarrow> rat list \<Rightarrow> nat \<Rightarrow> nat list"

text \<open>
  The conversion options: \<^verbatim>\<open>batchId\<close> (a function of the properties and the
  feature index), \<^verbatim>\<open>color\<close> (absent, a colour, or a function of the properties
  whose falsy result is \<open>None\<close>), \<^verbatim>\<open>altitude\<close> and \<^verbatim>\<open>fnAltitude\<close> (absent or a
  number).
\<close>

datatype 'p color_option = NoColor | ConstColor rgb | ColorFunction "'p option \<Rightarrow> rgb option"

record 'p convert_options =
  batchId :: "('p option \<Rightarrow> nat \<Rightarrow> int) option"
  color_opt :: "'p color_option"
  altitude_opt :: number
  fnAltitude :: number

text \<open>
  What the engine hands to the renderer: the attributes of a \<^verbatim>\<open>BufferGeometry\<close> and
  the kind of object built on it.
\<close>

record buffers =
  position :: "number list"
  color_attr :: "8 word list option"
  batchId_attr :: "32 word list option"
  index_attr :: "16 word list option"

datatype object3d =
    Points buffers
  | Line buffers
  | LineSegments buffers number
  | Mesh buffers
  | EmptyMesh

section \<open>Feature2Mesh: the helpers\<close>

text \<open>\<^verbatim>\<open>getProperty(name, options, defaultValue, ...args)\<close> for the name \<^verbatim>\<open>color\<close>.\<close>

definition getProperty_color :: "'p color_option \<Rightarrow> ('p option \<Rightarrow> rgb) \<Rightarrow> 'p option \<Rightarrow> rgb" where
  "getProperty_color property defaultValue args =
     (case property of
        NoColor \<Rightarrow> defaultValue args
      | ConstColor c \<Rightarrow> c
      | ColorFunction f \<Rightarrow> (case f args of Some p \<Rightarrow> p | None \<Rightarrow> defaultValue args))"

text \<open>
  \<^verbatim>\<open>randomColor()\<close>.  \<open>random\<close> is the value that this call of \<^verbatim>\<open>Math.random()\<close>
  returns.
\<close>

definition randomColor :: "('p, 'c) collaborators \<Rightarrow> real \<Rightarrow> rgb" where
  "randomColor env random = Color_hex env (Some (random * 16777215))"

text \<open>\<^verbatim>\<open>fillColorArray(colors, length, color, offset = 0)\<close>.\<close>

function fillColorArray_loop :: "8 word list \<Rightarrow> rgb \<Rightarrow> rat \<Rightarrow> rat \<Rightarrow> 8 word list" where
  "fillColorArray_loop colors color i len =
     (if i < len then
        fillColorArray_loop
          (ta_write (ta_write (ta_write colors i (ToUint8 (num_mul (red color) (Some 255))))
                       (i + 1) (ToUint8 (num_mul (green color) (Some 255))))
             (i + 2) (ToUint8 (num_mul (blue color) (Some 255))))
          color (i + 3) len
      else colors)"
  by pat_completeness auto
termination
  by (relation "measure (\<lambda>(colors, color, i, len). nat \<lceil>len - i\<rceil>)") (auto, linarith)

definition fillColorArray :: "8 word list \<Rightarrow> rat \<Rightarrow> rgb \<Rightarrow> rat \<Rightarrow> 8 word list" where
  "fillColorArray colors len color off =
     fillColorArray_loop colors color (off * 3) (off * 3 + len * 3)"

text \<open>\<^verbatim>\<open>fillBatchIdArray(batchId, batchIdArray, start, end)\<close>.\<close>

function fillBatchIdArray_loop :: "int \<Rightarrow> 32 word list \<Rightarrow> rat \<Rightarrow> rat \<Rightarrow> 32 word list" where
  "fillBatchIdArray_loop ident batchIdArray i stop =
     (if i < stop then
        fillBatchIdArray_loop ident (ta_write batchIdArray i (ToUint32 ident)) (i + 1) stop
      else batchIdArray)"
  by pat_completeness auto
termination
  by (relation "measure (\<lambda>(ident, batchIdArray, i, stop). nat \<lceil>stop - i\<rceil>)") (auto, linarith)

definition fillBatchIdArray :: "int \<Rightarrow> 32 word list \<Rightarrow> rat \<Rightarrow> rat \<Rightarrow> 32 word list" where
  "fillBatchIdArray ident batchIdArray start stop =
     fillBatchIdArray_loop ident batchIdArray start stop"

text \<open>
  \<^verbatim>\<open>coordinatesToVertices(ptsIn, normals, target, altitude, extrude, offsetOut, countIn, startIn)\<close>;
  the callers below pass the default values of the parameters they leave out.  Reading
  \<^verbatim>\<open>normals[i]\<close> throws when the feature has no normals.
\<close>

function coordinatesToVertices_loop ::
  "real js_array \<Rightarrow> real js_array option \<Rightarrow> number list \<Rightarrow> number \<Rightarrow> rat \<Rightarrow> rat \<Rightarrow> rat \<Rightarrow>
   error + number list" where
  "coordinatesToVertices_loop ptsIn nrm target d i j endIn =
     (if i < endIn then
        (case nrm of
           None \<Rightarrow> Inl TypeError
         | Some ns \<Rightarrow>
             coordinatesToVertices_loop ptsIn nrm
               (ta_write
                  (ta_write
                     (ta_write target j
                        (num_add (js_read ptsIn i) (num_mul (js_read ns i) d)))
                     (j + 1) (num_add (js_read ptsIn (i + 1)) (num_mul (js_read ns (i + 1)) d)))
                  (j + 2) (num_add (js_read ptsIn (i + 2)) (num_mul (js_read ns (i + 2)) d)))
               d (i + 3) (j + 3) endIn)
      else Inr target)"
  by pat_completeness auto
termination
  by (relation "measure (\<lambda>(ptsIn, nrm, target, d, i, j, endIn). nat \<lceil>endIn - i\<rceil>)")
     (auto, linarith)

definition coordinatesToVertices ::
  "real js_array \<Rightarrow> real js_array option \<Rightarrow> number list \<Rightarrow> number \<Rightarrow> number \<Rightarrow> rat \<Rightarrow> rat \<Rightarrow> rat \<Rightarrow>
   error + number list" where
  "coordinatesToVertices ptsIn nrm target alt extrude offsetOut countIn startIn =
     coordinatesToVertices_loop ptsIn nrm target (num_sub extrude alt)
       (startIn * 3) (offsetOut * 3) (startIn * 3 + countIn * 3)"

text \<open>\<^verbatim>\<open>addExtrudedPolygonSideFaces(indices, length, offset, count, isClockWise)\<close>.\<close>

function side_faces_loop ::
  "rat js_array \<Rightarrow> rat \<Rightarrow> bool \<Rightarrow> int \<Rightarrow> nat \<Rightarrow> int \<Rightarrow> rat js_array" where
  "side_faces_loop ixs len isClockWise i j stop =
     (if i < stop then
        side_faces_loop
          (if isClockWise then
             js_write (js_write (js_write (js_write (js_write (js_write ixs
               j (of_int i)) (j + 1) (of_int i + len)) (j + 2) (of_int i + 1))
               (j + 3) (of_int i + 1)) (j + 4) (of_int i + len)) (j + 5) (of_int i + len + 1)
           else
             js_write (js_write (js_write (js_write (js_write (js_write ixs
               j (of_int i + len)) (j + 1) (of_int i)) (j + 2) (of_int i + len + 1))
               (j + 3) (of_int i + len + 1)) (j + 4) (of_int i)) (j + 5) (of_int i + 1))
          len isClockWise (i + 1) (j + 6) stop
      else ixs)"
  by pat_completeness auto
termination
  by (relation "measure (\<lambda>(ixs, len, isClockWise, i, j, stop). nat (stop - i))") auto

definition addExtrudedPolygonSideFaces ::
  "rat js_array \<Rightarrow> rat \<Rightarrow> int \<Rightarrow> nat \<Rightarrow> bool \<Rightarrow> error + rat js_array" where
  "addExtrudedPolygonSideFaces ixs len off cnt isClockWise =
     (let startIndice = length ixs;
          newLength = int (length ixs) + (int cnt - 1) * 6
      in if newLength < 0 then Inl RangeError
         else Inr (side_faces_loop (set_length ixs (nat newLength)) len isClockWise
                     off startIndice (off + int cnt - 1)))"

text \<open>\<^verbatim>\<open>area(contour, offset, count)\<close>.\<close>

function area_loop :: "real js_array \<Rightarrow> number \<Rightarrow> rat \<Rightarrow> rat \<Rightarrow> rat \<Rightarrow> number" where
  "area_loop contour a p q n =
     (if q < n then
        area_loop contour
          (num_add a (num_sub (num_mul (js_read contour p) (js_read contour (q + 1)))
                              (num_mul (js_read contour q) (js_read contour (p + 1)))))
          q (q + 3) n
      else a)"
  by pat_completeness auto
termination
  by (relation "measure (\<lambda>(contour, a, p, q, n). nat \<lceil>n - q\<rceil>)") (auto, linarith)

definition area :: "real js_array \<Rightarrow> rat \<Rightarrow> rat \<Rightarrow> number" where
  "area contour off cnt =
     num_mul (area_loop contour (Some 0) (cnt * 3 + off * 3 - 3) (off * 3) (cnt * 3)) (Some (1 / 2))"

text \<open>Small readers used by the four converters.\<close>

definition number_of_ext :: "extnum \<Rightarrow> number" where
  "number_of_ext x = (case x of Finite a \<Rightarrow> Some a | _ \<Rightarrow> None)"

text \<open>\<^verbatim>\<open>new Float32Array(ptsIn)\<close> and \<^verbatim>\<open>new Uint16Array(indices)\<close> from plain arrays.\<close>

definition Float32Array_from :: "real js_array \<Rightarrow> number list" where
  "Float32Array_from a = a"

definition Uint16Array_from :: "rat js_array \<Rightarrow> 16 word list" where
  "Uint16Array_from a = map ToUint16 a"

text \<open>\<^verbatim>\<open>options.batchId ? new Uint32Array(n) : undefined\<close>.\<close>

definition new_batchIds :: "'p convert_options \<Rightarrow> rat \<Rightarrow> error + 32 word list option" where
  "new_batchIds options n =
     (case batchId options of
        None \<Rightarrow> Inr None
      | Some f \<Rightarrow> (case ToIndex n of Inl e \<Rightarrow> Inl e | Inr k \<Rightarrow> Inr (Some (replicate k 0))))"

section \<open>Feature2Mesh: points\<close>

text \<open>
  \<^verbatim>\<open>featureToPoint(feature, options)\<close>.  \<open>randoms\<close> gives the results of the calls
  of \<^verbatim>\<open>Math.random()\<close> in their order; the loop counts the calls it makes.
\<close>

record point_state =
  pt_colors :: "8 word list"
  pt_batchIds :: "32 word list option"
  pt_featureId :: nat
  pt_random_calls :: nat

fun featureToPoint_geometries ::
  "('p, 'c) collaborators \<Rightarrow> (nat \<Rightarrow> real) \<Rightarrow> 'p convert_options \<Rightarrow> 'p FeatureGeometry list \<Rightarrow>
   point_state \<Rightarrow> error + point_state" where
  "featureToPoint_geometries env randoms options [] st = Inr st"
| "featureToPoint_geometries env randoms options (geometry # rest) st =
     (let uses_random = (case color_opt options of
                           NoColor \<Rightarrow> True
                         | ConstColor c \<Rightarrow> False
                         | ColorFunction f \<Rightarrow> f (properties geometry) = None);
          color = getProperty_color (color_opt options)
                    (\<lambda>args. randomColor env (randoms (pt_random_calls st))) (properties geometry);
          calls = (if uses_random then pt_random_calls st + 1 else pt_random_calls st)
      in case indices geometry of
           [] \<Rightarrow> Inl TypeError
         | first # others \<Rightarrow>
             (let start = offset first;
                  cnt = count first;
                  colors = fillColorArray (pt_colors st) (of_nat cnt) color (of_int start);
                  st1 = st \<lparr> pt_colors := colors, pt_random_calls := calls \<rparr>;
                  st2 = (case (pt_batchIds st, batchId options) of
                           (Some batchIds, Some f) \<Rightarrow>
                             st1 \<lparr> pt_batchIds :=
                                     Some (fillBatchIdArray (f (properties geometry) (pt_featureId st))
                                             batchIds (of_int start) (of_int start + of_nat cnt)),
                                   pt_featureId := pt_featureId st + 1 \<rparr>
                         | _ \<Rightarrow> st1)
              in featureToPoint_geometries env randoms options rest st2))"

definition featureToPoint ::
  "('p, 'c) collaborators \<Rightarrow> (nat \<Rightarrow> real) \<Rightarrow> 'p Feature \<Rightarrow> 'p convert_options \<Rightarrow> error + object3d" where
  "featureToPoint env randoms feature options =
     (let ptsIn = vertices feature;
          colors = replicate (length ptsIn) 0
      in case new_batchIds options (of_nat (length ptsIn) / 3) of
           Inl e \<Rightarrow> Inl e
         | Inr batchIds \<Rightarrow>
             (case (if altitude_opt options \<noteq> Some 0 then
                      coordinatesToVertices ptsIn (normals feature)
                        (replicate (length ptsIn) (Some 0))
                        (case fnAltitude options of None \<Rightarrow> Some 0 | Some a \<Rightarrow> Some a)
                        (Some 0) 0 (of_nat (length ptsIn) / 3) 0
                    else Inr (Float32Array_from ptsIn)) of
                Inl e \<Rightarrow> Inl e
              | Inr verts \<Rightarrow>
                  (case featureToPoint_geometries env randoms options (geometries feature)
                          \<lparr> pt_colors = colors, pt_batchIds = batchIds, pt_featureId = 0,
                            pt_random_calls = 0 \<rparr> of
                     Inl e \<Rightarrow> Inl e
                   | Inr st \<Rightarrow>
                       Inr (Points \<lparr> position = verts, color_attr = Some (pt_colors st),
                                     batchId_attr = pt_batchIds st, index_attr = None \<rparr>))))"

section \<open>Feature2Mesh: lines\<close>

text \<open>
  The inner loop of the multi-line case: the edges \<open>(j, j + 1)\<close> of one geometry, until
  \<open>j\<close> reaches \<^verbatim>\<open>0xffff\<close>.  The index array is a \<^verbatim>\<open>Uint16Array\<close>; a write past its
  end has no effect, and \<open>i\<close> advances all the same.
\<close>

function line_edges_loop :: "16 word list \<Rightarrow> nat \<Rightarrow> int \<Rightarrow> int \<Rightarrow> 16 word list \<times> nat" where
  "line_edges_loop ixs i j stop =
     (if j < stop then
        (if j < 65535 then
           line_edges_loop (ixs[i := word_of_int j, i + 1 := word_of_int (j + 1)]) (i + 2) (j + 1) stop
         else (ixs, i))
      else (ixs, i))"
  by pat_completeness auto
termination
  by (relation "measure (\<lambda>(ixs, i, j, stop). nat (stop - j))") auto

definition overflow_warning :: string where
  "overflow_warning = ''Feature to Line: integer overflow, too many points in lines''"

record line_state =
  ln_i :: nat
  ln_indices :: "16 word list"
  ln_colors :: "8 word list"
  ln_batchIds :: "32 word list option"
  ln_featureId :: nat
  ln_linewidth :: number
  ln_warnings :: "string list"

text \<open>
  The loop over the geometries of the multi-line case: \<^verbatim>\<open>continue\<close> for a geometry
  without a drawing style, \<^verbatim>\<open>break\<close> with a warning for a geometry that starts past
  \<^verbatim>\<open>0xffff\<close>.
\<close>

fun featureToLine_geometries ::
  "('p, 'c) collaborators \<Rightarrow> 'p convert_options \<Rightarrow> number \<Rightarrow> 'p FeatureGeometry list \<Rightarrow>
   line_state \<Rightarrow> error + line_state" where
  "featureToLine_geometries env options zoom [] st = Inr st"
| "featureToLine_geometries env options zoom (geometry # rest) st =
     (case drawingStylefromContext env geometry zoom of
        None \<Rightarrow> featureToLine_geometries env options zoom rest st
      | Some contextStyle \<Rightarrow>
          (case stroke contextStyle of
             None \<Rightarrow> Inl TypeError
           | Some (width, stroke_color) \<Rightarrow>
               (case indices geometry of
                  [] \<Rightarrow> Inl TypeError
                | first # others \<Rightarrow>
                    (let color = Color env stroke_color;
                         start = offset first
                     in if start > 65535 then
                          Inr (st \<lparr> ln_linewidth := width,
                                    ln_warnings := ln_warnings st @ [overflow_warning] \<rparr>)
                        else
                          (let cnt = count first;
                               stop = start + int cnt;
                               colors = fillColorArray (ln_colors st) (of_nat cnt) color (of_int start);
                               (ixs, i) = line_edges_loop (ln_indices st) (ln_i st) start (stop - 1);
                               st1 = st \<lparr> ln_i := i, ln_indices := ixs, ln_colors := colors,
                                          ln_linewidth := width \<rparr>;
                               st2 = (case (ln_batchIds st, batchId options) of
                                        (Some batchIds, Some f) \<Rightarrow>
                                          st1 \<lparr> ln_batchIds :=
                                                  Some (fillBatchIdArray
                                                          (f (properties geometry) (ln_featureId st))
                                                          batchIds (of_int start) (of_int stop)),
                                                ln_featureId := ln_featureId st + 1 \<rparr>
                                      | _ \<Rightarrow> st1)
                           in featureToLine_geometries env options zoom rest st2)))))"

text \<open>
  \<^verbatim>\<open>featureToLine(feature, options, context)\<close>: the object, if one is made, and the
  warnings logged.  \<^verbatim>\<open>new THREE.LineBasicMaterial()\<close> has line width 1.
\<close>

definition featureToLine ::
  "('p, 'c) collaborators \<Rightarrow> 'p Feature \<Rightarrow> 'p convert_options \<Rightarrow> number \<Rightarrow>
   error + (object3d option \<times> string list)" where
  "featureToLine env feature options zoom =
     (let ptsIn = vertices feature;
          colors = replicate (length ptsIn) 0;
          cnt = of_nat (length ptsIn) / 3
      in case new_batchIds options cnt of
           Inl e \<Rightarrow> Inl e
         | Inr batchIds \<Rightarrow>
             (case (if amin (altitude feature) \<noteq> Infinity then
                      coordinatesToVertices ptsIn (normals feature)
                        (replicate (length ptsIn) (Some 0))
                        (number_of_ext (amin (altitude feature))) (Some 0) 0 cnt 0
                    else Inr (Float32Array_from ptsIn)) of
                Inl e \<Rightarrow> Inl e
              | Inr verts \<Rightarrow>
                  (if length (geometries feature) > 1 then
                     (case ToIndex ((cnt - of_nat (length (geometries feature))) * 2) of
                        Inl e \<Rightarrow> Inl e
                      | Inr countIndices \<Rightarrow>
                          (case featureToLine_geometries env options zoom (geometries feature)
                                  \<lparr> ln_i = 0, ln_indices = replicate countIndices 0,
                                    ln_colors = colors, ln_batchIds = batchIds, ln_featureId = 0,
                                    ln_linewidth = Some 1, ln_warnings = [] \<rparr> of
                             Inl e \<Rightarrow> Inl e
                           | Inr st \<Rightarrow>
                               Inr (Some (LineSegments
                                            \<lparr> position = verts, color_attr = Some (ln_colors st),
                                              batchId_attr = ln_batchIds st,
                                              index_attr = Some (ln_indices st) \<rparr>
                                            (ln_linewidth st)),
                                    ln_warnings st)))
                   else
                     (case geometries feature of
                        [] \<Rightarrow> Inl TypeError
                      | geometry # others \<Rightarrow>
                          (case drawingStylefromContext env geometry zoom of
                             None \<Rightarrow> Inr (None, [])
                           | Some contextStyle \<Rightarrow>
                               (case stroke contextStyle of
                                  None \<Rightarrow> Inl TypeError
                                | Some (width, stroke_color) \<Rightarrow>
                                    (if stroke_color = None \<and> 0 < cnt then Inl TypeError
                                     else
                                       Inr (Some (Line
                                         \<lparr> position = verts,
                                           color_attr = Some (fillColorArray colors cnt
                                                                (channels env stroke_color) 0),
                                           batchId_attr =
                                             (case (batchIds, batchId options) of
                                                (Some b, Some f) \<Rightarrow>
                                                  Some (fillBatchIdArray (f (properties geometry) 0)
                                                          b 0 cnt)
                                              | _ \<Rightarrow> None),
                                           index_attr = None \<rparr>), []))))))))"

subsection \<open>What the multi-line loop writes\<close>

text \<open>
  The values the loop writes into the index array, in the order of the writes
  \<^verbatim>\<open>indices[i++] = ...\<close>: for the range of one geometry from \<open>j\<close> up to (and without)
  \<open>stop\<close>, and for a list of geometries.  \<open>write_seq\<close> stores a sequence of values at
  consecutive positions of a typed array.
\<close>

definition edge_values :: "int \<Rightarrow> int \<Rightarrow> int list" where
  "edge_values j stop = concat (map (\<lambda>k. [k, k + 1]) [j..stop - 1])"

fun write_seq :: "'a list \<Rightarrow> nat \<Rightarrow> 'a list \<Rightarrow> 'a list" where
  "write_seq xs i [] = xs"
| "write_seq xs i (v # vs) = write_seq (xs[i := v]) (i + 1) vs"

fun emitted :: "('p, 'c) collaborators \<Rightarrow> number \<Rightarrow> 'p FeatureGeometry list \<Rightarrow> int list" where
  "emitted env zoom [] = []"
| "emitted env zoom (g # rest) =
     (case drawingStylefromContext env g zoom of
        None \<Rightarrow> emitted env zoom rest
      | Some contextStyle \<Rightarrow>
          (let start = offset (hd (indices g))
           in if start > 65535 then []
              else edge_values start (min (start + int (count (hd (indices g))) - 1) 65535)
                   @ emitted env zoom rest))"

fun warned :: "('p, 'c) collaborators \<Rightarrow> number \<Rightarrow> 'p FeatureGeometry list \<Rightarrow> bool" where
  "warned env zoom [] = False"
| "warned env zoom (g # rest) =
     (case drawingStylefromContext env g zoom of
        None \<Rightarrow> warned env zoom rest
      | Some contextStyle \<Rightarrow>
          (if offset (hd (indices g)) > 65535 then True else warned env zoom rest))"

text \<open>A geometry that the loop can process without a \<^verbatim>\<open>TypeError\<close>.\<close>

definition drawable :: "('p, 'c) collaborators \<Rightarrow> number \<Rightarrow> 'p FeatureGeometry \<Rightarrow> bool" where
  "drawable env zoom g =
     (case drawingStylefromContext env g zoom of
        None \<Rightarrow> True
      | Some contextStyle \<Rightarrow> stroke contextStyle \<noteq> None \<and> indices g \<noteq> [])"

text \<open>The vertices a geometry's first range skips because of the limit: its lost edges.\<close>

definition lost_edges :: "'p FeatureGeometry \<Rightarrow> nat" where
  "lost_edges g =
     nat (offset (hd (indices g)) + int (count (hd (indices g))) - 1
          - max (offset (hd (indices g))) 65535)"

text \<open>The first range of a geometry, the one the line and point converters read.\<close>

definition first_offset :: "'p FeatureGeometry \<Rightarrow> int" where
  "first_offset g = offset (hd (indices g))"

definition first_count :: "'p FeatureGeometry \<Rightarrow> nat" where
  "first_count g = count (hd (indices g))"

subsection \<open>Readers of a line result and example features\<close>

definition line_result_index :: "error + (object3d option \<times> string list) \<Rightarrow> 16 word list option" where
  "line_result_index r =
     (case r of Inr (Some (LineSegments b w), ws) \<Rightarrow> index_attr b | _ \<Rightarrow> None)"

definition line_result_warnings :: "error + (object3d option \<times> string list) \<Rightarrow> string list option" where
  "line_result_warnings r = (case r of Inr (obj, ws) \<Rightarrow> Some ws | Inl e \<Rightarrow> None)"

definition example_env :: "(unit, unit) collaborators" where
  "example_env =
     \<lparr> drawingStylefromContext = (\<lambda>g zoom. Some \<lparr> stroke = Some (Some 2, Some ()), fill = Some (Some ()) \<rparr>),
       extrusion_height = NoExtrusion,
       fill_color = None,
       Color = (\<lambda>c. \<lparr> red = Some 1, green = Some 0, blue = Some 0 \<rparr>),
       Color_hex = (\<lambda>x. \<lparr> red = Some 0, green = Some 0, blue = Some 0 \<rparr>),
       channels = (\<lambda>c. \<lparr> red = Some 1, green = Some 0, blue = Some 0 \<rparr>),
       Earcut = (\<lambda>data holes dim. []) \<rparr>"

definition example_convert_options :: "unit convert_options" where
  "example_convert_options =
     \<lparr> batchId = Some (\<lambda>props featureId. int featureId), color_opt = NoColor,
       altitude_opt = None, fnAltitude = None \<rparr>"

definition line_geometry :: "int \<Rightarrow> nat \<Rightarrow> unit FeatureGeometry" where
  "line_geometry start n =
     \<lparr> indices = [\<lparr> offset = start, count = n \<rparr>], properties = Some (), gsize = 3,
       galtitude = empty_altitude \<rparr>"

definition line_feature :: "unit FeatureGeometry list \<Rightarrow> nat \<Rightarrow> unit Feature" where
  "line_feature gs n =
     \<lparr> ftype = LINE, geometries = gs, vertices = replicate (3 * n) (Some 0), crs = ''EPSG:4326'',
       fsize = 3, normals = Some (replicate (3 * n) (Some 0)), pos = 3 * n,
       altitude = empty_altitude \<rparr>"

definition example_two_lines :: "unit Feature" where
  "example_two_lines = line_feature [line_geometry 0 3, line_geometry 3 3] 6"


definition example_over_limit :: "unit Feature" where
  "example_over_limit = line_feature [line_geometry 0 65536, line_geometry 65536 3] 65539"

definition example_silent :: "unit Feature" where
  "example_silent = line_feature [line_geometry 0 3, line_geometry 3 65536] 65539"

subsection \<open>Line features as the parser makes them\<close>

text \<open>
  Two lines of three points each, read into a Feature of a collection with structure 2d
  (two values per vertex, no normals), and an empty line followed by the same two lines,
  read into a Feature with three values per vertex.
\<close>

definition example_two_lines_json :: "(geojson \<times> unit) list" where
  "example_two_lines_json =
     [(MultiLineString [[pt 0 0 0, pt 1 0 0, pt 2 0 0], [pt 0 1 0, pt 1 1 0, pt 2 1 0]], ())]"

definition example_two_lines_2d :: "unit Feature" where
  "example_two_lines_2d =
    \<lparr> ftype = LINE,
      geometries =
        [\<lparr> indices = [\<lparr>offset = 0, count = 3\<rparr>], properties = Some (),
           gsize = 2, galtitude = empty_altitude \<rparr>,
         \<lparr> indices = [\<lparr>offset = 3, count = 3\<rparr>], properties = Some (),
           gsize = 2, galtitude = empty_altitude \<rparr>],
      vertices =
        [Some 0, Some 0, Some 1, Some 0, Some 2, Some 0, Some 0, Some 1,
         Some 1, Some 1, Some 2, Some 1],
      crs = ''EPSG:4326'', fsize = 2, normals = None, pos = 12,
      altitude = empty_altitude \<rparr>"

definition example_empty_part_json :: "(geojson \<times> unit) list" where
  "example_empty_part_json =
     [(MultiLineString [[], [pt 0 0 0, pt 1 0 0, pt 2 0 0], [pt 0 1 0, pt 1 1 0, pt 2 1 0]], ())]"

definition example_empty_part :: "unit Feature" where
  "example_empty_part =
    \<lparr> ftype = LINE,
      geometries =
        [\<lparr> indices = [\<lparr>offset = 0, count = 0\<rparr>], properties = Some (),
           gsize = 3, galtitude = empty_altitude \<rparr>,
         \<lparr> indices = [\<lparr>offset = 0, count = 3\<rparr>], properties = Some (),
           gsize = 3, galtitude = \<lparr>amin = Finite 0, amax = Finite 0\<rparr> \<rparr>,
         \<lparr> indices = [\<lparr>offset = 3, count = 3\<rparr>], properties = Some (),
           gsize = 3, galtitude = \<lparr>amin = Finite 0, amax = Finite 0\<rparr> \<rparr>],
      vertices =
        [Some 0, Some 0, Some 0, Some 1, Some 0, Some 0, Some 2, Some 0,
         Some 0, Some 0, Some 1, Some 0, Some 1, Some 1, Some 0, Some 2,
         Some 1, Some 0],
      crs = ''EPSG:4326'', fsize = 3,
      normals =
        Some [Some 0, Some 0, Some 1, Some 0, Some 0, Some 1, Some 0, Some 0,
              Some 1, Some 0, Some 0, Some 1, Some 0, Some 0, Some 1, Some 0,
              Some 0, Some 1],
      pos = 18, altitude = \<lparr>amin = Finite 0, amax = Finite 0\<rparr> \<rparr>"

text \<open>A style whose \<^verbatim>\<open>drawingStylefromContext\<close> returns nothing.\<close>

definition example_env_no_style :: "(unit, unit) collaborators" where
  "example_env_no_style = example_env \<lparr> drawingStylefromContext := (\<lambda>g zoom. None) \<rparr>"

section \<open>Feature2Mesh: polygons\<close>

text \<open>
  \<^verbatim>\<open>indices.length += triangles.length\<close> followed by the assignments
  \<^verbatim>\<open>indices[startIndice + i] = triangles[i] + start\<close>.
\<close>

fun assign_triangles :: "rat js_array \<Rightarrow> nat \<Rightarrow> nat list \<Rightarrow> rat \<Rightarrow> rat js_array" where
  "assign_triangles ixs k [] start = ixs"
| "assign_triangles ixs k (t # ts) start =
     assign_triangles (js_write ixs k (of_nat t + start)) (k + 1) ts start"

definition add_triangles :: "rat js_array \<Rightarrow> nat list \<Rightarrow> rat \<Rightarrow> rat js_array" where
  "add_triangles ixs triangles start =
     assign_triangles (set_length ixs (length ixs + length triangles)) (length ixs) triangles start"

text \<open>
  \<^verbatim>\<open>geometry.indices.map(i => i.offset - start).slice(1)\<close> and the end of the last
  range, \<^verbatim>\<open>lastIndice.offset + lastIndice.count\<close>.
\<close>

definition holesOffsets :: "SubGeometryIndex list \<Rightarrow> int \<Rightarrow> rat list" where
  "holesOffsets ixs start = tl (map (\<lambda>i. of_int (offset i - start)) ixs)"

definition range_end :: "SubGeometryIndex list \<Rightarrow> int" where
  "range_end ixs = offset (last ixs) + int (count (last ixs))"

definition polygon_warning :: string where
  "polygon_warning = ''Feature to Polygon: integer overflow, too many points in polygons''"

record polygon_state =
  pg_colors :: "8 word list"
  pg_indices :: "rat js_array"
  pg_batchIds :: "32 word list option"
  pg_featureId :: nat
  pg_warnings :: "string list"

text \<open>The loop of \<^verbatim>\<open>featureToPolygon\<close> over the geometries.\<close>

fun featureToPolygon_geometries ::
  "('p, 'c) collaborators \<Rightarrow> 'p convert_options \<Rightarrow> number \<Rightarrow> number list \<Rightarrow>
   'p FeatureGeometry list \<Rightarrow> polygon_state \<Rightarrow> error + polygon_state" where
  "featureToPolygon_geometries env options zoom verts [] st = Inr st"
| "featureToPolygon_geometries env options zoom verts (geometry # rest) st =
     (case indices geometry of
        [] \<Rightarrow> Inl TypeError
      | first # others \<Rightarrow>
          (let start = offset first
           in if start > 65535 then
                Inr (st \<lparr> pg_warnings := pg_warnings st @ [polygon_warning] \<rparr>)
              else
                (case drawingStylefromContext env geometry zoom of
                   None \<Rightarrow> Inl TypeError
                 | Some contextStyle \<Rightarrow>
                     (let color = Color env (case fill contextStyle of None \<Rightarrow> None | Some c \<Rightarrow> c);
                          stop = range_end (indices geometry);
                          cnt = stop - start;
                          colors = fillColorArray (pg_colors st) (of_int cnt) color (of_int start);
                          geomVertices = ta_slice verts (of_int (start * 3)) (of_int (stop * 3));
                          triangles = Earcut env geomVertices
                                        (holesOffsets (indices geometry) start) 3;
                          ixs = add_triangles (pg_indices st) triangles (of_int start);
                          st1 = st \<lparr> pg_colors := colors, pg_indices := ixs \<rparr>;
                          st2 = (case (pg_batchIds st, batchId options) of
                                   (Some batchIds, Some f) \<Rightarrow>
                                     st1 \<lparr> pg_batchIds :=
                                             Some (fillBatchIdArray
                                                     (f (properties geometry) (pg_featureId st))
                                                     batchIds (of_int start) (of_int stop)),
                                           pg_featureId := pg_featureId st + 1 \<rparr>
                                 | _ \<Rightarrow> st1)
                      in featureToPolygon_geometries env options zoom verts rest st2))))"

text \<open>\<^verbatim>\<open>featureToPolygon(feature, options, context)\<close>: the mesh and the warnings.\<close>

definition featureToPolygon ::
  "('p, 'c) collaborators \<Rightarrow> 'p Feature \<Rightarrow> 'p convert_options \<Rightarrow> number \<Rightarrow>
   error + (object3d \<times> string list)" where
  "featureToPolygon env feature options zoom =
     (let ptsIn = vertices feature;
          verts = Float32Array_from ptsIn;
          colors = replicate (length ptsIn) 0
      in case new_batchIds options (of_nat (length verts) / 3) of
           Inl e \<Rightarrow> Inl e
         | Inr batchIds \<Rightarrow>
             (case featureToPolygon_geometries env options zoom verts (geometries feature)
                     \<lparr> pg_colors = colors, pg_indices = [], pg_batchIds = batchIds,
                       pg_featureId = 0, pg_warnings = [] \<rparr> of
                Inl e \<Rightarrow> Inl e
              | Inr st \<Rightarrow>
                  Inr (Mesh \<lparr> position = verts, color_attr = Some (pg_colors st),
                              batchId_attr = pg_batchIds st,
                              index_attr = Some (Uint16Array_from (pg_indices st)) \<rparr>,
                       pg_warnings st)))"

section \<open>Feature2Mesh: extruded polygons\<close>

text \<open>
  The side faces of all the rings of one geometry:
  \<^verbatim>\<open>for (const indice of geometry.indices) addExtrudedPolygonSideFaces(...)\<close>.
\<close>

fun side_faces_of_rings ::
  "rat js_array \<Rightarrow> rat \<Rightarrow> SubGeometryIndex list \<Rightarrow> bool \<Rightarrow> error + rat js_array" where
  "side_faces_of_rings ixs totalVertices [] isClockWise = Inr ixs"
| "side_faces_of_rings ixs totalVertices (indice # rest) isClockWise =
     (case addExtrudedPolygonSideFaces ixs totalVertices (offset indice) (count indice) isClockWise of
        Inl e \<Rightarrow> Inl e
      | Inr ixs' \<Rightarrow> side_faces_of_rings ixs' totalVertices rest isClockWise)"

text \<open>
  The module keeps one \<^verbatim>\<open>THREE.Color\<close> as scratch, \<^verbatim>\<open>color\<close>: each geometry copies
  its top colour into it and halves it.  The state of the loop carries the scratch
  colour; the converters take its value before the call and return its value after.
\<close>

record extrusion_state =
  ex_vertices :: "number list"
  ex_colors :: "8 word list"
  ex_indices :: "rat js_array"
  ex_batchIds :: "32 word list option"
  ex_featureId :: nat
  ex_scratch :: rgb

definition multiplyScalar :: "rgb \<Rightarrow> number \<Rightarrow> rgb" where
  "multiplyScalar c s =
     \<lparr> red = num_mul (red c) s, green = num_mul (green c) s, blue = num_mul (blue c) s \<rparr>"

fun featureToExtrudedPolygon_geometries ::
  "('p, 'c) collaborators \<Rightarrow> 'p convert_options \<Rightarrow> real js_array \<Rightarrow> real js_array option \<Rightarrow>
   rat \<Rightarrow> number \<Rightarrow> bool \<Rightarrow> 'p FeatureGeometry list \<Rightarrow> extrusion_state \<Rightarrow>
   error + extrusion_state" where
  "featureToExtrudedPolygon_geometries env options ptsIn nrm totalVertices delta isClockWise [] st =
     Inr st"
| "featureToExtrudedPolygon_geometries env options ptsIn nrm totalVertices delta isClockWise
     (geometry # rest) st =
     (case (extrusion_height env, fill_color env) of
        (ExtrusionFunction height, Some colour) \<Rightarrow>
          (let extrude = height (properties geometry);
               colorTop = colour (properties geometry);
               color = multiplyScalar colorTop (Some (1 / 2))
           in case indices geometry of
                [] \<Rightarrow> Inl TypeError
              | first # others \<Rightarrow>
                  (let start = offset first;
                       stop = range_end (indices geometry);
                       cnt = stop - start
                   in case coordinatesToVertices ptsIn nrm (ex_vertices st) delta (Some 0)
                             (of_int start) (of_int cnt) (of_int start) of
                        Inl e \<Rightarrow> Inl e
                      | Inr v1 \<Rightarrow>
                          (let colors1 = fillColorArray (ex_colors st) (of_int cnt) color (of_int start);
                               startTop = of_int start + totalVertices;
                               endTop = of_int stop + totalVertices
                           in case coordinatesToVertices ptsIn nrm v1 delta extrude
                                     startTop (of_int cnt) (of_int start) of
                                Inl e \<Rightarrow> Inl e
                              | Inr v2 \<Rightarrow>
                                  (let colors2 = fillColorArray colors1 (of_int cnt) colorTop startTop;
                                       geomVertices = ta_slice v2 (startTop * 3) (endTop * 3);
                                       triangles = Earcut env geomVertices
                                                     (holesOffsets (indices geometry) start) 3;
                                       ixs = add_triangles (ex_indices st) triangles startTop
                                   in case side_faces_of_rings ixs totalVertices (indices geometry)
                                             isClockWise of
                                        Inl e \<Rightarrow> Inl e
                                      | Inr ixs' \<Rightarrow>
                                          (let st1 = st \<lparr> ex_vertices := v2, ex_colors := colors2,
                                                           ex_indices := ixs', ex_scratch := color \<rparr>;
                                               st2 = (case (ex_batchIds st, batchId options) of
                                                        (Some batchIds, Some f) \<Rightarrow>
                                                          st1 \<lparr> ex_batchIds :=
                                                            Some (fillBatchIdArray
                                                                   (f (properties geometry) (ex_featureId st))
                                                                   (fillBatchIdArray
                                                                      (f (properties geometry) (ex_featureId st))
                                                                      batchIds (of_int start) (of_int stop))
                                                                   startTop endTop),
                                                            ex_featureId := ex_featureId st + 1 \<rparr>
                                                      | _ \<Rightarrow> st1)
                                           in featureToExtrudedPolygon_geometries env options ptsIn nrm
                                                totalVertices delta isClockWise rest st2)))))
      | _ \<Rightarrow> Inl TypeError)"

text \<open>
  \<^verbatim>\<open>featureToExtrudedPolygon(feature, options)\<close>: the mesh and the scratch colour
  after the call.
\<close>

definition featureToExtrudedPolygon ::
  "('p, 'c) collaborators \<Rightarrow> rgb \<Rightarrow> 'p Feature \<Rightarrow> 'p convert_options \<Rightarrow> error + (object3d \<times> rgb)" where
  "featureToExtrudedPolygon env scratch feature options =
     (let ptsIn = vertices feature
      in case geometries feature of
           [] \<Rightarrow> Inl TypeError
         | geometry0 # others0 \<Rightarrow>
             (case indices geometry0 of
                [] \<Rightarrow> Inl TypeError
              | first # others \<Rightarrow>
                  (let isClockWise = num_less (area ptsIn (of_int (offset first)) (of_nat (count first)))
                                       (Some 0);
                       verts = replicate (length ptsIn * 2) (Some 0);
                       colors = replicate (length ptsIn * 2) 0;
                       totalVertices = of_nat (length ptsIn) / 3
                   in case new_batchIds options (of_nat (length verts) / 3) of
                        Inl e \<Rightarrow> Inl e
                      | Inr batchIds \<Rightarrow>
                          (let delta = (if amin (altitude feature) = Infinity then Some 0
                                        else number_of_ext (amin (altitude feature)))
                           in case featureToExtrudedPolygon_geometries env options ptsIn (normals feature)
                                     totalVertices delta isClockWise (geometries feature)
                                     \<lparr> ex_vertices = verts, ex_colors = colors, ex_indices = [],
                                       ex_batchIds = batchIds, ex_featureId = 0,
                                       ex_scratch = scratch \<rparr> of
                                Inl e \<Rightarrow> Inl e
                              | Inr st \<Rightarrow>
                                  Inr (Mesh \<lparr> position = ex_vertices st,
                                              color_attr = Some (ex_colors st),
                                              batchId_attr = ex_batchIds st,
                                              index_attr = Some (Uint16Array_from (ex_indices st)) \<rparr>,
                                       ex_scratch st)))))"

subsection \<open>What the side-face loop writes\<close>

text \<open>
  The six values that one step of the loop of \<^verbatim>\<open>addExtrudedPolygonSideFaces\<close> writes for
  the vertex \<open>i\<close>, in the order of the writes, and the values of all the steps for one
  ring: a quad of two triangles for every vertex of the ring but the last.
\<close>

definition side_quad :: "rat \<Rightarrow> bool \<Rightarrow> int \<Rightarrow> rat list" where
  "side_quad len isClockWise i =
     (if isClockWise then
        [of_int i, of_int i + len, of_int i + 1, of_int i + 1, of_int i + len, of_int i + len + 1]
      else
        [of_int i + len, of_int i, of_int i + len + 1, of_int i + len + 1, of_int i, of_int i + 1])"

definition side_wall :: "rat \<Rightarrow> bool \<Rightarrow> SubGeometryIndex \<Rightarrow> rat list" where
  "side_wall len isClockWise r =
     concat (map (side_quad len isClockWise) [offset r .. offset r + int (count r) - 2])"

section \<open>Feature2Mesh: the dispatch\<close>

text \<open>
  \<^verbatim>\<open>featureToMesh(feature, options, context)\<close>.  The call of \<^verbatim>\<open>featureToPoint\<close> in
  the \<^verbatim>\<open>POINT\<close> case is commented out in the source, so that case only leaves the
  \<^verbatim>\<open>switch\<close>; an undefined result becomes \<^verbatim>\<open>new THREE.Mesh()\<close>.  \<^verbatim>\<open>feature.vertices\<close>
  is an array for every Feature of this model, so the early return is never taken.  The
  material flags and the back reference \<^verbatim>\<open>mesh.feature\<close> are the same in every case and
  are left out.  The result is the object, the warnings and the scratch colour.
\<close>

definition featureToMesh ::
  "('p, 'c) collaborators \<Rightarrow> rgb \<Rightarrow> 'p Feature \<Rightarrow> 'p convert_options \<Rightarrow> number \<Rightarrow>
   error + (object3d \<times> string list \<times> rgb)" where
  "featureToMesh env scratch feature options zoom =
     (if ftype feature = POINT then Inr (EmptyMesh, [], scratch)
      else if ftype feature = LINE then
        (case featureToLine env feature options zoom of
           Inl e \<Rightarrow> Inl e
         | Inr (None, ws) \<Rightarrow> Inr (EmptyMesh, ws, scratch)
         | Inr (Some mesh, ws) \<Rightarrow> Inr (mesh, ws, scratch))
      else if ftype feature = POLYGON then
        (if extrusion_height env \<noteq> NoExtrusion then
           (case featureToExtrudedPolygon env scratch feature options of
              Inl e \<Rightarrow> Inl e
            | Inr (mesh, scratch') \<Rightarrow> Inr (mesh, [], scratch'))
         else
           (case featureToPolygon env feature options zoom of
              Inl e \<Rightarrow> Inl e
            | Inr (mesh, ws) \<Rightarrow> Inr (mesh, ws, scratch)))
      else Inr (EmptyMesh, [], scratch))"



section \<open>The pipeline: population, then conversion\<close>



text \<open>
  What a run finds and does not get as an argument: the results of the calls of
  \<^verbatim>\<open>Math.random()\<close>, in their order, and the value that an earlier run left in the
  scratch colour of the module.
\<close>

record ambient =
  am_randoms :: "nat \<Rightarrow> real"
  am_scratch :: rgb




subsection \<open>Example features for the dispatch\<close>

definition example_point3d :: "unit Feature" where
  "example_point3d = \<lparr> ftype = POINT, geometries = [], vertices = [], crs = ''EPSG:4326'',
              fsize = 3, normals = Some [], pos = 0, altitude = empty_altitude \<rparr>"

definition example_point_json :: "(geojson \<times> unit) list" where
  "example_point_json = [(Point (pt 1 2 3), ())]"

definition example_point :: "unit Feature" where
  "example_point =
    \<lparr> ftype = POINT,
      geometries =
        [\<lparr> indices = [\<lparr>offset = 0, count = 1\<rparr>], properties = Some (),
           gsize = 3, galtitude = \<lparr>amin = Finite 3, amax = Finite 3\<rparr> \<rparr>],
      vertices = [Some 1, Some 2, Some 3],
      crs = ''EPSG:4326'', fsize = 3,
      normals = Some [Some 0, Some 0, Some 1],
      pos = 3, altitude = \<lparr>amin = Finite 3, amax = Finite 3\<rparr> \<rparr>"

definition example_polygon3d :: "unit Feature" where
  "example_polygon3d = \<lparr> ftype = POLYGON, geometries = [], vertices = [], crs = ''EPSG:4326'',
              fsize = 3, normals = Some [], pos = 0, altitude = empty_altitude \<rparr>"

text \<open>The unit square: a ring of five positions, the last one closing it.\<close>

definition example_square_json :: "(geojson \<times> unit) list" where
  "example_square_json =
     [(Polygon [[pt 0 0 0, pt 1 0 0, pt 1 1 0, pt 0 1 0, pt 0 0 0]], ())]"

definition example_square :: "unit Feature" where
  "example_square =
    \<lparr> ftype = POLYGON,
      geometries =
        [\<lparr> indices = [\<lparr>offset = 0, count = 5\<rparr>], properties = Some (),
           gsize = 3, galtitude = \<lparr>amin = Finite 0, amax = Finite 0\<rparr> \<rparr>],
      vertices =
        [Some 0, Some 0, Some 0, Some 1, Some 0, Some 0, Some 1, Some 1,
         Some 0, Some 0, Some 1, Some 0, Some 0, Some 0, Some 0],
      crs = ''EPSG:4326'', fsize = 3,
      normals =
        Some [Some 0, Some 0, Some 1, Some 0, Some 0, Some 1, Some 0, Some 0,
              Some 1, Some 0, Some 0, Some 1, Some 0, Some 0, Some 1],
      pos = 15, altitude = \<lparr>amin = Finite 0, amax = Finite 0\<rparr> \<rparr>"

text \<open>
  A style with an extrusion height of 10 and a fill colour, and a triangulation that
  cuts a square in two triangles.
\<close>

definition example_extrusion_env :: "(unit, unit) collaborators" where
  "example_extrusion_env =
     example_env
       \<lparr> extrusion_height := ExtrusionFunction (\<lambda>props. Some 10),
         fill_color := Some (\<lambda>props. \<lparr> red = Some 1, green = Some (1 / 2), blue = Some 0 \<rparr>),
         Earcut := (\<lambda>data holes dim. [3, 0, 1, 1, 2, 3]) \<rparr>"

definition example_flat_env :: "(unit, unit) collaborators" where
  "example_flat_env = example_env \<lparr> Earcut := (\<lambda>data holes dim. [3, 0, 1, 1, 2, 3]) \<rparr>"

definition black :: rgb where
  "black = \<lparr> red = Some 0, green = Some 0, blue = Some 0 \<rparr>"

subsection \<open>Polygon features as the parser makes them\<close>

text \<open>
  The unit square read into a Feature of a 2d collection; the unit square with an empty
  second ring; a multi-polygon of the unit square and a polygon without rings.
\<close>

definition example_polygon2d :: "unit Feature" where
  "example_polygon2d = \<lparr> ftype = POLYGON, geometries = [], vertices = [], crs = ''EPSG:4326'',
              fsize = 2, normals = None, pos = 0, altitude = empty_altitude \<rparr>"

definition example_square_2d :: "unit Feature" where
  "example_square_2d =
    \<lparr> ftype = POLYGON,
      geometries =
        [\<lparr> indices = [\<lparr>offset = 0, count = 5\<rparr>], properties = Some (),
           gsize = 2, galtitude = empty_altitude \<rparr>],
      vertices =
        [Some 0, Some 0, Some 1, Some 0, Some 1, Some 1, Some 0, Some 1, Some 0, Some 0],
      crs = ''EPSG:4326'', fsize = 2, normals = None, pos = 10,
      altitude = empty_altitude \<rparr>"

definition example_empty_ring_json :: "(geojson \<times> unit) list" where
  "example_empty_ring_json =
     [(Polygon [[pt 0 0 0, pt 1 0 0, pt 1 1 0, pt 0 1 0, pt 0 0 0], []], ())]"

definition example_empty_ring :: "unit Feature" where
  "example_empty_ring =
     example_square \<lparr> geometries :=
       [\<lparr> indices = [\<lparr>offset = 0, count = 5\<rparr>, \<lparr>offset = 5, count = 0\<rparr>], properties = Some (),
          gsize = 3, galtitude = \<lparr>amin = Finite 0, amax = Finite 0\<rparr> \<rparr>] \<rparr>"

definition example_no_ring_json :: "(geojson \<times> unit) list" where
  "example_no_ring_json =
     [(MultiPolygon [[[pt 0 0 0, pt 1 0 0, pt 1 1 0, pt 0 1 0, pt 0 0 0]], []], ())]"

definition example_no_ring :: "unit Feature" where
  "example_no_ring =
     example_square \<lparr> geometries :=
       [\<lparr> indices = [\<lparr>offset = 0, count = 5\<rparr>], properties = Some (),
          gsize = 3, galtitude = \<lparr>amin = Finite 0, amax = Finite 0\<rparr> \<rparr>,
        \<lparr> indices = [], properties = Some (), gsize = 3, galtitude = empty_altitude \<rparr>] \<rparr>"

section \<open>Properties of the feature model\<close>


lemma contiguous_snoc:
  "contiguous xs \<Longrightarrow> xs \<noteq> [] \<Longrightarrow> offset (last xs) + int (count (last xs)) = offset e
   \<Longrightarrow> contiguous (xs @ [e])"
  by (induction xs rule: contiguous.induct) auto

lemma contiguous_start:
  "contiguous (indices this) \<Longrightarrow>
   contiguous (indices this @ [\<lparr> offset = next_offset this feature, count = n \<rparr>])"
  by (cases "indices this = []") (auto simp: next_offset_def intro: contiguous_snoc)

lemma geometries_extendBuffer [simp]: "geometries (extendBuffer f n) = geometries f"
  by (simp add: extendBuffer_def Let_def)

lemma list_all_update:
  "list_all P xs \<Longrightarrow> P y \<Longrightarrow> list_all P (xs[i := y])"
  by (induction xs arbitrary: i) (auto split: nat.splits)

lemma contiguous_startSubGeometry:
  assumes "list_all (\<lambda>g. contiguous (indices g)) (geometries f)" "g < length (geometries f)"
  shows "list_all (\<lambda>g. contiguous (indices g)) (geometries (startSubGeometry g n f))"
proof -
  have "contiguous (indices (geometries f ! g))"
    using assms by (simp add: list_all_length)
  then show ?thesis
    using assms(1) by (simp add: startSubGeometry_def Let_def list_all_update contiguous_start)
qed

lemma contiguous_closeSubGeometry:
  assumes "list_all (\<lambda>g. contiguous (indices g)) (geometries f)" "g < length (geometries f)"
  shows "list_all (\<lambda>g. contiguous (indices g)) (geometries (closeSubGeometry g n f))"
proof -
  have c: "contiguous (indices (geometries f ! g))"
    using assms by (simp add: list_all_length)
  show ?thesis
  proof (cases "indices (geometries f ! g) = []")
    case True
    then show ?thesis using assms(1) by (simp add: closeSubGeometry_def Let_def list_all_update)
  next
    case False
    then show ?thesis using assms(1) c
      by (simp add: closeSubGeometry_def Let_def list_all_update contiguous_snoc)
  qed
qed

lemma indices_expand_altitude [simp]: "indices (expand_altitude z this) = indices this"
  by (simp add: expand_altitude_def)

lemma geometries_pushValues [simp]: "geometries (pushValues x y z f) = geometries f"
  by (simp add: pushValues_def push2DValues_def push3DValues_def)

lemma geometries_write_normal [simp]: "geometries (write_normal n f) = geometries f"
  by (simp add: write_normal_def split: option.splits prod.splits)

lemma contiguous_push_values:
  assumes "list_all (\<lambda>g. contiguous (indices g)) (geometries f)" "g < length (geometries f)"
  shows "list_all (\<lambda>g. contiguous (indices g)) (geometries (pushCoordinatesValues g x y z n f))"
    and "list_all (\<lambda>g. contiguous (indices g)) (geometries (pushCoordinates g c f))"
proof -
  have c: "contiguous (indices (geometries f ! g))"
    using assms by (simp add: list_all_length)
  show "list_all (\<lambda>g. contiguous (indices g)) (geometries (pushCoordinatesValues g x y z n f))"
    using assms(1) c by (simp add: pushCoordinatesValues_def Let_def list_all_update)
  show "list_all (\<lambda>g. contiguous (indices g)) (geometries (pushCoordinates g c f))"
    using assms(1) c by (simp add: pushCoordinates_def Let_def list_all_update split: prod.splits)
qed

lemma geometries_updateExtent [simp]: "geometries (updateExtent g f) = geometries f"
  by (simp add: updateExtent_def)

lemma contiguous_do_call:
  "list_all (\<lambda>g. contiguous (indices g)) (geometries f) \<Longrightarrow>
   list_all (\<lambda>g. contiguous (indices g)) (geometries (do_call c f))"
  by (cases c)
     (auto simp: bindNewGeometry_def new_FeatureGeometry_def contiguous_startSubGeometry
        contiguous_closeSubGeometry contiguous_push_values)

lemma contiguous_run:
  "list_all (\<lambda>g. contiguous (indices g)) (geometries f) \<Longrightarrow>
   list_all (\<lambda>g. contiguous (indices g)) (geometries (run cs f))"
  by (induction cs arbitrary: f) (auto simp: contiguous_do_call)





lemma length_set_length [simp]: "length (set_length a n) = n"
  by (simp add: set_length_def)

lemma length_js_write [simp]: "length (js_write a i v) = max (length a) (Suc i)"
  by (simp add: js_write_def)

lemma map_update_same:
  "g < length xs \<Longrightarrow> h x = h (xs ! g) \<Longrightarrow> map h (xs[g := x]) = map h xs"
  by (simp add: map_update list_update_same_conv)

lemma sum_counts_update_same:
  "g < length (geometries f) \<Longrightarrow> indices x = indices (geometries f ! g) \<Longrightarrow>
   sum_counts (f\<lparr>geometries := (geometries f)[g := x]\<rparr>) = sum_counts f"
  by (simp add: sum_counts_def map_update_same)

lemma pushValues_fits:
  assumes "pos f + push_step f \<le> length (vertices f)"
  shows "length (vertices (pushValues x y z f)) = length (vertices f)"
    and "pos (pushValues x y z f) = pos f + push_step f"
    and "normals (pushValues x y z f) = normals f"
    and "fsize (pushValues x y z f) = fsize f"
  using assms
  by (auto simp: pushValues_def push2DValues_def push3DValues_def push_step_def split: if_splits)

lemma write_normal_fields [simp]:
  "vertices (write_normal n f) = vertices f"
  "pos (write_normal n f) = pos f"
  "fsize (write_normal n f) = fsize f"
  by (simp_all add: write_normal_def split: option.splits prod.splits)

lemma write_normal_normals:
  "normals (write_normal n f) =
     (case normals f of None \<Rightarrow> None
      | Some ns \<Rightarrow> Some (js_write (js_write (js_write ns (pos f) (fst n)) (pos f + 1) (fst (snd n)))
                         (pos f + 2) (snd (snd n))))"
  by (simp add: write_normal_def split: option.splits prod.splits)

lemma sum_counts_geometries_cong:
  "geometries f' = geometries f \<Longrightarrow> sum_counts f' = sum_counts f"
  by (simp add: sum_counts_def)

text \<open>One pushed coordinate that lands in reserved slots.\<close>

lemma pushCoordinates_fits:
  assumes ok: "buffers_ok f" and fit: "pos f + push_step f \<le> length (vertices f)"
    and g: "g < length (geometries f)"
  shows "buffers_ok (pushCoordinates g c f)"
    and "length (vertices (pushCoordinates g c f)) = length (vertices f)"
    and "pos (pushCoordinates g c f) = pos f + push_step f"
    and "fsize (pushCoordinates g c f) = fsize f"
    and "length (geometries (pushCoordinates g c f)) = length (geometries f)"
proof -
  obtain x y z where o: "out c = (x, y, z)" by (cases "out c") auto
  define f1 where "f1 = pushValues x y z (write_normal (geodesicNormal c) f)"
  have fit1: "pos (write_normal (geodesicNormal c) f) + push_step (write_normal (geodesicNormal c) f)
                \<le> length (vertices (write_normal (geodesicNormal c) f))"
    using fit by (simp add: push_step_def)
  note pv = pushValues_fits [OF fit1, of x y z, folded f1_def]
  have geo: "geometries f1 = geometries f" by (simp add: f1_def)
  have eq: "pushCoordinates g c f =
      f1\<lparr>geometries := (geometries f1)[g := expand_altitude (z_in c) (geometries f1 ! g)]\<rparr>"
    by (simp add: pushCoordinates_def o f1_def Let_def)
  have "sum_counts (pushCoordinates g c f) = sum_counts f1"
    unfolding eq by (rule sum_counts_update_same) (use g geo in simp_all)
  then have sc: "sum_counts (pushCoordinates g c f) = sum_counts f"
    using geo by (simp add: sum_counts_geometries_cong [of f1 f])
  show "length (vertices (pushCoordinates g c f)) = length (vertices f)"
    unfolding eq using pv by simp
  show "pos (pushCoordinates g c f) = pos f + push_step f"
    unfolding eq using pv by (simp add: push_step_def)
  show "fsize (pushCoordinates g c f) = fsize f"
    unfolding eq using pv by simp
  show "length (geometries (pushCoordinates g c f)) = length (geometries f)"
    unfolding eq using geo by simp
  have nrm: "normals (pushCoordinates g c f) = normals (write_normal (geodesicNormal c) f)"
    unfolding eq using pv by simp
  have vl: "length (vertices (pushCoordinates g c f)) = length (vertices f)"
    unfolding eq using pv by simp
  have fs: "fsize (pushCoordinates g c f) = fsize f"
    unfolding eq using pv by simp
  show "buffers_ok (pushCoordinates g c f)"
    using ok fit unfolding buffers_ok_def sc nrm vl fs write_normal_normals
    apply (cases "normals f")
    apply (simp_all add: push_step_def split: if_splits)
    done
qed



lemma sum_list_update_add:
  fixes xs :: "nat list"
  shows "g < length xs \<Longrightarrow> v = xs ! g + n \<Longrightarrow> sum_list (xs[g := v]) = sum_list xs + n"
  by (induction xs arbitrary: g) (auto split: nat.splits)

lemma extendBuffer_fields [simp]:
  "length (vertices (extendBuffer f n)) = length (vertices f) + n * fsize f"
  "pos (extendBuffer f n) = pos f"
  "fsize (extendBuffer f n) = fsize f"
  "normals (extendBuffer f n) =
     (case normals f of None \<Rightarrow> None
      | Some ns \<Rightarrow> Some (set_length ns (length (vertices f) + n * fsize f)))"
  by (simp_all add: extendBuffer_def Let_def split: option.splits)

lemma sum_counts_startSubGeometry:
  assumes "g < length (geometries f)"
  shows "sum_counts (startSubGeometry g n f) = sum_counts f + n"
proof -
  let ?h = "\<lambda>g. sum_list (map count (indices g))"
  have "map ?h (geometries (startSubGeometry g n f)) =
        (map ?h (geometries f))[g := map ?h (geometries f) ! g + n]"
    using assms by (simp add: startSubGeometry_def Let_def map_update)
  moreover have "sum_list ((map ?h (geometries f))[g := map ?h (geometries f) ! g + n]) =
      sum_list (map ?h (geometries f)) + n"
    by (rule sum_list_update_add) (use assms in simp_all)
  ultimately show ?thesis
    by (simp add: sum_counts_def)
qed

lemma startSubGeometry_fields [simp]:
  "length (vertices (startSubGeometry g n f)) = length (vertices f) + n * fsize f"
  "pos (startSubGeometry g n f) = pos f"
  "fsize (startSubGeometry g n f) = fsize f"
  "length (geometries (startSubGeometry g n f)) = length (geometries f)"
  "normals (startSubGeometry g n f) =
     (case normals f of None \<Rightarrow> None
      | Some ns \<Rightarrow> Some (set_length ns (length (vertices f) + n * fsize f)))"
  by (simp_all add: startSubGeometry_def Let_def split: option.splits)

lemma buffers_ok_startSubGeometry:
  assumes "buffers_ok f" "g < length (geometries f)"
  shows "buffers_ok (startSubGeometry g n f)"
  using assms
  by (cases "normals f")
     (simp_all add: buffers_ok_def sum_counts_startSubGeometry algebra_simps)

lemma fold_pushCoordinates_fits:
  assumes "buffers_ok f" "2 \<le> fsize f" "pos f + length cs * fsize f \<le> length (vertices f)"
    "g < length (geometries f)"
  shows "buffers_ok (fold (pushCoordinates g) cs f) \<and>
         length (vertices (fold (pushCoordinates g) cs f)) = length (vertices f) \<and>
         pos (fold (pushCoordinates g) cs f) \<le> length (vertices f) \<and>
         fsize (fold (pushCoordinates g) cs f) = fsize f \<and>
         length (geometries (fold (pushCoordinates g) cs f)) = length (geometries f)"
  using assms
proof (induction cs arbitrary: f)
  case Nil
  then show ?case by simp
next
  case (Cons c cs)
  have st: "push_step f \<le> fsize f" using Cons.prems(2) by (simp add: push_step_def)
  have "pos f + fsize f \<le> length (vertices f)"
    using Cons.prems(3) by simp
  then have fit: "pos f + push_step f \<le> length (vertices f)"
    using st by linarith
  note pc = pushCoordinates_fits [OF Cons.prems(1) fit Cons.prems(4), where c = c]
  have "pos (pushCoordinates g c f) + length cs * fsize (pushCoordinates g c f)
          \<le> length (vertices (pushCoordinates g c f))"
    using pc(2,3,4) Cons.prems(3) st by simp
  from Cons.IH [OF pc(1) _ this] pc Cons.prems show ?case by simp
qed

lemma population_inv_populateGeometry:
  assumes "population_inv f" "g < length (geometries f)"
  shows "population_inv (populateGeometry cs g f)"
    and "length (geometries (populateGeometry cs g f)) = length (geometries f)"
proof -
  let ?f1 = "startSubGeometry g (length cs) f"
  have 1: "buffers_ok ?f1" using assms by (simp add: population_inv_def buffers_ok_startSubGeometry)
  have 2: "2 \<le> fsize ?f1" using assms by (simp add: population_inv_def)
  have 3: "pos ?f1 + length cs * fsize ?f1 \<le> length (vertices ?f1)"
    using assms by (simp add: population_inv_def)
  have 4: "g < length (geometries ?f1)" using assms by simp
  from fold_pushCoordinates_fits [OF 1 2 3 4]
  show "population_inv (populateGeometry cs g f)"
    and "length (geometries (populateGeometry cs g f)) = length (geometries f)"
    using 2 by (simp_all add: population_inv_def populateGeometry_def)
qed

lemma buffers_ok_cong:
  "vertices f' = vertices f \<Longrightarrow> normals f' = normals f \<Longrightarrow> fsize f' = fsize f \<Longrightarrow>
   sum_counts f' = sum_counts f \<Longrightarrow> buffers_ok f' = buffers_ok f"
  by (simp add: buffers_ok_def split: option.splits)

lemma population_inv_cong:
  "vertices f' = vertices f \<Longrightarrow> normals f' = normals f \<Longrightarrow> fsize f' = fsize f \<Longrightarrow>
   sum_counts f' = sum_counts f \<Longrightarrow> pos f' = pos f \<Longrightarrow> population_inv f' = population_inv f"
  by (simp add: population_inv_def buffers_ok_cong [of f' f])

lemma population_inv_bindNewGeometry: "population_inv f \<Longrightarrow> population_inv (bindNewGeometry f)"
  by (simp add: population_inv_def buffers_ok_def sum_counts_def bindNewGeometry_def new_FeatureGeometry_def
      split: option.splits)

lemma population_inv_set_properties:
  "population_inv f \<Longrightarrow> g < length (geometries f) \<Longrightarrow> population_inv (set_properties g p f)"
  unfolding population_inv_def buffers_ok_def set_properties_def
  by (simp add: sum_counts_update_same split: option.splits)

lemma population_inv_updateExtent: "population_inv f \<Longrightarrow> population_inv (updateExtent g f)"
  by (subst population_inv_cong [of _ f]) (simp_all add: updateExtent_def sum_counts_def)

lemma population_inv_toFeature_default:
  assumes "population_inv f" "toFeature_default fe cs p f = Inr f'"
  shows "population_inv f'"
proof (cases "firstPtIsOut fe cs")
  case (Inl e)
  then show ?thesis using assms by (simp add: toFeature_default_def)
next
  case (Inr b)
  show ?thesis
  proof (cases b)
    case True
    then show ?thesis using assms Inr by (simp add: toFeature_default_def)
  next
    case False
    let ?f1 = "bindNewGeometry f"
    let ?g = "length (geometries ?f1) - 1"
    have g: "?g < length (geometries ?f1)" by (simp add: bindNewGeometry_def)
    have "population_inv (set_properties ?g p ?f1)"
      using assms(1) g by (simp add: population_inv_bindNewGeometry population_inv_set_properties)
    moreover have "?g < length (geometries (set_properties ?g p ?f1))"
      by (simp add: set_properties_def bindNewGeometry_def)
    ultimately have "population_inv (populateGeometry cs ?g (set_properties ?g p ?f1))"
      by (rule population_inv_populateGeometry)
    then show ?thesis
      using assms(2) Inr False by (auto simp: toFeature_default_def Let_def population_inv_updateExtent)
  qed
qed

lemma population_inv_fold_populate:
  assumes "population_inv f" "g < length (geometries f)"
  shows "population_inv (fold (\<lambda>ring f. populateGeometry ring g f) rings f) \<and>
         length (geometries (fold (\<lambda>ring f. populateGeometry ring g f) rings f)) = length (geometries f)"
  using assms
  by (induction rings arbitrary: f) (simp_all add: population_inv_populateGeometry)

lemma population_inv_toFeature_polygon:
  assumes "population_inv f" "toFeature_polygon fe rs p f = Inr f'"
  shows "population_inv f'"
proof -
  let ?f1 = "bindNewGeometry f"
  let ?g = "length (geometries ?f1) - 1"
  have g: "?g < length (geometries ?f1)" by (simp add: bindNewGeometry_def)
  have "population_inv (set_properties ?g p ?f1)"
    using assms(1) g by (simp add: population_inv_bindNewGeometry population_inv_set_properties)
  moreover have "?g < length (geometries (set_properties ?g p ?f1))"
    by (simp add: set_properties_def bindNewGeometry_def)
  ultimately have "population_inv (fold (\<lambda>ring f. populateGeometry ring ?g f) rs (set_properties ?g p ?f1))"
    using population_inv_fold_populate by blast
  then have "population_inv (updateExtent ?g (fold (\<lambda>ring f. populateGeometry ring ?g f) rs (set_properties ?g p ?f1)))"
    by (rule population_inv_updateExtent)
  then show ?thesis
    using assms
    by (auto simp: toFeature_polygon_def Let_def split: sum.splits bool.splits option.splits list.splits if_splits)
qed

lemma population_inv_toFeature_multi:
  assumes "\<And>c f f'. population_inv f \<Longrightarrow> part c f = Inr f' \<Longrightarrow> population_inv f'"
  shows "population_inv f \<Longrightarrow> toFeature_multi part cs f = Inr f' \<Longrightarrow> population_inv f'"
  by (induction cs arbitrary: f) (auto split: sum.splits dest: assms)

lemma population_inv_multi_default:
  "population_inv f \<Longrightarrow> toFeature_multi (\<lambda>l. toFeature_default fe l p) ls f = Inr f' \<Longrightarrow> population_inv f'"
  by (rule population_inv_toFeature_multi [where part = "\<lambda>l. toFeature_default fe l p"])
     (auto dest: population_inv_toFeature_default)

lemma population_inv_multi_point:
  "population_inv f \<Longrightarrow> toFeature_multi (\<lambda>c. toFeature_point fe c p) cs f = Inr f' \<Longrightarrow> population_inv f'"
  by (rule population_inv_toFeature_multi [where part = "\<lambda>c. toFeature_point fe c p"])
     (auto simp: toFeature_point_def dest: population_inv_toFeature_default)

lemma population_inv_multi_polygon:
  "population_inv f \<Longrightarrow> toFeature_multi (\<lambda>r. toFeature_polygon fe r p) ps f = Inr f' \<Longrightarrow> population_inv f'"
  by (rule population_inv_toFeature_multi [where part = "\<lambda>r. toFeature_polygon fe r p"])
     (auto dest: population_inv_toFeature_polygon)

lemma population_inv_coordinatesToFeature:
  assumes "population_inv f" "coordinatesToFeature fe j p f = Inr f'"
  shows "population_inv f'"
proof (cases j)
  case (Point c)
  then show ?thesis using assms by (auto dest: population_inv_toFeature_default)
next
  case (MultiPoint cs)
  then show ?thesis using assms
    by (cases "cs = []") (auto dest: population_inv_multi_point)
next
  case (LineString cs)
  then show ?thesis using assms by (cases "cs = []") (auto dest: population_inv_toFeature_default)
next
  case (MultiLineString ls)
  then show ?thesis using assms
    by (cases "ls = []") (auto dest: population_inv_multi_default)
next
  case (Polygon rs)
  then show ?thesis using assms by (cases "rs = []") (auto dest: population_inv_toFeature_polygon)
next
  case (MultiPolygon ps)
  then show ?thesis using assms
    by (cases "ps = []") (auto dest: population_inv_multi_polygon)
next
  case GeometryCollection
  then show ?thesis using assms by simp
qed

lemma population_inv_populate:
  "population_inv f \<Longrightarrow> populate fe js f = Inr f' \<Longrightarrow> population_inv f'"
proof (induction js arbitrary: f)
  case Nil
  then show ?case by simp
next
  case (Cons a js)
  obtain j p where a: "a = (j, p)" by (cases a)
  from Cons.prems(2) a obtain f1 where 1: "coordinatesToFeature fe j p f = Inr f1"
    and 2: "populate fe js f1 = Inr f'"
    by (auto split: sum.splits)
  from population_inv_coordinatesToFeature [OF Cons.prems(1) 1] have "population_inv f1" .
  then show ?case using 2 by (rule Cons.IH)
qed

lemma population_inv_new_Feature:
  "new_Feature type (FeatureCollection_view c s) = Inr f \<Longrightarrow> population_inv f"
  by (auto simp: new_Feature_def FeatureCollection_view_def population_inv_def buffers_ok_def sum_counts_def
      split: if_splits)

lemma dvd_max: "(k::nat) dvd a \<Longrightarrow> k dvd b \<Longrightarrow> k dvd max a b"
  by (simp add: max_def)

lemma aligned_pushValues:
  assumes "aligned f" shows "aligned (pushValues x y z (write_normal n f))"
proof -
  have "fsize f = 2 \<or> fsize f = 3" using assms by (simp add: aligned_def)
  then show ?thesis
  proof
    assume 2: "fsize f = 2"
    then have "2 dvd pos f" "2 dvd length (vertices f)" using assms by (simp_all add: aligned_def)
    then have "2 dvd max (length (vertices f)) (Suc (Suc (pos f)))"
      by (intro dvd_max) simp_all
    then show ?thesis using assms 2 \<open>2 dvd pos f\<close>
      by (simp add: aligned_def pushValues_def push2DValues_def max.absorb2 max.assoc)
  next
    assume 3: "fsize f = 3"
    then have "3 dvd pos f" "3 dvd length (vertices f)" using assms by (simp_all add: aligned_def)
    have "3 dvd pos f + 3" using \<open>3 dvd pos f\<close> by simp
    then have "3 dvd Suc (Suc (Suc (pos f)))" by (simp add: numeral_3_eq_3)
    then have "3 dvd max (length (vertices f)) (Suc (Suc (Suc (pos f))))"
      using \<open>3 dvd length (vertices f)\<close> by (intro dvd_max)
    moreover have "3 dvd pos f + 3" using \<open>3 dvd pos f\<close> by simp
    ultimately show ?thesis using assms 3
      by (simp add: aligned_def pushValues_def push3DValues_def max.absorb2 max.assoc)
  qed
qed

lemma aligned_geometries_update:
  "aligned f \<Longrightarrow> geometries f = gs \<Longrightarrow> gsize x = fsize f \<Longrightarrow>
   aligned (f\<lparr>geometries := gs[g := x]\<rparr>)"
  by (auto simp: aligned_def list_all_update)

lemma gsize_expand_altitude [simp]: "gsize (expand_altitude z this) = gsize this"
  by (simp add: expand_altitude_def)

lemma aligned_nth: "aligned f \<Longrightarrow> g < length (geometries f) \<Longrightarrow> gsize (geometries f ! g) = fsize f"
  by (simp add: aligned_def list_all_length)

lemma aligned_do_call: "aligned f \<Longrightarrow> aligned (do_call c f)"
proof (cases c)
  case BindNewGeometry
  assume "aligned f"
  then show ?thesis using BindNewGeometry
    by (simp add: aligned_def bindNewGeometry_def new_FeatureGeometry_def)
next
  case (StartSubGeometry g n)
  assume a: "aligned f"
  show ?thesis
  proof (cases "g < length (geometries f)")
    case True
    then show ?thesis using a StartSubGeometry
      by (auto simp: aligned_def startSubGeometry_def Let_def list_all_length nth_list_update)
  next
    case False
    then show ?thesis using a StartSubGeometry by simp
  qed
next
  case (CloseSubGeometry g n)
  assume a: "aligned f"
  show ?thesis
  proof (cases "g < length (geometries f)")
    case True
    then show ?thesis using a CloseSubGeometry
      by (auto simp: aligned_def closeSubGeometry_def Let_def list_all_length nth_list_update)
  next
    case False
    then show ?thesis using a CloseSubGeometry by simp
  qed
next
  case (PushCoordinatesValues g x y z n)
  assume a: "aligned f"
  show ?thesis
  proof (cases "g < length (geometries f)")
    case True
    have "aligned (pushValues x y z (write_normal n f))" using a by (rule aligned_pushValues)
    moreover have "gsize (geometries (pushValues x y z (write_normal n f)) ! g) = fsize (pushValues x y z (write_normal n f))"
      using calculation True by (intro aligned_nth) simp_all
    ultimately have "aligned (pushCoordinatesValues g x y z n f)"
      unfolding pushCoordinatesValues_def Let_def
      by (intro aligned_geometries_update) simp_all
    then show ?thesis using True PushCoordinatesValues by simp
  next
    case False
    then show ?thesis using a PushCoordinatesValues by simp
  qed
next
  case (PushCoordinates g c')
  assume a: "aligned f"
  obtain x y z where o: "out c' = (x, y, z)" by (cases "out c'") auto
  show ?thesis
  proof (cases "g < length (geometries f)")
    case True
    let ?f1 = "pushValues x y z (write_normal (geodesicNormal c') f)"
    have "aligned ?f1" using a by (rule aligned_pushValues)
    moreover have "gsize (geometries ?f1 ! g) = fsize ?f1"
      using calculation True by (intro aligned_nth) simp_all
    ultimately have "aligned (pushCoordinates g c' f)"
      unfolding pushCoordinates_def Let_def o prod.case
      by (intro aligned_geometries_update) simp_all
    then show ?thesis using True PushCoordinates by simp
  next
    case False
    then show ?thesis using a PushCoordinates by simp
  qed
next
  case (UpdateExtent g)
  assume "aligned f"
  then show ?thesis using UpdateExtent by (auto simp: aligned_def updateExtent_def)
qed

lemma aligned_run: "aligned f \<Longrightarrow> aligned (run cs f)"
  by (induction cs arbitrary: f) (simp_all add: aligned_do_call)

lemma run_size_dvd:
  assumes "new_Feature type (FeatureCollection_view c s) = Inr f"
    and "g < length (geometries (run cs f))"
  shows "gsize (geometries (run cs f) ! g) dvd length (vertices (run cs f))"
proof -
  have "aligned f"
    using assms(1) by (auto simp: new_Feature_def FeatureCollection_view_def aligned_def split: if_splits)
  then have "aligned (run cs f)" by (rule aligned_run)
  then show ?thesis using assms(2) by (simp add: aligned_def list_all_length)
qed

lemma contiguous_nth:
  "contiguous xs \<Longrightarrow> Suc i < length xs \<Longrightarrow>
   offset (xs ! i) + int (count (xs ! i)) = offset (xs ! Suc i)"
  by (induction xs arbitrary: i rule: contiguous.induct) (auto simp: nth_Cons split: nat.splits)

text \<open>
  Claim C5.  A Feature is constructed and any sequence of calls is made on it and on
  its geometries, \<^verbatim>\<open>startSubGeometry\<close> and \<^verbatim>\<open>closeSubGeometry\<close> among them with any
  counts.  Then in every geometry every entry of \<^verbatim>\<open>indices\<close> ends where the next one
  starts: \<^verbatim>\<open>indices[i].offset + indices[i].count == indices[i+1].offset\<close>.
\<close>

theorem sub_geometries_contiguous:
  assumes "new_Feature type collection = Inr f"
    and "g < length (geometries (run cs f))"
    and "Suc i < length (indices (geometries (run cs f) ! g))"
  shows "offset (indices (geometries (run cs f) ! g) ! i)
           + int (count (indices (geometries (run cs f) ! g) ! i))
         = offset (indices (geometries (run cs f) ! g) ! Suc i)"
proof -
  have "list_all (\<lambda>g. contiguous (indices g)) (geometries f)"
    using assms(1) by (auto simp: new_Feature_def split: if_splits)
  then have "list_all (\<lambda>g. contiguous (indices g)) (geometries (run cs f))"
    by (rule contiguous_run)
  then have "contiguous (indices (geometries (run cs f) ! g))"
    using assms(2) by (simp add: list_all_length)
  then show ?thesis using assms(3) by (rule contiguous_nth)
qed

theorem sub_geometries_contiguous_witness:
  "new_Feature LINE (FeatureCollection_view ''EPSG:4326'' ''2d'') = Inr example_line2d \<and>
   0 < length (geometries (run example_calls example_line2d)) \<and>
   Suc 1 < length (indices (geometries (run example_calls example_line2d) ! 0)) \<and>
   indices (geometries (run example_calls example_line2d) ! 0) =
     [\<lparr>offset = 0, count = 3\<rparr>, \<lparr>offset = 3, count = 4\<rparr>, \<lparr>offset = 7, count = 2\<rparr>] \<and>
   offset (indices (geometries (run example_calls example_line2d) ! 0) ! 1)
     + int (count (indices (geometries (run example_calls example_line2d) ! 0) ! 1))
   = offset (indices (geometries (run example_calls example_line2d) ! 0) ! Suc 1)"
proof -
  have a: "new_Feature LINE (FeatureCollection_view ''EPSG:4326'' ''2d'') = Inr example_line2d"
    by code_simp
  have g: "indices (geometries (run example_calls example_line2d) ! 0) =
     [\<lparr>offset = 0, count = 3\<rparr>, \<lparr>offset = 3, count = 4\<rparr>, \<lparr>offset = 7, count = 2\<rparr>]"
    by code_simp
  have b: "0 < length (geometries (run example_calls example_line2d))"
    by code_simp
  have c: "Suc 1 < length (indices (geometries (run example_calls example_line2d) ! 0))"
    by (simp add: g)
  from sub_geometries_contiguous [OF a b c] a b c g show ?thesis by blast
qed

text \<open>
  Claim C1.  A Feature is constructed for a collection and populated by the GeoJSON
  conversion (\<^verbatim>\<open>coordinatesToFeature\<close> for each geometry in turn).  Then
  \<^verbatim>\<open>vertices.length\<close> is \<^verbatim>\<open>size\<close> times the sum of the counts of all entries of
  all geometries, \<^verbatim>\<open>normals\<close> is defined exactly when \<^verbatim>\<open>size == 3\<close>, and then it is
  as long as \<^verbatim>\<open>vertices\<close>; a further \<^verbatim>\<open>startSubGeometry\<close> on any of its geometries,
  through \<^verbatim>\<open>_extendBuffer\<close>, keeps all of this true.
\<close>

theorem buffer_bookkeeping:
  assumes "new_Feature type (FeatureCollection_view c s) = Inr f0"
    and "populate fe js f0 = Inr f"
  shows "length (vertices f) = fsize f * sum_counts f \<and>
         (normals f \<noteq> None) = (fsize f = 3) \<and>
         (\<forall>ns. normals f = Some ns \<longrightarrow> length ns = length (vertices f)) \<and>
         (\<forall>g n. g < length (geometries f) \<longrightarrow> buffers_ok (startSubGeometry g n f))"
proof -
  have "population_inv f"
    using population_inv_populate [OF population_inv_new_Feature [OF assms(1)] assms(2)] .
  then have ok: "buffers_ok f" by (simp add: population_inv_def)
  have 1: "length (vertices f) = fsize f * sum_counts f"
    and 2: "(normals f \<noteq> None) = (fsize f = 3)"
    and 3: "\<forall>ns. normals f = Some ns \<longrightarrow> length ns = length (vertices f)"
    using ok by (auto simp: buffers_ok_def)
  have 4: "\<forall>g n. g < length (geometries f) \<longrightarrow> buffers_ok (startSubGeometry g n f)"
    using ok by (blast intro: buffers_ok_startSubGeometry)
  from 1 2 3 4 show ?thesis by blast
qed

theorem buffer_bookkeeping_witness:
  "new_Feature LINE (FeatureCollection_view ''EPSG:4326'' ''3d'') = Inr example_line3d \<and>
   populate None example_json example_line3d = Inr example_populated \<and>
   length (vertices example_populated) = 15 \<and> fsize example_populated = 3 \<and>
   sum_counts example_populated = 5 \<and>
   length (vertices example_populated) = fsize example_populated * sum_counts example_populated \<and>
   (normals example_populated \<noteq> None) = (fsize example_populated = 3) \<and>
   map_option length (normals example_populated) = Some (length (vertices example_populated)) \<and>
   buffers_ok (startSubGeometry 1 4 example_populated)"
proof -
  have a: "new_Feature LINE (FeatureCollection_view ''EPSG:4326'' ''3d'') = Inr example_line3d"
    by code_simp
  have b: "populate None example_json example_line3d = Inr example_populated"
    by code_simp
  have c: "length (vertices example_populated) = 15 \<and> fsize example_populated = 3"
    by (simp add: example_populated_def)
  have n: "normals example_populated \<noteq> None" "1 < length (geometries example_populated)"
    by (simp_all add: example_populated_def)
  from buffer_bookkeeping [OF a b]
  have d: "length (vertices example_populated) = fsize example_populated * sum_counts example_populated"
    and e: "(normals example_populated \<noteq> None) = (fsize example_populated = 3)"
    and g: "\<forall>ns. normals example_populated = Some ns \<longrightarrow>
              length ns = length (vertices example_populated)"
    and h: "\<forall>g n. g < length (geometries example_populated) \<longrightarrow>
              buffers_ok (startSubGeometry g n example_populated)"
    by blast+
  from c d have "sum_counts example_populated = 5" by auto
  moreover from n g
  have "map_option length (normals example_populated) = Some (length (vertices example_populated))"
    by (cases "normals example_populated") auto
  moreover from h n(2) have "buffers_ok (startSubGeometry 1 4 example_populated)" by blast
  ultimately show ?thesis using a b c d e by blast
qed

section \<open>Properties of the collection and the store\<close>
lemma has_kind_append: "has_kind ks a k \<Longrightarrow> has_kind (ks @ ks') a k"
  by (auto simp: has_kind_def nth_append)

lemma refs_ok_append: "refs_ok ks f \<Longrightarrow> refs_ok (ks @ ks') f"
  by (auto simp: refs_ok_def has_kind_append split: option.splits)

lemma cell_ok_append: "cell_ok ks c \<Longrightarrow> cell_ok (ks @ ks') c"
  by (auto simp: cell_ok_def refs_ok_append split: cell.splits)

lemma feature_at_has_kind:
  "(feature_at h a \<noteq> None) = has_kind (map kind_of h) a KFeature"
  by (auto simp: feature_at_def has_kind_def split: cell.splits)

lemma feature_at_append: "a < length h \<Longrightarrow> feature_at (h @ x) a = feature_at h a"
  by (simp add: feature_at_def nth_append)

lemma feature_at_Some_lt: "feature_at h a = Some f \<Longrightarrow> a < length h"
  by (auto simp: feature_at_def split: if_splits)

text \<open>What \<open>new_Feature_obj\<close> appends.\<close>

lemma new_Feature_obj_shape:
  assumes "new_Feature_obj t c h = Inr (a, h')"
  shows "\<exists>ext f. h' = h @ ext @ [FeatureCell f] \<and> a = length h + length ext \<and>
           KFeature \<notin> set (map kind_of ext) \<and> o_type f = t \<and> o_id f = None \<and>
           refs_ok (map kind_of h') f \<and> length h \<le> o_vertices f \<and> length h \<le> o_geometries f \<and>
           length h \<le> o_style f \<and> o_size f = fc_size c"
proof -
  from assms have t: "t = POINT \<or> t = LINE \<or> t = POLYGON"
    by (auto simp: new_Feature_obj_def split: if_splits)
  show ?thesis
  proof (cases "fc_size c = 3")
    case s3: True
    show ?thesis
    proof (cases "fc_extent c")
      case None
      with assms t s3 show ?thesis
        apply (simp add: new_Feature_obj_def Let_def)
        apply (rule exI [of _ "[GeomArray [], NumArray [], NumArray [], StyleCell (fc_style c)]"])
        apply (auto simp: refs_ok_def has_kind_def nth_append)
        done
    next
      case (Some x)
      with assms t s3 show ?thesis
        apply (simp add: new_Feature_obj_def Let_def)
        apply (rule exI [of _ "[GeomArray [], NumArray [], NumArray [], ExtentCell (defaultExtent (ecrs x)), StyleCell (fc_style c)]"])
        apply (auto simp: refs_ok_def has_kind_def nth_append)
        done
    qed
  next
    case s2: False
    show ?thesis
    proof (cases "fc_extent c")
      case None
      with assms t s2 show ?thesis
        apply (simp add: new_Feature_obj_def Let_def)
        apply (rule exI [of _ "[GeomArray [], NumArray [], StyleCell (fc_style c)]"])
        apply (auto simp: refs_ok_def has_kind_def nth_append)
        done
    next
      case (Some x)
      with assms t s2 show ?thesis
        apply (simp add: new_Feature_obj_def Let_def)
        apply (rule exI [of _ "[GeomArray [], NumArray [], ExtentCell (defaultExtent (ecrs x)), StyleCell (fc_style c)]"])
        apply (auto simp: refs_ok_def has_kind_def nth_append)
        done
    qed
  qed
qed

lemma new_Feature_obj_Inr:
  "t = POINT \<or> t = LINE \<or> t = POLYGON \<Longrightarrow> \<exists>a h'. new_Feature_obj t c h = Inr (a, h')"
  by (simp add: new_Feature_obj_def Let_def)

lemma new_Feature_obj_Inl:
  "\<not> (t = POINT \<or> t = LINE \<or> t = POLYGON) \<Longrightarrow> new_Feature_obj t c h = Inl UnsupportedFeatureType"
  by (simp add: new_Feature_obj_def Let_def)

lemma heap_ok_new_Feature_obj:
  assumes "heap_ok h" "new_Feature_obj t c h = Inr (a, h')"
  shows "heap_ok h'"
proof -
  from new_Feature_obj_shape [OF assms(2)] obtain ext f where
    h': "h' = h @ ext @ [FeatureCell f]" and nf: "KFeature \<notin> set (map kind_of ext)"
    and rf: "refs_ok (map kind_of h') f" and id: "o_id f = None" by blast
  have 1: "list_all (cell_ok (map kind_of h')) h"
    using assms(1) unfolding heap_ok_def h'
    by (auto simp: list_all_iff intro: cell_ok_append)
  have 2: "list_all (cell_ok (map kind_of h')) ext"
  proof -
    have "cell_ok (map kind_of h') c" if "c \<in> set ext" for c
    proof -
      from that nf have "kind_of c \<noteq> KFeature" by force
      then show ?thesis by (cases c) (auto simp: cell_ok_def)
    qed
    then show ?thesis by (simp add: list_all_iff)
  qed
  have 3: "cell_ok (map kind_of h') (FeatureCell f)"
    using rf id by (simp add: cell_ok_def)
  show ?thesis unfolding heap_ok_def using 1 2 3 by (simp add: h')
qed

lemma kinds_update_same:
  "a < length h \<Longrightarrow> kind_of c = kind_of (h ! a) \<Longrightarrow> map kind_of (h[a := c]) = map kind_of h"
  by (simp add: map_update list_update_same_conv)

lemma has_kind_feature_at:
  "has_kind (map kind_of h) a KFeature \<Longrightarrow> \<exists>f. feature_at h a = Some f"
  using feature_at_has_kind [of h a] by auto

text \<open>Replacing a cell by one of the same kind that is itself well-formed.\<close>

lemma heap_ok_update:
  assumes "heap_ok h" "a < length h" "kind_of c = kind_of (h ! a)" "cell_ok (map kind_of h) c"
  shows "heap_ok (h[a := c])" and "map kind_of (h[a := c]) = map kind_of h"
proof -
  show k: "map kind_of (h[a := c]) = map kind_of h"
    using assms(2,3) by (rule kinds_update_same)
  show "heap_ok (h[a := c])"
    unfolding heap_ok_def k using assms(1,4)
    by (auto simp: heap_ok_def list_all_iff dest: set_update_subset_insert [THEN subsetD])
qed

lemma heap_ok_update_data:
  assumes "heap_ok h" "has_kind (map kind_of h) a k" "kind_of c = k" "k \<noteq> KFeature"
  shows "heap_ok (h[a := c])" and "map kind_of (h[a := c]) = map kind_of h"
proof -
  have a: "a < length h" and ka: "kind_of (h ! a) = k"
    using assms(2) by (auto simp: has_kind_def)
  have c: "cell_ok (map kind_of h) c"
    using assms(3,4) by (cases c) (auto simp: cell_ok_def)
  show "heap_ok (h[a := c])" and "map kind_of (h[a := c]) = map kind_of h"
    using heap_ok_update [OF assms(1) a _ c] assms(3) ka by simp_all
qed

lemma heap_ok_feature:
  "heap_ok h \<Longrightarrow> feature_at h a = Some f \<Longrightarrow> refs_ok (map kind_of h) f \<and> o_id f = None"
  by (auto simp: heap_ok_def feature_at_def list_all_length cell_ok_def split: if_splits cell.splits)

lemma heap_ok_on_feature:
  assumes "heap_ok h"
  shows "heap_ok (on_feature a m h) \<and> map kind_of (on_feature a m h) = map kind_of h"
proof (cases "feature_at h a")
  case None
  then show ?thesis using assms by (simp add: on_feature_def)
next
  case (Some f)
  from heap_ok_feature [OF assms Some] have rf: "refs_ok (map kind_of h) f" and id: "o_id f = None"
    by simp_all
  define f' where "f' = m (deref h f)"
  define h1 where "h1 = h[o_vertices f := NumArray (vertices f')]"
  define h2 where "h2 = (case (o_normals f, normals f') of
                       (Some n, Some ns) \<Rightarrow> h1[n := NumArray ns]
                     | _ \<Rightarrow> h1)"
  define h3 where "h3 = h2[o_geometries f := GeomArray (geometries f')]"
  have 1: "heap_ok h1 \<and> map kind_of h1 = map kind_of h"
    unfolding h1_def using rf
    by (intro conjI heap_ok_update_data [OF assms, where k = KNum]) (simp_all add: refs_ok_def)
  have 2: "heap_ok h2 \<and> map kind_of h2 = map kind_of h"
  proof (cases "o_normals f")
    case None
    then show ?thesis using 1 by (simp add: h2_def)
  next
    case n: (Some n)
    show ?thesis
    proof (cases "normals f'")
      case None
      then show ?thesis using 1 n by (simp add: h2_def)
    next
      case (Some ns)
      have "has_kind (map kind_of h1) n KNum" using rf n 1 by (simp add: refs_ok_def)
      from heap_ok_update_data [OF conjunct1 [OF 1] this, of "NumArray ns"] 1
      show ?thesis using n Some by (simp add: h2_def)
    qed
  qed
  have "has_kind (map kind_of h2) (o_geometries f) KGeom" using rf 2 by (simp add: refs_ok_def)
  from heap_ok_update_data [OF conjunct1 [OF 2] this, of "GeomArray (geometries f')"] 2
  have 3: "heap_ok h3 \<and> map kind_of h3 = map kind_of h" by (simp add: h3_def)
  have a: "a < length h3" "kind_of (h3 ! a) = KFeature"
  proof -
    from Some have "has_kind (map kind_of h) a KFeature"
      using feature_at_has_kind [of h a] by simp
    then have "has_kind (map kind_of h3) a KFeature" using 3 by simp
    then show "a < length h3" "kind_of (h3 ! a) = KFeature" by (auto simp: has_kind_def)
  qed
  have c: "cell_ok (map kind_of h3) (FeatureCell (f\<lparr>o_pos := pos f', o_altitude := altitude f'\<rparr>))"
    using rf id 3 by (simp add: cell_ok_def refs_ok_def)
  from heap_ok_update [OF conjunct1 [OF 3] a(1) _ c] a(2) 3
  have "heap_ok (h3[a := FeatureCell (f\<lparr>o_pos := pos f', o_altitude := altitude f'\<rparr>)]) \<and>
        map kind_of (h3[a := FeatureCell (f\<lparr>o_pos := pos f', o_altitude := altitude f'\<rparr>)]) = map kind_of h"
    by simp
  moreover have "on_feature a m h = h3[a := FeatureCell (f\<lparr>o_pos := pos f', o_altitude := altitude f'\<rparr>)]"
    unfolding on_feature_def Let_def f'_def h1_def h2_def h3_def Some by simp
  ultimately show ?thesis by simp
qed

lemma find_append_None:
  "List.find P xs = None \<Longrightarrow> List.find P (xs @ ys) = List.find P ys"
  by (induction xs) (auto split: if_splits)

lemma find_cong_set:
  "(\<And>x. x \<in> set xs \<Longrightarrow> P x = Q x) \<Longrightarrow> List.find P xs = List.find Q xs"
  by (induction xs) auto

lemma has_kind_lt: "has_kind (map kind_of h) a k \<Longrightarrow> a < length h"
  by (simp add: has_kind_def)

text \<open>The branch of \<open>requestFeature\<close> that creates a Feature.\<close>

lemma features_ok_created:
  assumes ok: "features_ok (c, h)" and new: "new_Feature_obj t c h = Inr (a, h')"
  shows "features_ok (c\<lparr>features := features c @ [a]\<rparr>, h')"
    and "a \<notin> set (features c)" and "length h \<le> a"
    and "\<exists>f. feature_at h' a = Some f \<and> o_type f = t \<and> o_id f = None"
    and "\<forall>b < length h. feature_at h' b = feature_at h b"
proof -
  from new_Feature_obj_shape [OF new] obtain ext f where
    h': "h' = h @ ext @ [FeatureCell f]" and a: "a = length h + length ext"
    and tf: "o_type f = t" "o_id f = None" by blast
  have hk: "heap_ok h'" using ok new by (auto simp: features_ok_def intro: heap_ok_new_Feature_obj)
  have old: "list_all (\<lambda>a. has_kind (map kind_of h') a KFeature) (features c)"
    using ok by (auto simp: features_ok_def list_all_iff h' intro: has_kind_append)
  have fa: "feature_at h' a = Some f"
    by (simp add: feature_at_def h' a nth_append)
  then have "has_kind (map kind_of h') a KFeature"
    using feature_at_has_kind [of h' a] by simp
  with hk old show "features_ok (c\<lparr>features := features c @ [a]\<rparr>, h')"
    by (simp add: features_ok_def)
  show "length h \<le> a" by (simp add: a)
  show "a \<notin> set (features c)"
  proof
    assume "a \<in> set (features c)"
    then have "a < length h" using ok by (auto simp: features_ok_def list_all_iff dest: has_kind_lt)
    then show False by (simp add: a)
  qed
  show "\<exists>f. feature_at h' a = Some f \<and> o_type f = t \<and> o_id f = None"
    using fa tf by simp
  show "\<forall>b < length h. feature_at h' b = feature_at h b"
    by (simp add: h' feature_at_append)
qed

lemma requestFeature_cases:
  assumes "requestFeature t cb (c, h) = Inr (a, st')"
  shows "(mergeFeatures c \<and> st' = (c, h) \<and>
            List.find (\<lambda>a. case feature_at h a of Some f \<Rightarrow> cb f | None \<Rightarrow> False) (features c) = Some a)
         \<or> ((\<not> mergeFeatures c \<or>
               List.find (\<lambda>a. case feature_at h a of Some f \<Rightarrow> cb f | None \<Rightarrow> False) (features c) = None)
             \<and> (\<exists>h'. new_Feature_obj t c h = Inr (a, h') \<and> st' = (c\<lparr>features := features c @ [a]\<rparr>, h')))"
  using assms
  by (auto simp: requestFeature_def Let_def split: if_splits sum.splits)

lemma features_ok_requestFeature:
  assumes "features_ok st" "requestFeature t cb st = Inr (a, st')"
  shows "features_ok st'"
proof -
  obtain c h where st: "st = (c, h)" by (cases st)
  from requestFeature_cases [OF assms(2) [unfolded st]] show ?thesis
    using assms(1) st by (auto dest: features_ok_created(1))
qed

lemma features_ok_newFeatureByReference:
  assumes ok: "features_ok st" and r: "newFeatureByReference a st = Inr (r, st')"
  shows "features_ok st'"
proof -
  obtain c h where st: "st = (c, h)" by (cases st)
  from r st obtain feature h' ref where
    src: "feature_at h a = Some feature"
    and new: "new_Feature_obj (o_type feature) c h = Inr (r, h')"
    and ref: "feature_at h' r = Some ref"
    and st': "st' = (c\<lparr>features := features c @ [r]\<rparr>,
                     h'[r := FeatureCell (ref\<lparr>o_extent := o_extent feature,
                                             o_geometries := o_geometries feature,
                                             o_normals := o_normals feature,
                                             o_size := o_size feature,
                                             o_vertices := o_vertices feature,
                                             o_pos := o_pos feature\<rparr>)])"
    by (auto simp: newFeatureByReference_def split: option.splits sum.splits)
  let ?ref' = "ref\<lparr>o_extent := o_extent feature, o_geometries := o_geometries feature,
                   o_normals := o_normals feature, o_size := o_size feature,
                   o_vertices := o_vertices feature, o_pos := o_pos feature\<rparr>"
  note cr = features_ok_created [OF ok [unfolded st] new]
  have hk: "heap_ok h'" using cr(1) by (simp add: features_ok_def)
  from new_Feature_obj_shape [OF new] obtain ext where h': "h' = h @ ext" by auto
  have "refs_ok (map kind_of h) feature"
    using ok st src by (auto simp: features_ok_def dest: heap_ok_feature)
  then have rs: "refs_ok (map kind_of h') feature"
    unfolding h' by (simp add: refs_ok_append)
  have rr: "refs_ok (map kind_of h') ref" "o_id ref = None"
    using heap_ok_feature [OF hk ref] by simp_all
  have c: "cell_ok (map kind_of h') (FeatureCell ?ref')"
    using rs rr by (simp add: cell_ok_def refs_ok_def)
  have rl: "r < length h'" "kind_of (h' ! r) = KFeature"
    using ref by (auto simp: feature_at_def split: if_splits cell.splits)
  from heap_ok_update [OF hk rl(1) _ c] rl(2)
  have "heap_ok (h'[r := FeatureCell ?ref'])"
    and "map kind_of (h'[r := FeatureCell ?ref']) = map kind_of h'"
    by simp_all
  then show ?thesis using cr(1) by (simp add: st' features_ok_def)
qed

lemma features_ok_removeEmptyFeature: "features_ok st \<Longrightarrow> features_ok (removeEmptyFeature st)"
  by (cases st) (auto simp: removeEmptyFeature_def features_ok_def list_all_iff)

lemma features_ok_on_feature: "features_ok (c, h) \<Longrightarrow> features_ok (c, on_feature a m h)"
  using heap_ok_on_feature [of h a m] by (simp add: features_ok_def)

lemma features_ok_do_collection_call: "features_ok st \<Longrightarrow> features_ok (do_collection_call c st)"
proof (cases c)
  case (RequestFeatureByType t)
  assume "features_ok st"
  then show ?thesis using RequestFeatureByType
    by (cases "requestFeatureByType t st")
       (auto simp: requestFeatureByType_def dest: features_ok_requestFeature)
next
  case (RequestFeatureById i t)
  assume "features_ok st"
  then show ?thesis using RequestFeatureById
    by (cases "requestFeatureById i t st")
       (auto simp: requestFeatureById_def dest: features_ok_requestFeature)
next
  case (NewFeatureByReference a)
  assume "features_ok st"
  then show ?thesis using NewFeatureByReference
    by (cases "newFeatureByReference a st")
       (auto dest: features_ok_newFeatureByReference)
next
  case RemoveEmptyFeature
  assume "features_ok st"
  then show ?thesis using RemoveEmptyFeature by (simp add: features_ok_removeEmptyFeature)
next
  case (OnFeature a k)
  assume "features_ok st"
  then show ?thesis using OnFeature by (cases st) (simp add: features_ok_on_feature)
qed

lemma features_ok_run_collection: "features_ok st \<Longrightarrow> features_ok (run_collection cs st)"
  by (induction cs arbitrary: st) (simp_all add: features_ok_do_collection_call)

lemma features_ok_initial: "features_ok (new_FeatureCollection options, [])"
  by (simp add: features_ok_def heap_ok_def new_FeatureCollection_def)

lemma mergeFeatures_requestFeature:
  "requestFeature t cb st = Inr (a, st') \<Longrightarrow> mergeFeatures (fst st') = mergeFeatures (fst st)"
  by (cases st) (auto dest!: requestFeature_cases)

lemma requestFeatureByType_fresh:
  assumes ok: "features_ok (c, h)" and r: "requestFeatureByType t (c, h) = Inr (a, st')"
    and nm: "\<not> mergeFeatures c"
  shows "a \<notin> set (features c) \<and> length h \<le> a \<and> features (fst st') = features c @ [a] \<and>
         length h < length (snd st') \<and> features_ok st' \<and> mergeFeatures (fst st') = mergeFeatures c"
proof -
  from requestFeature_cases [OF r [unfolded requestFeatureByType_def]] nm
  obtain h' where new: "new_Feature_obj t c h = Inr (a, h')"
    and st': "st' = (c\<lparr>features := features c @ [a]\<rparr>, h')" by auto
  from new_Feature_obj_shape [OF new] have "length h < length h'" by auto
  with features_ok_created [OF ok new] st' show ?thesis by simp
qed

text \<open>
  Claim C6.  In a collection reached from its constructor by any sequence of calls: with
  \<^verbatim>\<open>mergeFeatures\<close> true, two successive \<^verbatim>\<open>requestFeatureByType\<close> calls for the same
  type (\<^verbatim>\<open>POLYGON\<close> among them) return the same address, that is, the identical Feature
  object, and the second call changes nothing; with \<^verbatim>\<open>mergeFeatures\<close> false, each call
  returns a newly allocated address that was not in \<^verbatim>\<open>features\<close> and appends it.
\<close>

theorem merge_policy:
  assumes reach: "st = run_collection calls (new_FeatureCollection options, [])"
    and r1: "requestFeatureByType t st = Inr (a1, st1)"
    and r2: "requestFeatureByType t st1 = Inr (a2, st2)"
  shows "(mergeFeatures (fst st) \<longrightarrow> a2 = a1 \<and> st2 = st1) \<and>
         (\<not> mergeFeatures (fst st) \<longrightarrow>
            a1 \<notin> set (features (fst st)) \<and> length (snd st) \<le> a1 \<and>
            features (fst st1) = features (fst st) @ [a1] \<and>
            a2 \<notin> set (features (fst st1)) \<and> length (snd st1) \<le> a2 \<and>
            features (fst st2) = features (fst st1) @ [a2] \<and> a2 \<noteq> a1)"
proof -
  obtain c h where st: "st = (c, h)" by (cases st)
  have ok: "features_ok (c, h)"
    using reach st features_ok_run_collection [OF features_ok_initial] by metis
  let ?P = "\<lambda>h a. case feature_at h a of Some f \<Rightarrow> o_type f = t | None \<Rightarrow> False"
  have merge: "a2 = a1 \<and> st2 = st1" if m: "mergeFeatures c"
  proof -
    from requestFeature_cases [OF r1 [unfolded requestFeatureByType_def st]] m
    consider (found) "st1 = (c, h)" "List.find (?P h) (features c) = Some a1"
      | (created) h' where "List.find (?P h) (features c) = None"
          "new_Feature_obj t c h = Inr (a1, h')" "st1 = (c\<lparr>features := features c @ [a1]\<rparr>, h')"
      by auto
    then show ?thesis
    proof cases
      case found
      then show ?thesis using r1 r2 st by simp
    next
      case created
      note cr = features_ok_created [OF ok created(2)]
      have "?P h' x = ?P h x" if "x \<in> set (features c)" for x
      proof -
        from that ok have "x < length h" by (auto simp: features_ok_def list_all_iff dest: has_kind_lt)
        then show ?thesis using cr(5) by simp
      qed
      then have "List.find (?P h') (features c) = List.find (?P h) (features c)"
        by (rule find_cong_set)
      then have "List.find (?P h') (features c @ [a1]) = List.find (?P h') [a1]"
        using created(1) by (simp add: find_append_None)
      moreover have "?P h' a1" using cr(4) by auto
      ultimately have "List.find (?P h') (features c @ [a1]) = Some a1" by simp
      then have "requestFeatureByType t st1 = Inr (a1, st1)"
        using m by (simp add: requestFeatureByType_def requestFeature_def created(3))
      with r2 show ?thesis by simp
    qed
  qed
  have nomerge: "a1 \<notin> set (features c) \<and> length h \<le> a1 \<and>
            features (fst st1) = features c @ [a1] \<and>
            a2 \<notin> set (features (fst st1)) \<and> length (snd st1) \<le> a2 \<and>
            features (fst st2) = features (fst st1) @ [a2] \<and> a2 \<noteq> a1" if nm: "\<not> mergeFeatures c"
  proof -
    note f1 = requestFeatureByType_fresh [OF ok r1 [unfolded st] nm]
    obtain c1 h1 where st1: "st1 = (c1, h1)" by (cases st1)
    have ok1: "features_ok (c1, h1)" and nm1: "\<not> mergeFeatures c1"
      using f1 nm st1 by simp_all
    note f2 = requestFeatureByType_fresh [OF ok1 r2 [unfolded st1] nm1]
    from f1 f2 st1 show ?thesis by auto
  qed
  from merge nomerge show ?thesis unfolding st fst_conv snd_conv by blast
qed

theorem merge_policy_witness:
  "example_state = run_collection [RequestFeatureByType LINE] (new_FeatureCollection example_options, []) \<and>
   requestFeatureByType POLYGON example_state = Inr (11, example_state1) \<and>
   requestFeatureByType POLYGON example_state1 = Inr (11, example_state1) \<and>
   mergeFeatures (fst example_state) \<and> features (fst example_state1) = [5, 11] \<and>
   requestFeatureByType POLYGON example_state_nomerge = Inr (11, example_state_nomerge1) \<and>
   requestFeatureByType POLYGON example_state_nomerge1 = Inr (17, example_state_nomerge2) \<and>
   \<not> mergeFeatures (fst example_state_nomerge) \<and>
   features (fst example_state_nomerge) = [5] \<and>
   features (fst example_state_nomerge1) = features (fst example_state_nomerge) @ [11] \<and>
   features (fst example_state_nomerge2) = features (fst example_state_nomerge1) @ [17]"
proof -
  have m1: "requestFeatureByType POLYGON example_state = Inr (11, example_state1)"
    by code_simp
  have m2: "requestFeatureByType POLYGON example_state1 = Inr (11, example_state1)"
    by code_simp
  have m3: "mergeFeatures (fst example_state)" "features (fst example_state1) = [5, 11]"
    by code_simp+
  have n1: "requestFeatureByType POLYGON example_state_nomerge = Inr (11, example_state_nomerge1)"
    by code_simp
  have n2: "requestFeatureByType POLYGON example_state_nomerge1 = Inr (17, example_state_nomerge2)"
    by code_simp
  have n3: "\<not> mergeFeatures (fst example_state_nomerge)" "features (fst example_state_nomerge) = [5]"
    by code_simp+
  from merge_policy [OF example_state_nomerge_def n1 n2] n3(1)
  have "features (fst example_state_nomerge1) = features (fst example_state_nomerge) @ [11] \<and>
        features (fst example_state_nomerge2) = features (fst example_state_nomerge1) @ [17]"
    by blast
  with example_state_def m1 m2 m3 n1 n2 n3 show ?thesis by blast
qed

text \<open>
  Claim C10.  In a collection reached from its constructor by any sequence of calls, for
  every \<^verbatim>\<open>id\<close> that is not \<^verbatim>\<open>undefined\<close> and every Feature type,
  \<^verbatim>\<open>requestFeatureById(id, type)\<close> returns a newly allocated Feature of that type and
  appends it to \<^verbatim>\<open>features\<close>, whatever \<^verbatim>\<open>mergeFeatures\<close> is: no Feature has an
  \<^verbatim>\<open>id\<close>, and the predicate does not look at the type.
\<close>

theorem requestFeatureById_always_new:
  assumes reach: "st = run_collection calls (new_FeatureCollection options, [])"
    and ident: "ident \<noteq> None"
    and t: "t = POINT \<or> t = LINE \<or> t = POLYGON"
  shows "\<exists>a st'. requestFeatureById ident t st = Inr (a, st') \<and>
           a \<notin> set (features (fst st)) \<and> length (snd st) \<le> a \<and>
           features (fst st') = features (fst st) @ [a] \<and>
           (\<exists>f. feature_at (snd st') a = Some f \<and> o_type f = t)"
proof -
  obtain c h where st: "st = (c, h)" by (cases st)
  have ok: "features_ok (c, h)"
    using reach st features_ok_run_collection [OF features_ok_initial] by metis
  let ?P = "\<lambda>a. case feature_at h a of Some f \<Rightarrow> o_id f = ident | None \<Rightarrow> False"
  have "\<not> ?P x" for x
  proof (cases "feature_at h x")
    case None
    then show ?thesis by simp
  next
    case (Some f)
    with ok have "o_id f = None" by (auto simp: features_ok_def dest: heap_ok_feature)
    then show ?thesis using Some ident by auto
  qed
  then have none: "List.find ?P (features c) = None"
    by (simp add: find_None_iff)
  from new_Feature_obj_Inr [OF t] obtain a h' where new: "new_Feature_obj t c h = Inr (a, h')"
    by blast
  have r: "requestFeatureById ident t st = Inr (a, c\<lparr>features := features c @ [a]\<rparr>, h')"
    using none new by (simp add: requestFeatureById_def requestFeature_def st)
  from features_ok_created [OF ok new] r show ?thesis
    by (auto simp: st)
qed

theorem requestFeatureById_always_new_witness:
  "example_state = run_collection [RequestFeatureByType LINE] (new_FeatureCollection example_options, []) \<and>
   mergeFeatures (fst example_state) \<and> features (fst example_state) = [5] \<and>
   map_option o_type (feature_at (snd example_state) 5) = Some LINE \<and>
   requestFeatureById (Some 7) LINE example_state = Inr (11, example_state_by_id) \<and>
   features (fst example_state_by_id) = [5, 11] \<and>
   map_option o_type (feature_at (snd example_state_by_id) 11) = Some LINE"
proof -
  have i1: "requestFeatureById (Some 7) LINE example_state = Inr (11, example_state_by_id)"
    by code_simp
  have i2: "mergeFeatures (fst example_state)" "features (fst example_state) = [5]"
    "map_option o_type (feature_at (snd example_state) 5) = Some LINE"
    by code_simp+
  have "Some (7::nat) \<noteq> None" "LINE = POINT \<or> LINE = LINE \<or> LINE = POLYGON" by simp_all
  from requestFeatureById_always_new [OF example_state_def this, unfolded i1]
  have "features (fst example_state_by_id) = features (fst example_state) @ [11]"
    and "\<exists>f. feature_at (snd example_state_by_id) 11 = Some f \<and> o_type f = LINE"
    by auto
  then have "features (fst example_state_by_id) = [5, 11]"
    and "map_option o_type (feature_at (snd example_state_by_id) 11) = Some LINE"
    using i2 by auto
  with example_state_def i1 i2 show ?thesis by blast
qed

lemma has_kind_update:
  "a < length h \<Longrightarrow> kind_of c = kind_of (h ! a) \<Longrightarrow>
   has_kind (map kind_of (h[a := c])) b k = has_kind (map kind_of h) b k"
  by (simp add: kinds_update_same)

text \<open>
  Claim C8, as amended.  \<^verbatim>\<open>newFeatureByReference\<close> returns a new Feature object whose
  \<^verbatim>\<open>vertices\<close>, \<^verbatim>\<open>normals\<close>, \<^verbatim>\<open>geometries\<close> and also \<^verbatim>\<open>extent\<close> are the very objects
  of the source Feature, and whose \<^verbatim>\<open>style\<close> is a new object of its own.  A change
  of the new Feature's style object leaves the source's style object as it was; a
  change of the extent object reached through the new Feature is a change of the
  source's extent.
\<close>

theorem newFeatureByReference_shares:
  assumes reach: "st = run_collection calls (new_FeatureCollection options, [])"
    and src: "feature_at (snd st) a = Some feature"
    and r: "newFeatureByReference a st = Inr (r, st')"
  shows "\<exists>ref. feature_at (snd st') r = Some ref \<and> r \<noteq> a \<and>
           feature_at (snd st') a = Some feature \<and>
           o_vertices ref = o_vertices feature \<and> o_normals ref = o_normals feature \<and>
           o_geometries ref = o_geometries feature \<and> o_extent ref = o_extent feature \<and>
           o_style ref \<noteq> o_style feature \<and>
           (\<forall>s. style_at ((snd st')[o_style ref := StyleCell s]) (o_style feature)
                  = style_at (snd st') (o_style feature)) \<and>
           (\<forall>s. style_at ((snd st')[o_style ref := StyleCell s]) (o_style ref) = Some s) \<and>
           (\<forall>e x. o_extent ref = Some e \<longrightarrow>
                  extent_at ((snd st')[e := ExtentCell x]) (the (o_extent feature)) = Some x)"
proof -
  obtain c h where st: "st = (c, h)" by (cases st)
  have ok: "features_ok (c, h)"
    using reach st features_ok_run_collection [OF features_ok_initial] by metis
  have srch: "feature_at h a = Some feature" using src st by simp
  from r st srch obtain h1 ref0 where
    new: "new_Feature_obj (o_type feature) c h = Inr (r, h1)"
    and ref0: "feature_at h1 r = Some ref0"
    and st': "st' = (c\<lparr>features := features c @ [r]\<rparr>,
                     h1[r := FeatureCell (ref0\<lparr>o_extent := o_extent feature,
                                             o_geometries := o_geometries feature,
                                             o_normals := o_normals feature,
                                             o_size := o_size feature,
                                             o_vertices := o_vertices feature,
                                             o_pos := o_pos feature\<rparr>)])"
    by (auto simp: newFeatureByReference_def split: option.splits sum.splits)
  let ?ref = "ref0\<lparr>o_extent := o_extent feature, o_geometries := o_geometries feature,
                   o_normals := o_normals feature, o_size := o_size feature,
                   o_vertices := o_vertices feature, o_pos := o_pos feature\<rparr>"
  let ?h' = "h1[r := FeatureCell ?ref]"
  from new_Feature_obj_shape [OF new] obtain ext f where
    h1: "h1 = h @ ext @ [FeatureCell f]" and ra: "r = length h + length ext"
    and sty: "length h \<le> o_style f" and rf: "refs_ok (map kind_of h1) f" by blast
  have f: "ref0 = f" using ref0 by (simp add: feature_at_def h1 ra nth_append)
  have al: "a < length h" using srch by (rule feature_at_Some_lt)
  have rl: "r < length h1" by (simp add: h1 ra)
  have ne: "r \<noteq> a" using al ra by simp
  have rs: "refs_ok (map kind_of h) feature"
    using ok srch by (auto simp: features_ok_def dest: heap_ok_feature)
  have 1: "feature_at ?h' r = Some ?ref"
    using rl by (simp add: feature_at_def)
  have 2: "feature_at ?h' a = Some feature"
    using srch al ne by (simp add: feature_at_def h1 nth_append)
  have sl: "o_style feature < length h" using rs by (simp add: refs_ok_def has_kind_def)
  then have 3: "o_style ?ref \<noteq> o_style feature" using sty f by simp
  have sr: "o_style ?ref < length ?h'"
    using rf f by (simp add: refs_ok_def has_kind_def)
  have 4: "style_at (?h'[o_style ?ref := StyleCell s]) (o_style feature) = style_at ?h' (o_style feature)" for s
    using 3 by (simp add: style_at_def)
  have 5: "style_at (?h'[o_style ?ref := StyleCell s]) (o_style ?ref) = Some s" for s
    using sr by (simp add: style_at_def)
  have 6: "extent_at (?h'[e := ExtentCell x]) (the (o_extent feature)) = Some x"
    if "o_extent ?ref = Some e" for e x
  proof -
    from that have e: "o_extent feature = Some e" by simp
    with rs have "e < length h" by (simp add: refs_ok_def has_kind_def)
    then have "e < length ?h'" by (simp add: h1)
    then show ?thesis using e by (simp add: extent_at_def)
  qed
  show ?thesis
    unfolding st' snd_conv
    apply (rule exI [of _ ?ref])
    using 1 ne 2 3 4 5 6 by simp
qed

theorem newFeatureByReference_shares_witness:
  "example_state = run_collection [RequestFeatureByType LINE] (new_FeatureCollection example_options, []) \<and>
   feature_at (snd example_state) 5 \<noteq> None \<and>
   newFeatureByReference 5 example_state = Inr (11, example_state_ref) \<and>
   map_option o_vertices (feature_at (snd example_state_ref) 11)
     = map_option o_vertices (feature_at (snd example_state_ref) 5) \<and>
   map_option o_extent (feature_at (snd example_state_ref) 11) = Some (Some 3) \<and>
   map_option o_extent (feature_at (snd example_state_ref) 5) = Some (Some 3) \<and>
   map_option o_style (feature_at (snd example_state_ref) 11) = Some 10 \<and>
   map_option o_style (feature_at (snd example_state_ref) 5) = Some 4"
proof -
  have ne: "feature_at (snd example_state) 5 \<noteq> None"
    by code_simp
  then obtain feature where s: "feature_at (snd example_state) 5 = Some feature"
    by auto
  have r: "newFeatureByReference 5 example_state = Inr (11, example_state_ref)"
    by code_simp
  have e: "map_option o_extent (feature_at (snd example_state_ref) 5) = Some (Some 3)"
    "map_option o_style (feature_at (snd example_state_ref) 11) = Some 10"
    "map_option o_style (feature_at (snd example_state_ref) 5) = Some 4"
    by code_simp+
  from newFeatureByReference_shares [OF example_state_def s r]
  obtain ref where a: "feature_at (snd example_state_ref) 11 = Some ref"
    "feature_at (snd example_state_ref) 5 = Some feature"
    "o_vertices ref = o_vertices feature" "o_extent ref = o_extent feature"
    by blast
  from a e have "map_option o_vertices (feature_at (snd example_state_ref) 11)
     = map_option o_vertices (feature_at (snd example_state_ref) 5)"
    and "map_option o_extent (feature_at (snd example_state_ref) 11) = Some (Some 3)"
    by simp_all
  with example_state_def ne r e show ?thesis by blast
qed

text \<open>
  Claim C8 as stated fails: the extent is shared.  \<^verbatim>\<open>updateExtent\<close> on the new Feature
  (address 11) turns the extent object of the source Feature (address 5, extent at
  address 3) from the empty extent into the geometry's extent.
\<close>

theorem newFeatureByReference_extent_counterexample:
  "newFeatureByReference 5 example_state = Inr (11, example_state_ref) \<and>
   map_option o_extent (feature_at (snd example_state_ref) 5) = Some (Some 3) \<and>
   extent_at (snd example_state_ref) 3 = Some (defaultExtent ''EPSG:4326'') \<and>
   extent_at (updateExtent_obj Extent_union 11 example_geometry_extent empty_altitude
                (snd example_state_ref)) 3 = Some example_geometry_extent \<and>
   example_geometry_extent \<noteq> defaultExtent ''EPSG:4326'' \<and>
   map_option o_extent (feature_at (updateExtent_obj Extent_union 11 example_geometry_extent
                empty_altitude (snd example_state_ref)) 5) = Some (Some 3)"
proof -
  have "newFeatureByReference 5 example_state = Inr (11, example_state_ref)"
    by code_simp
  moreover have "map_option o_extent (feature_at (snd example_state_ref) 5) = Some (Some 3)"
    by code_simp
  moreover have "extent_at (snd example_state_ref) 3 = Some (defaultExtent ''EPSG:4326'')"
    by code_simp
  moreover have "extent_at (updateExtent_obj Extent_union 11 example_geometry_extent empty_altitude
                (snd example_state_ref)) 3 = Some example_geometry_extent"
    by code_simp
  moreover have "example_geometry_extent \<noteq> defaultExtent ''EPSG:4326''"
    by (simp add: example_geometry_extent_def defaultExtent_def)
  moreover have "map_option o_extent (feature_at (updateExtent_obj Extent_union 11
                example_geometry_extent empty_altitude (snd example_state_ref)) 5) = Some (Some 3)"
    by code_simp
  ultimately show ?thesis by blast
qed

section \<open>Properties of the line converter\<close>

lemma write_seq_append:
  "write_seq xs i (a @ b) = write_seq (write_seq xs i a) (i + length a) b"
  by (induction a arbitrary: xs i) simp_all

lemma write_seq_beyond: "length xs \<le> i \<Longrightarrow> write_seq xs i vs = xs"
  by (induction vs arbitrary: i) (simp_all add: list_update_beyond)

lemma length_write_seq [simp]: "length (write_seq xs i vs) = length xs"
  by (induction vs arbitrary: xs i) simp_all

lemma write_seq_eq:
  "i \<le> length xs \<Longrightarrow>
   write_seq xs i vs = take i xs @ take (length xs - i) vs @ drop (i + length vs) xs"
proof (induction vs arbitrary: xs i)
  case Nil
  then show ?case by simp
next
  case (Cons v vs)
  show ?case
  proof (cases "i < length xs")
    case True
    then have "Suc i \<le> length (xs[i := v])" by simp
    have "length xs - i = Suc (length xs - Suc i)" using True by simp
    with Cons.IH [OF \<open>Suc i \<le> length (xs[i := v])\<close>] True show ?thesis
      by (simp add: take_Suc_conv_app_nth)
  next
    case False
    with Cons.prems have "i = length xs" by simp
    then show ?thesis by (simp add: write_seq_beyond list_update_beyond)
  qed
qed

lemma write_seq_zeros:
  "write_seq (replicate n z) 0 vs = take n vs @ replicate (n - length vs) z"
  by (simp add: write_seq_eq)

lemma edge_values_empty: "stop \<le> j \<Longrightarrow> edge_values j stop = []"
  by (simp add: edge_values_def)

lemma edge_values_step: "j < stop \<Longrightarrow> edge_values j stop = j # (j + 1) # edge_values (j + 1) stop"
  by (simp add: edge_values_def upto_rec1 [of j])

lemma length_edge_values: "length (edge_values j stop) = 2 * nat (stop - j)"
proof (induction "nat (stop - j)" arbitrary: j)
  case 0
  then show ?case by (simp add: edge_values_empty)
next
  case (Suc n)
  then have "j < stop" "n = nat (stop - (j + 1))" by linarith+
  with Suc.hyps(1) [of "j + 1"] Suc.hyps(2) show ?case
    by (simp add: edge_values_step)
qed

lemma line_edges_loop_eq:
  "line_edges_loop ixs i j stop =
     (write_seq ixs i (map word_of_int (edge_values j (min stop 65535))),
      i + length (edge_values j (min stop 65535)))"
proof (induction ixs i j stop rule: line_edges_loop.induct)
  case (1 ixs i j stop)
  show ?case
  proof (cases "j < stop \<and> j < 65535")
    case True
    then have m: "j < min stop 65535" by simp
    from True "1.IH" show ?thesis
      by (subst line_edges_loop.simps) (simp add: edge_values_step [OF m])
  next
    case False
    then have "min stop 65535 \<le> j" by auto
    then have "edge_values j (min stop 65535) = []" by (rule edge_values_empty)
    with False show ?thesis
      by (subst line_edges_loop.simps) auto
  qed
qed

lemma featureToLine_geometries_step:
  assumes "drawingStylefromContext env g zoom = Some cs" "stroke cs = Some (w, c)"
    "indices g = first # others" "\<not> offset first > 65535"
  shows "featureToLine_geometries env options zoom (g # rest) st =
     featureToLine_geometries env options zoom rest
       (let stop = offset first + int (count first);
            ev = edge_values (offset first) (min (stop - 1) 65535);
            st1 = st \<lparr> ln_i := ln_i st + length ev,
                                    ln_indices := write_seq (ln_indices st) (ln_i st) (map word_of_int ev),
                                    ln_colors := fillColorArray (ln_colors st) (of_nat (count first))
                                                   (Color env c) (of_int (offset first)),
                                    ln_linewidth := w \<rparr>
        in (case (ln_batchIds st, batchId options) of
                                        (Some batchIds, Some f) \<Rightarrow>
                                          st1 \<lparr> ln_batchIds :=
                                                  Some (fillBatchIdArray
                                                          (f (properties g) (ln_featureId st))
                                                          batchIds (of_int (offset first)) (of_int stop)),
                                                ln_featureId := ln_featureId st + 1 \<rparr>
                                      | _ \<Rightarrow> st1))"
  apply (subst featureToLine_geometries.simps)
  apply (simp only: assms option.case prod.case list.case if_False Let_def line_edges_loop_eq)
  done

lemma featureToLine_geometries_eq:
  assumes "list_all (drawable env zoom) gs"
  shows "\<exists>st'. featureToLine_geometries env options zoom gs st = Inr st' \<and>
           ln_indices st' = write_seq (ln_indices st) (ln_i st)
                              (map word_of_int (emitted env zoom gs)) \<and>
           ln_i st' = ln_i st + length (emitted env zoom gs) \<and>
           ln_warnings st' = ln_warnings st @
              (if warned env zoom gs then [overflow_warning] else [])"
  using assms
proof (induction gs arbitrary: st)
  case Nil
  then show ?case by simp
next
  case (Cons g rest)
  then have rest: "list_all (drawable env zoom) rest" and dg: "drawable env zoom g" by simp_all
  show ?case
  proof (cases "drawingStylefromContext env g zoom")
    case None
    with Cons.IH [OF rest, of st] show ?thesis by simp
  next
    case (Some cs)
    with dg obtain w c first others where
      st: "stroke cs = Some (w, c)" and ix: "indices g = first # others"
      by (auto simp: drawable_def neq_Nil_conv)
    show ?thesis
    proof (cases "offset first > 65535")
      case True
      with Some st ix show ?thesis by simp
    next
      case False
      define stop where "stop = offset first + int (count first)"
      define ev where "ev = edge_values (offset first) (min (stop - 1) 65535)"
      define st1 where "st1 = st \<lparr> ln_i := ln_i st + length ev,
                                    ln_indices := write_seq (ln_indices st) (ln_i st) (map word_of_int ev),
                                    ln_colors := fillColorArray (ln_colors st) (of_nat (count first))
                                                   (Color env c) (of_int (offset first)),
                                    ln_linewidth := w \<rparr>"
      define st2 where "st2 = (case (ln_batchIds st, batchId options) of
                                        (Some batchIds, Some f) \<Rightarrow>
                                          st1 \<lparr> ln_batchIds :=
                                                  Some (fillBatchIdArray
                                                          (f (properties g) (ln_featureId st))
                                                          batchIds (of_int (offset first)) (of_int stop)),
                                                ln_featureId := ln_featureId st + 1 \<rparr>
                                      | _ \<Rightarrow> st1)"
      have step: "featureToLine_geometries env options zoom (g # rest) st =
                  featureToLine_geometries env options zoom rest st2"
        unfolding featureToLine_geometries_step [OF Some st ix False] st2_def st1_def ev_def stop_def
        by (simp only: Let_def)
      have f2: "ln_indices st2 = write_seq (ln_indices st) (ln_i st) (map word_of_int ev)"
        "ln_i st2 = ln_i st + length ev" "ln_warnings st2 = ln_warnings st"
        by (auto simp: st2_def st1_def split: option.splits)
      have em: "emitted env zoom (g # rest) = ev @ emitted env zoom rest"
        using Some ix False by (simp add: ev_def stop_def Let_def)
      have wn: "warned env zoom (g # rest) = warned env zoom rest"
        using Some ix False by simp
      from Cons.IH [OF rest, of st2] obtain st' where
        "featureToLine_geometries env options zoom rest st2 = Inr st'"
        "ln_indices st' = write_seq (ln_indices st2) (ln_i st2) (map word_of_int (emitted env zoom rest))"
        "ln_i st' = ln_i st2 + length (emitted env zoom rest)"
        "ln_warnings st' = ln_warnings st2 @ (if warned env zoom rest then [overflow_warning] else [])"
        by blast
      then show ?thesis
        unfolding step em wn f2 by (simp add: write_seq_append)
    qed
  qed
qed

lemma coordinatesToVertices_loop_Inr:
  "nrm \<noteq> None \<Longrightarrow> \<exists>t. coordinatesToVertices_loop ptsIn nrm target d i j endIn = Inr t"
proof (induction ptsIn nrm target d i j endIn rule: coordinatesToVertices_loop.induct)
  case (1 ptsIn nrm target d i j endIn)
  then obtain ns where ns: "nrm = Some ns" by auto
  show ?case
  proof (cases "i < endIn")
    case True
    with "1.IH" [OF True ns] "1.prems" ns show ?thesis
      by (subst coordinatesToVertices_loop.simps) simp
  next
    case False
    then show ?thesis by (subst coordinatesToVertices_loop.simps) simp
  qed
qed

lemma ToIndex_nonneg: "0 \<le> q \<Longrightarrow> ToIndex q = Inr (nat \<lfloor>q\<rfloor>)"
  by (simp add: ToIndex_def trunc_rat_def)

lemma new_batchIds_Inr: "0 \<le> q \<Longrightarrow> \<exists>b. new_batchIds options q = Inr b"
  by (simp add: new_batchIds_def ToIndex_nonneg split: option.splits)

text \<open>The multi-line case of \<open>featureToLine\<close>, when nothing throws.\<close>

lemma featureToLine_multi:
  assumes G: "1 < length (geometries f)"
    and dr: "list_all (drawable env zoom) (geometries f)"
    and nt: "amin (altitude f) = Infinity \<or> normals f \<noteq> None"
    and cap: "ToIndex ((of_nat (length (vertices f)) / 3 - of_nat (length (geometries f))) * 2) = Inr n"
  shows "\<exists>b w. featureToLine env f options zoom =
           Inr (Some (LineSegments b w),
                if warned env zoom (geometries f) then [overflow_warning] else []) \<and>
         index_attr b =
           Some (take n (map word_of_int (emitted env zoom (geometries f))) @
                 replicate (n - length (emitted env zoom (geometries f))) 0)"
proof -
  obtain bids where b: "new_batchIds options (of_nat (length (vertices f)) / 3) = Inr bids"
    using new_batchIds_Inr [of "of_nat (length (vertices f)) / 3" options] by auto
  obtain verts where v: "(if amin (altitude f) \<noteq> Infinity then
                      coordinatesToVertices (vertices f) (normals f)
                        (replicate (length (vertices f)) (Some 0))
                        (number_of_ext (amin (altitude f))) (Some 0) 0
                        (of_nat (length (vertices f)) / 3) 0
                    else Inr (Float32Array_from (vertices f))) = Inr verts"
  proof (cases "amin (altitude f) = Infinity")
    case True
    then show ?thesis using that by simp
  next
    case False
    with nt have "normals f \<noteq> None" by simp
    from coordinatesToVertices_loop_Inr [OF this]
    obtain t where "coordinatesToVertices (vertices f) (normals f)
                        (replicate (length (vertices f)) (Some 0))
                        (number_of_ext (amin (altitude f))) (Some 0) 0
                        (of_nat (length (vertices f)) / 3) 0 = Inr t"
      unfolding coordinatesToVertices_def by blast
    with False that show ?thesis by simp
  qed
  let ?st0 = "\<lparr> ln_i = 0, ln_indices = replicate n 0,
                ln_colors = replicate (length (vertices f)) 0, ln_batchIds = bids, ln_featureId = 0,
                ln_linewidth = Some 1, ln_warnings = [] \<rparr>"
  from featureToLine_geometries_eq [OF dr, of options ?st0] obtain st' where
    r: "featureToLine_geometries env options zoom (geometries f) ?st0 = Inr st'"
    and ix: "ln_indices st' = write_seq (replicate n 0) 0 (map word_of_int (emitted env zoom (geometries f)))"
    and wn: "ln_warnings st' = (if warned env zoom (geometries f) then [overflow_warning] else [])"
    by auto
  have "featureToLine env f options zoom =
          Inr (Some (LineSegments \<lparr> position = verts, color_attr = Some (ln_colors st'),
                                              batchId_attr = ln_batchIds st',
                                              index_attr = Some (ln_indices st') \<rparr>
                                            (ln_linewidth st')),
                                    ln_warnings st')"
    unfolding featureToLine_def Let_def b v
    using G cap r by (simp del: featureToLine_geometries.simps)
  then show ?thesis
    using ix wn by (simp add: write_seq_zeros)
qed

lemma line_feature_fields:
  "geometries (line_feature gs n) = gs"
  "length (vertices (line_feature gs n)) = 3 * n"
  "amin (altitude (line_feature gs n)) = Infinity"
  by (simp_all add: line_feature_def empty_altitude_def)

lemma drawable_example: "drawable example_env zoom (line_geometry s n)"
  by (simp add: drawable_def example_env_def line_geometry_def)

lemma emitted_example_two:
  "s1 \<le> 65535 \<Longrightarrow> s2 \<le> 65535 \<Longrightarrow>
   emitted example_env zoom [line_geometry s1 n1, line_geometry s2 n2] =
     edge_values s1 (min (s1 + int n1 - 1) 65535) @ edge_values s2 (min (s2 + int n2 - 1) 65535)"
  by (simp add: example_env_def line_geometry_def Let_def)

lemma emitted_example_break:
  "s1 \<le> 65535 \<Longrightarrow> 65535 < s2 \<Longrightarrow>
   emitted example_env zoom [line_geometry s1 n1, line_geometry s2 n2] =
     edge_values s1 (min (s1 + int n1 - 1) 65535)"
  "s1 \<le> 65535 \<Longrightarrow> 65535 < s2 \<Longrightarrow>
   warned example_env zoom [line_geometry s1 n1, line_geometry s2 n2]"
  by (simp_all add: example_env_def line_geometry_def Let_def)

lemma warned_example_two:
  "s1 \<le> 65535 \<Longrightarrow> s2 \<le> 65535 \<Longrightarrow>
   \<not> warned example_env zoom [line_geometry s1 n1, line_geometry s2 n2]"
  by (simp add: example_env_def line_geometry_def)

lemma line_feature_two:
  assumes that: "g1 = line_geometry s1 n1" "g2 = line_geometry s2 n2" and cap: "2 \<le> n"
  shows "\<exists>b w. featureToLine example_env (line_feature [g1, g2] n) options zoom =
           Inr (Some (LineSegments b w),
                if warned example_env zoom [g1, g2] then [overflow_warning] else []) \<and>
         index_attr b =
           Some (take (2 * (n - 2)) (map word_of_int (emitted example_env zoom [g1, g2])) @
                 replicate (2 * (n - 2) - length (emitted example_env zoom [g1, g2])) 0)"
proof -
  let ?f = "line_feature [g1, g2] n"
  have G: "1 < length (geometries ?f)" by (simp add: line_feature_fields)
  have dr: "list_all (drawable example_env zoom) (geometries ?f)"
    using that by (simp add: line_feature_fields drawable_example)
  have nt: "amin (altitude ?f) = Infinity \<or> normals ?f \<noteq> None"
    by (simp add: line_feature_fields)
  have "(of_nat (length (vertices ?f)) / 3 - of_nat (length (geometries ?f))) * 2
          = (of_nat (2 * (n - 2)) :: rat)"
    using cap by (simp add: line_feature_fields of_nat_diff algebra_simps)
  then have c: "ToIndex ((of_nat (length (vertices ?f)) / 3 - of_nat (length (geometries ?f))) * 2)
          = Inr (2 * (n - 2))"
    by (simp add: ToIndex_nonneg del: of_nat_mult)
  from featureToLine_multi [OF G dr nt c, of options] show ?thesis
    by (simp add: line_feature_fields)
qed


lemma set_edge_values: "v \<in> set (edge_values j stop) \<Longrightarrow> j \<le> v \<and> v \<le> stop"
  by (auto simp: edge_values_def)

lemma emitted_le_limit: "v \<in> set (emitted env zoom gs) \<Longrightarrow> v \<le> 65535"
proof (induction gs)
  case Nil
  then show ?case by simp
next
  case (Cons g rest)
  then show ?case
    by (auto simp: Let_def split: option.splits if_splits dest!: set_edge_values)
qed

lemma emitted_nonneg:
  "list_all (\<lambda>g. 0 \<le> first_offset g) gs \<Longrightarrow> v \<in> set (emitted env zoom gs) \<Longrightarrow> 0 \<le> v"
proof (induction gs)
  case Nil
  then show ?case by simp
next
  case (Cons g rest)
  then show ?case
    by (auto simp: Let_def first_offset_def split: option.splits if_splits dest!: set_edge_values)
qed

lemma uint_word16_of_int: "0 \<le> v \<Longrightarrow> v \<le> 65535 \<Longrightarrow> uint (word_of_int v :: 16 word) = v"
  by (simp add: uint_word_of_int_eq take_bit_int_eq_self)

lemma map_uint_word_of_int:
  "\<forall>v \<in> set vs. 0 \<le> v \<and> v \<le> 65535 \<Longrightarrow> map uint (map word_of_int vs :: 16 word list) = vs"
  by (induction vs) (simp_all add: uint_word16_of_int)

text \<open>Geometries with a style, at least one vertex each, inside the 16-bit range.\<close>

lemma emitted_full_conj:
  assumes "\<forall>g \<in> set gs. drawingStylefromContext env g zoom \<noteq> None \<and> 1 \<le> first_count g \<and>
             first_offset g + int (first_count g) \<le> 65536"
  shows "emitted env zoom gs =
           concat (map (\<lambda>g. edge_values (first_offset g) (first_offset g + int (first_count g) - 1)) gs)
         \<and> \<not> warned env zoom gs
         \<and> length (emitted env zoom gs) = 2 * (sum_list (map first_count gs) - length gs)
         \<and> length gs \<le> sum_list (map first_count gs)"
  using assms
proof (induction gs)
  case Nil
  show ?case by simp
next
  case (Cons g rest)
  from Cons.prems obtain cs where cs: "drawingStylefromContext env g zoom = Some cs"
    and c1: "1 \<le> first_count g" and lim: "first_offset g + int (first_count g) \<le> 65536"
    and rest: "\<forall>g \<in> set rest. drawingStylefromContext env g zoom \<noteq> None \<and> 1 \<le> first_count g \<and>
             first_offset g + int (first_count g) \<le> 65536"
    by auto
  from Cons.IH [OF rest] have ih1: "emitted env zoom rest =
           concat (map (\<lambda>g. edge_values (first_offset g) (first_offset g + int (first_count g) - 1)) rest)"
    and ih2: "\<not> warned env zoom rest"
    and ih3: "length (emitted env zoom rest) = 2 * (sum_list (map first_count rest) - length rest)"
    and ih4: "length rest \<le> sum_list (map first_count rest)"
    by blast+
  have le: "\<not> first_offset g > 65535" using c1 lim by linarith
  have mn: "min (first_offset g + int (first_count g) - 1) 65535 = first_offset g + int (first_count g) - 1"
    using lim by simp
  have e: "emitted env zoom (g # rest) =
            edge_values (first_offset g) (first_offset g + int (first_count g) - 1) @ emitted env zoom rest"
    using cs le mn by (simp add: Let_def first_offset_def first_count_def)
  have 1: "emitted env zoom (g # rest) =
           concat (map (\<lambda>g. edge_values (first_offset g) (first_offset g + int (first_count g) - 1)) (g # rest))"
    using e ih1 by simp
  have 2: "\<not> warned env zoom (g # rest)"
    using cs le ih2 by (simp add: first_offset_def)
  have 4: "length (g # rest) \<le> sum_list (map first_count (g # rest))"
    using c1 ih4 by simp
  have 3: "length (emitted env zoom (g # rest)) = 2 * (sum_list (map first_count (g # rest)) - length (g # rest))"
    unfolding e using ih3 ih4 c1 by (simp add: length_edge_values)
  from 1 2 3 4 show ?case by blast
qed

lemmas emitted_full = emitted_full_conj [THEN conjunct1]
  emitted_full_conj [THEN conjunct2, THEN conjunct1]
  emitted_full_conj [THEN conjunct2, THEN conjunct2, THEN conjunct1]
  emitted_full_conj [THEN conjunct2, THEN conjunct2, THEN conjunct2]

text \<open>
  Claim C2, as amended.  Take a 3D Feature, one with a normals buffer and a vertex buffer
  of three values per vertex, that holds two or more geometries.  Every geometry has a
  drawing style with a stroke and a first range \<open>[start, start + count)\<close> of at least
  one vertex, with \<open>0 \<le> start\<close> and \<open>start + count \<le> 0x10000\<close>, and the counts of these
  first ranges add up to the number of vertices in the buffer.  Then \<^verbatim>\<open>featureToLine\<close>
  returns line segments, logs nothing, and the index buffer holds, geometry after
  geometry, exactly the edges \<open>(i, i + 1)\<close> for \<open>i\<close> from \<open>start\<close> up to
  \<open>start + count - 2\<close>: no edge joins two geometries.
\<close>

theorem line_edges:
  assumes G: "1 < length (geometries f)"
    and ranges: "\<forall>g \<in> set (geometries f). indices g \<noteq> [] \<and> 1 \<le> first_count g \<and>
                   0 \<le> first_offset g \<and> first_offset g + int (first_count g) \<le> 65536"
    and styled: "\<forall>g \<in> set (geometries f). \<exists>cs. drawingStylefromContext env g zoom = Some cs \<and>
                   stroke cs \<noteq> None"
    and full: "3 * sum_list (map first_count (geometries f)) = length (vertices f)"
    and nrm: "normals f \<noteq> None"
  shows "\<exists>b w ix. featureToLine env f options zoom = Inr (Some (LineSegments b w), []) \<and>
           index_attr b = Some ix \<and>
           map uint ix =
             concat (map (\<lambda>g. concat (map (\<lambda>i. [i, i + 1])
                                 [first_offset g .. first_offset g + int (first_count g) - 2]))
                      (geometries f))"
proof -
  let ?gs = "geometries f"
  have dr: "list_all (drawable env zoom) ?gs"
    using ranges styled by (fastforce simp: list_all_iff drawable_def)
  have h: "\<forall>g \<in> set ?gs. drawingStylefromContext env g zoom \<noteq> None \<and> 1 \<le> first_count g \<and>
             first_offset g + int (first_count g) \<le> 65536"
    using ranges styled by fastforce
  note em = emitted_full [OF h]
  have nt: "amin (altitude f) = Infinity \<or> normals f \<noteq> None" using nrm by simp
  have "(of_nat (length (vertices f)) / 3 - of_nat (length ?gs)) * 2
          = (of_nat (2 * (sum_list (map first_count ?gs) - length ?gs)) :: rat)"
    using em(4) by (simp add: full [symmetric] of_nat_diff algebra_simps)
  then have cap: "ToIndex ((of_nat (length (vertices f)) / 3 - of_nat (length ?gs)) * 2)
          = Inr (length (emitted env zoom ?gs))"
    by (simp add: ToIndex_nonneg em(3) del: of_nat_mult)
  from featureToLine_multi [OF G dr nt cap, of options] obtain b w where
    r: "featureToLine env f options zoom = Inr (Some (LineSegments b w), [])"
    and ix: "index_attr b = Some (map word_of_int (emitted env zoom ?gs))"
    using em(2) by auto
  have bounds: "\<forall>v \<in> set (emitted env zoom ?gs). 0 \<le> v \<and> v \<le> 65535"
  proof
    fix v assume v: "v \<in> set (emitted env zoom ?gs)"
    have "list_all (\<lambda>g. 0 \<le> first_offset g) ?gs" using ranges by (simp add: list_all_iff)
    from emitted_nonneg [OF this v] emitted_le_limit [OF v] show "0 \<le> v \<and> v \<le> 65535" by simp
  qed
  have "map uint (map word_of_int (emitted env zoom ?gs) :: 16 word list) = emitted env zoom ?gs"
    using bounds by (rule map_uint_word_of_int)
  also have "\<dots> = concat (map (\<lambda>g. concat (map (\<lambda>i. [i, i + 1])
                                 [first_offset g .. first_offset g + int (first_count g) - 2])) ?gs)"
    unfolding em(1) edge_values_def by (simp add: algebra_simps)
  finally show ?thesis using r ix by blast
qed

text \<open>Two disjoint lines of three points each: four edges.\<close>

theorem line_edges_witness:
  "1 < length (geometries example_two_lines) \<and>
   map first_offset (geometries example_two_lines) = [0, 3] \<and>
   map first_count (geometries example_two_lines) = [3, 3] \<and>
   length (vertices example_two_lines) = 3 * (3 + 3) \<and>
   normals example_two_lines \<noteq> None \<and>
   line_result_warnings (featureToLine example_env example_two_lines example_convert_options (Some 10))
     = Some [] \<and>
   map_option (map uint)
     (line_result_index (featureToLine example_env example_two_lines example_convert_options (Some 10)))
     = Some [0, 1, 1, 2, 3, 4, 4, 5]"
proof -
  have G: "1 < length (geometries example_two_lines)"
    by (simp add: example_two_lines_def line_feature_fields)
  have ranges: "\<forall>g \<in> set (geometries example_two_lines). indices g \<noteq> [] \<and> 1 \<le> first_count g \<and>
                   0 \<le> first_offset g \<and> first_offset g + int (first_count g) \<le> 65536"
    by (simp add: example_two_lines_def line_feature_fields line_geometry_def first_count_def
        first_offset_def)
  have styled: "\<forall>g \<in> set (geometries example_two_lines).
                   \<exists>cs. drawingStylefromContext example_env g (Some 10) = Some cs \<and> stroke cs \<noteq> None"
    by (simp add: example_env_def)
  have full: "3 * sum_list (map first_count (geometries example_two_lines))
                = length (vertices example_two_lines)"
    by (simp add: example_two_lines_def line_feature_fields line_geometry_def first_count_def)
  have nrm: "normals example_two_lines \<noteq> None"
    by (simp add: example_two_lines_def line_feature_def)
  have fo: "map first_offset (geometries example_two_lines) = [0, 3]"
    and fc: "map first_count (geometries example_two_lines) = [3, 3]"
    by (simp_all add: example_two_lines_def line_feature_fields line_geometry_def first_count_def
        first_offset_def)
  have rhs: "concat (map (\<lambda>g. concat (map (\<lambda>i. [i, i + 1])
                                 [first_offset g .. first_offset g + int (first_count g) - 2]))
                      (geometries example_two_lines)) = [0, 1, 1, 2, 3, 4, 4, 5]"
    by code_simp
  from line_edges [OF G ranges styled full nrm, of example_convert_options]
  obtain b w ix where
    "featureToLine example_env example_two_lines example_convert_options (Some 10)
       = Inr (Some (LineSegments b w), [])"
    "index_attr b = Some ix" "map uint ix = [0, 1, 1, 2, 3, 4, 4, 5]"
    unfolding rhs by (elim exE conjE)
  then have "line_result_warnings (featureToLine example_env example_two_lines example_convert_options (Some 10))
     = Some []"
    and "map_option (map uint)
     (line_result_index (featureToLine example_env example_two_lines example_convert_options (Some 10)))
     = Some [0, 1, 1, 2, 3, 4, 4, 5]"
    by (simp_all add: line_result_warnings_def line_result_index_def)
  with G fo fc full nrm show ?thesis by simp
qed

text \<open>
  Claim C2 as stated fails at four Features of two or more geometries.
  \<^item> Past the 16-bit limit: a geometry of 65536 vertices and then one of 3 vertices,
    starting at vertex 65536.  The second geometry gets no edge: the loop logs the
    warning and stops, and the four slots left for its two edges stay zero.
  \<^item> Two values per vertex: the parser reads two lines of three points into a Feature of
    a 2d collection.  The converter counts three values per vertex, so the index buffer
    has room for two edges only, and the second line gets none.
  \<^item> An empty line: the parser reads an empty line and two lines of three points into a
    3D Feature.  The index buffer is sized as if every geometry had a vertex, so the last
    edge, \<open>(4, 5)\<close>, does not fit.
  \<^item> No drawing style: every geometry is skipped, and the index buffer keeps its zeros.
\<close>

theorem line_edges_counterexample:
  "line_result_warnings (featureToLine example_env example_over_limit example_convert_options (Some 10))
     = Some [overflow_warning] \<and>
   line_result_index (featureToLine example_env example_over_limit example_convert_options (Some 10))
     = Some (map word_of_int (edge_values 0 65535) @ [0, 0, 0, 0]) \<and>
   length (edge_values 0 65535) = 2 * 65535 \<and>
   map first_offset (geometries example_over_limit) = [0, 65536] \<and>
   map first_count (geometries example_over_limit) = [65536, 3] \<and>
   new_Feature LINE (FeatureCollection_view ''EPSG:4326'' ''2d'') = Inr example_line2d \<and>
   populate None example_two_lines_json example_line2d = Inr example_two_lines_2d \<and>
   line_result_warnings (featureToLine example_env example_two_lines_2d example_convert_options (Some 10))
     = Some [] \<and>
   line_result_index (featureToLine example_env example_two_lines_2d example_convert_options (Some 10))
     = Some [0, 1, 1, 2] \<and>
   new_Feature LINE (FeatureCollection_view ''EPSG:4326'' ''3d'') = Inr example_line3d \<and>
   populate None example_empty_part_json example_line3d = Inr example_empty_part \<and>
   line_result_warnings (featureToLine example_env example_empty_part example_convert_options (Some 10))
     = Some [] \<and>
   line_result_index (featureToLine example_env example_empty_part example_convert_options (Some 10))
     = Some [0, 1, 1, 2, 3, 4] \<and>
   line_result_warnings (featureToLine example_env_no_style example_two_lines example_convert_options (Some 10))
     = Some [] \<and>
   line_result_index (featureToLine example_env_no_style example_two_lines example_convert_options (Some 10))
     = Some [0, 0, 0, 0, 0, 0, 0, 0]"
proof -
  have e: "emitted example_env (Some 10) [line_geometry 0 65536, line_geometry 65536 3]
             = edge_values 0 65535"
    and w: "warned example_env (Some 10) [line_geometry 0 65536, line_geometry 65536 3]"
    using emitted_example_break [of 0 65536 "Some 10" 65536 3] by simp_all
  have l: "length (edge_values 0 65535) = 131070" by (simp add: length_edge_values)
  from line_feature_two [OF refl refl, of 65539 0 65536 65536 3 example_convert_options "Some 10"]
  obtain b w' where
    r: "featureToLine example_env example_over_limit example_convert_options (Some 10) =
           Inr (Some (LineSegments b w'), [overflow_warning])"
    and ix: "index_attr b = Some (map word_of_int (edge_values 0 65535) @ replicate 4 0)"
    unfolding e example_over_limit_def using w l by auto
  have "replicate 4 (0 :: 16 word) = [0, 0, 0, 0]" by (simp add: numeral_eq_Suc)
  with r ix l have limit:
    "line_result_warnings (featureToLine example_env example_over_limit example_convert_options (Some 10))
       = Some [overflow_warning] \<and>
     line_result_index (featureToLine example_env example_over_limit example_convert_options (Some 10))
       = Some (map word_of_int (edge_values 0 65535) @ [0, 0, 0, 0]) \<and>
     length (edge_values 0 65535) = 2 * 65535 \<and>
     map first_offset (geometries example_over_limit) = [0, 65536] \<and>
     map first_count (geometries example_over_limit) = [65536, 3]"
    by (simp add: line_result_warnings_def line_result_index_def example_over_limit_def
        line_feature_fields first_offset_def first_count_def line_geometry_def)
  have c2: "new_Feature LINE (FeatureCollection_view ''EPSG:4326'' ''2d'') = Inr example_line2d"
    by code_simp
  have p2: "populate None example_two_lines_json example_line2d = Inr example_two_lines_2d"
    by code_simp
  have w2: "line_result_warnings
              (featureToLine example_env example_two_lines_2d example_convert_options (Some 10))
            = Some []"
    by code_simp
  have i2: "line_result_index
              (featureToLine example_env example_two_lines_2d example_convert_options (Some 10))
            = Some [0, 1, 1, 2]"
    by code_simp
  have c3: "new_Feature LINE (FeatureCollection_view ''EPSG:4326'' ''3d'') = Inr example_line3d"
    by code_simp
  have p3: "populate None example_empty_part_json example_line3d = Inr example_empty_part"
    by code_simp
  have w3: "line_result_warnings
              (featureToLine example_env example_empty_part example_convert_options (Some 10))
            = Some []"
    by code_simp
  have i3: "line_result_index
              (featureToLine example_env example_empty_part example_convert_options (Some 10))
            = Some [0, 1, 1, 2, 3, 4]"
    by code_simp
  have w4: "line_result_warnings
              (featureToLine example_env_no_style example_two_lines example_convert_options (Some 10))
            = Some []"
    by code_simp
  have i4: "line_result_index
              (featureToLine example_env_no_style example_two_lines example_convert_options (Some 10))
            = Some [0, 0, 0, 0, 0, 0, 0, 0]"
    by code_simp
  from limit c2 p2 w2 i2 c3 p3 w3 i3 w4 i4 show ?thesis by blast
qed

text \<open>
  Claim C3 at the input where the code departs from it.  The Feature holds a geometry of
  3 vertices and then one of 65536 vertices, starting at vertex 3, whose last three edges
  would need an index of \<^verbatim>\<open>0xffff\<close> or more as their first vertex.  The inner loop stops
  without a warning, no geometry follows that could log one, and the result is the partial
  index buffer with an empty list of warnings.
\<close>

theorem line_overflow_silent:
  "line_result_warnings (featureToLine example_env example_silent example_convert_options (Some 10))
     = Some [] \<and>
   line_result_index (featureToLine example_env example_silent example_convert_options (Some 10))
     = Some (map word_of_int (edge_values 0 2 @ edge_values 3 65535) @ [0, 0, 0, 0, 0, 0]) \<and>
   map first_offset (geometries example_silent) = [0, 3] \<and>
   map first_count (geometries example_silent) = [3, 65536] \<and>
   map lost_edges (geometries example_silent) = [0, 3]"
proof -
  have e: "emitted example_env (Some 10) [line_geometry 0 3, line_geometry 3 65536]
             = edge_values 0 2 @ edge_values 3 65535"
    and w: "\<not> warned example_env (Some 10) [line_geometry 0 3, line_geometry 3 65536]"
    using emitted_example_two [of 0 3 "Some 10" 3 65536] warned_example_two [of 0 3 "Some 10" 3 65536]
    by simp_all
  have l: "length (edge_values 0 2 @ edge_values 3 65535) = 131068" by (simp add: length_edge_values)
  from line_feature_two [OF refl refl, of 65539 0 3 3 65536 example_convert_options "Some 10"]
  obtain b w' where
    r: "featureToLine example_env example_silent example_convert_options (Some 10) =
           Inr (Some (LineSegments b w'), [])"
    and ix: "index_attr b = Some (map word_of_int (edge_values 0 2 @ edge_values 3 65535) @ replicate 6 0)"
    unfolding e example_silent_def using w l by auto
  have "replicate 6 (0 :: 16 word) = [0, 0, 0, 0, 0, 0]" by (simp add: numeral_eq_Suc)
  with r ix show ?thesis
    by (simp add: line_result_warnings_def line_result_index_def example_silent_def
        line_feature_fields first_offset_def first_count_def line_geometry_def lost_edges_def)
qed

section \<open>Properties of the dispatch and of the pipeline\<close>

text \<open>The kind of object each converter returns.\<close>

lemma featureToLine_kind:
  assumes "featureToLine env f options zoom = Inr (Some m, ws)"
  shows "if 1 < length (geometries f) then \<exists>b w. m = LineSegments b w else \<exists>b. m = Line b"
  using assms unfolding featureToLine_def Let_def
  by (auto simp del: featureToLine_geometries.simps
           split: sum.splits option.splits list.splits if_splits prod.splits)

lemma featureToLine_nothing:
  assumes "featureToLine env f options zoom = Inr (None, ws)"
  shows "length (geometries f) = 1 \<and> drawingStylefromContext env (hd (geometries f)) zoom = None"
  using assms unfolding featureToLine_def Let_def
  by (auto simp del: featureToLine_geometries.simps
           split: sum.splits option.splits list.splits if_splits prod.splits)

lemma featureToPolygon_kind:
  assumes "featureToPolygon env f options zoom = Inr (m, ws)"
  shows "\<exists>b. m = Mesh b"
  using assms unfolding featureToPolygon_def Let_def
  by (auto simp del: featureToPolygon_geometries.simps
           split: sum.splits option.splits list.splits if_splits prod.splits)

lemma featureToExtrudedPolygon_kind:
  assumes "featureToExtrudedPolygon env s f options = Inr (m, s')"
  shows "\<exists>b. m = Mesh b"
  using assms unfolding featureToExtrudedPolygon_def Let_def
  by (auto simp del: featureToExtrudedPolygon_geometries.simps
           split: sum.splits option.splits list.splits if_splits prod.splits)








text \<open>
  Claim C7, as amended.  \<^verbatim>\<open>featureToMesh\<close> dispatches on the type of the Feature.
  \<^item> \<^verbatim>\<open>POINT\<close>: an empty mesh without buffers, whatever the Feature holds.
  \<^item> \<^verbatim>\<open>LINE\<close>: what \<^verbatim>\<open>featureToLine\<close> returns, which is a line strip for a Feature of
    one geometry and line segments for a Feature of more; an empty mesh when
    \<^verbatim>\<open>featureToLine\<close> returns nothing, which it does only for a single geometry without a
    drawing style.
  \<^item> \<^verbatim>\<open>POLYGON\<close>: the mesh of \<^verbatim>\<open>featureToExtrudedPolygon\<close> when the extrusion height of the
    fill style is truthy, the mesh of \<^verbatim>\<open>featureToPolygon\<close> when it is not.
  \<^item> Any other type: an empty mesh.

  An exception of the converter is the exception of \<^verbatim>\<open>featureToMesh\<close>.
\<close>

theorem dispatch_by_type:
  "(ftype f = POINT \<longrightarrow> featureToMesh env s f options zoom = Inr (EmptyMesh, [], s)) \<and>
   (ftype f = LINE \<longrightarrow>
      (case featureToLine env f options zoom of
         Inl e \<Rightarrow> featureToMesh env s f options zoom = Inl e
       | Inr (None, ws) \<Rightarrow>
           featureToMesh env s f options zoom = Inr (EmptyMesh, ws, s) \<and>
           length (geometries f) = 1 \<and>
           drawingStylefromContext env (hd (geometries f)) zoom = None
       | Inr (Some m, ws) \<Rightarrow>
           featureToMesh env s f options zoom = Inr (m, ws, s) \<and>
           (if 1 < length (geometries f) then \<exists>b w. m = LineSegments b w else \<exists>b. m = Line b))) \<and>
   (ftype f = POLYGON \<and> extrusion_height env \<noteq> NoExtrusion \<longrightarrow>
      (case featureToExtrudedPolygon env s f options of
         Inl e \<Rightarrow> featureToMesh env s f options zoom = Inl e
       | Inr (m, s') \<Rightarrow>
           featureToMesh env s f options zoom = Inr (m, [], s') \<and> (\<exists>b. m = Mesh b))) \<and>
   (ftype f = POLYGON \<and> extrusion_height env = NoExtrusion \<longrightarrow>
      (case featureToPolygon env f options zoom of
         Inl e \<Rightarrow> featureToMesh env s f options zoom = Inl e
       | Inr (m, ws) \<Rightarrow>
           featureToMesh env s f options zoom = Inr (m, ws, s) \<and> (\<exists>b. m = Mesh b))) \<and>
   (ftype f \<noteq> POINT \<and> ftype f \<noteq> LINE \<and> ftype f \<noteq> POLYGON \<longrightarrow>
      featureToMesh env s f options zoom = Inr (EmptyMesh, [], s))"
proof (intro conjI impI)
  assume "ftype f = POINT"
  then show "featureToMesh env s f options zoom = Inr (EmptyMesh, [], s)"
    by (simp add: featureToMesh_def)
next
  assume t: "ftype f = LINE"
  then have np: "ftype f \<noteq> POINT" by (simp add: POINT_def LINE_def)
  show "case featureToLine env f options zoom of
         Inl e \<Rightarrow> featureToMesh env s f options zoom = Inl e
       | Inr (None, ws) \<Rightarrow>
           featureToMesh env s f options zoom = Inr (EmptyMesh, ws, s) \<and>
           length (geometries f) = 1 \<and>
           drawingStylefromContext env (hd (geometries f)) zoom = None
       | Inr (Some m, ws) \<Rightarrow>
           featureToMesh env s f options zoom = Inr (m, ws, s) \<and>
           (if 1 < length (geometries f) then \<exists>b w. m = LineSegments b w else \<exists>b. m = Line b)"
  proof (cases "featureToLine env f options zoom")
    case (Inl e)
    then show ?thesis using t np by (simp add: featureToMesh_def)
  next
    case (Inr r)
    obtain obj ws where r: "r = (obj, ws)" by (cases r)
    show ?thesis
    proof (cases obj)
      case None
      with Inr r featureToLine_nothing [of env f options zoom ws] t np show ?thesis
        by (simp add: featureToMesh_def)
    next
      case (Some m)
      with Inr r featureToLine_kind [of env f options zoom m ws] t np show ?thesis
        by (simp add: featureToMesh_def)
    qed
  qed
next
  assume t: "ftype f = POLYGON \<and> extrusion_height env \<noteq> NoExtrusion"
  then have np: "ftype f \<noteq> POINT" "ftype f \<noteq> LINE" by (simp_all add: POINT_def LINE_def POLYGON_def)
  show "case featureToExtrudedPolygon env s f options of
         Inl e \<Rightarrow> featureToMesh env s f options zoom = Inl e
       | Inr (m, s') \<Rightarrow>
           featureToMesh env s f options zoom = Inr (m, [], s') \<and> (\<exists>b. m = Mesh b)"
  proof (cases "featureToExtrudedPolygon env s f options")
    case (Inl e)
    then show ?thesis using t np by (simp add: featureToMesh_def)
  next
    case (Inr r)
    obtain m s' where r: "r = (m, s')" by (cases r)
    with Inr featureToExtrudedPolygon_kind [of env s f options m s'] t np show ?thesis
      by (simp add: featureToMesh_def)
  qed
next
  assume t: "ftype f = POLYGON \<and> extrusion_height env = NoExtrusion"
  then have np: "ftype f \<noteq> POINT" "ftype f \<noteq> LINE" by (simp_all add: POINT_def LINE_def POLYGON_def)
  show "case featureToPolygon env f options zoom of
         Inl e \<Rightarrow> featureToMesh env s f options zoom = Inl e
       | Inr (m, ws) \<Rightarrow>
           featureToMesh env s f options zoom = Inr (m, ws, s) \<and> (\<exists>b. m = Mesh b)"
  proof (cases "featureToPolygon env f options zoom")
    case (Inl e)
    then show ?thesis using t np by (simp add: featureToMesh_def)
  next
    case (Inr r)
    obtain m ws where r: "r = (m, ws)" by (cases r)
    with Inr featureToPolygon_kind [of env f options zoom m ws] t np show ?thesis
      by (simp add: featureToMesh_def)
  qed
next
  assume "ftype f \<noteq> POINT \<and> ftype f \<noteq> LINE \<and> ftype f \<noteq> POLYGON"
  then show "featureToMesh env s f options zoom = Inr (EmptyMesh, [], s)"
    by (simp add: featureToMesh_def)
qed

text \<open>
  One Feature of each type: a point, two lines of three points, and the unit square with
  and without an extrusion height.
\<close>

theorem dispatch_by_type_witness:
  "ftype example_point = POINT \<and>
   featureToMesh example_env black example_point example_convert_options (Some 10)
     = Inr (EmptyMesh, [], black) \<and>
   ftype example_two_lines = LINE \<and>
   featureToMesh example_env black example_two_lines example_convert_options (Some 10)
     = Inr (LineSegments
             \<lparr> position = replicate 18 (Some 0),
               color_attr = Some [255, 0, 0, 255, 0, 0, 255, 0, 0, 255, 0, 0, 255, 0, 0, 255, 0, 0],
               batchId_attr = Some [0, 0, 0, 1, 1, 1],
               index_attr = Some [0, 1, 1, 2, 3, 4, 4, 5] \<rparr> (Some 2), [], black) \<and>
   ftype example_square = POLYGON \<and>
   extrusion_height example_extrusion_env \<noteq> NoExtrusion \<and>
   featureToMesh example_extrusion_env black example_square example_convert_options (Some 10)
     = Inr (Mesh
       \<lparr> position =
          [Some 0, Some 0, Some 0, Some 1, Some 0, Some 0, Some 1, Some 1,
           Some 0, Some 0, Some 1, Some 0, Some 0, Some 0, Some 0, Some 0,
           Some 0, Some 10, Some 1, Some 0, Some 10, Some 1, Some 1,
           Some 10, Some 0, Some 1, Some 10, Some 0, Some 0, Some 10],
         color_attr =
           Some [127, 63, 0, 127, 63, 0, 127, 63, 0, 127, 63, 0, 127, 63, 0,
                 255, 127, 0, 255, 127, 0, 255, 127, 0, 255, 127, 0, 255, 127, 0],
         batchId_attr = Some [0, 0, 0, 0, 0, 0, 0, 0, 0, 0],
         index_attr =
           Some [8, 5, 6, 6, 7, 8, 5, 0, 6, 6, 0, 1, 6, 1, 7, 7, 1, 2, 7, 2, 8,
                 8, 2, 3, 8, 3, 9, 9, 3, 4] \<rparr>, [], \<lparr> red = Some (1 / 2), green = Some (1 / 4), blue = Some 0 \<rparr>) \<and>
   extrusion_height example_flat_env = NoExtrusion \<and>
   featureToMesh example_flat_env black example_square example_convert_options (Some 10)
     = Inr (Mesh
       \<lparr> position =
          [Some 0, Some 0, Some 0, Some 1, Some 0, Some 0, Some 1, Some 1,
           Some 0, Some 0, Some 1, Some 0, Some 0, Some 0, Some 0],
         color_attr = Some [255, 0, 0, 255, 0, 0, 255, 0, 0, 255, 0, 0, 255, 0, 0],
         batchId_attr = Some [0, 0, 0, 0, 0],
         index_attr = Some [3, 0, 1, 1, 2, 3] \<rparr>, [], black)"
proof -
  have t1: "ftype example_point = POINT" by code_simp
  have t2: "ftype example_two_lines = LINE" by code_simp
  have t3: "ftype example_square = POLYGON" by code_simp
  have h3: "extrusion_height example_extrusion_env \<noteq> NoExtrusion"
    by (simp add: example_extrusion_env_def)
  have h4: "extrusion_height example_flat_env = NoExtrusion"
    by (simp add: example_flat_env_def example_env_def)
  have c2: "featureToLine example_env example_two_lines example_convert_options (Some 10)
     = Inr (Some (LineSegments
             \<lparr> position = replicate 18 (Some 0),
               color_attr = Some [255, 0, 0, 255, 0, 0, 255, 0, 0, 255, 0, 0, 255, 0, 0, 255, 0, 0],
               batchId_attr = Some [0, 0, 0, 1, 1, 1],
               index_attr = Some [0, 1, 1, 2, 3, 4, 4, 5] \<rparr> (Some 2)), [])"
    by code_simp
  have c3: "featureToExtrudedPolygon example_extrusion_env black example_square example_convert_options
              = Inr (Mesh
       \<lparr> position =
          [Some 0, Some 0, Some 0, Some 1, Some 0, Some 0, Some 1, Some 1,
           Some 0, Some 0, Some 1, Some 0, Some 0, Some 0, Some 0, Some 0,
           Some 0, Some 10, Some 1, Some 0, Some 10, Some 1, Some 1,
           Some 10, Some 0, Some 1, Some 10, Some 0, Some 0, Some 10],
         color_attr =
           Some [127, 63, 0, 127, 63, 0, 127, 63, 0, 127, 63, 0, 127, 63, 0,
                 255, 127, 0, 255, 127, 0, 255, 127, 0, 255, 127, 0, 255, 127, 0],
         batchId_attr = Some [0, 0, 0, 0, 0, 0, 0, 0, 0, 0],
         index_attr =
           Some [8, 5, 6, 6, 7, 8, 5, 0, 6, 6, 0, 1, 6, 1, 7, 7, 1, 2, 7, 2, 8,
                 8, 2, 3, 8, 3, 9, 9, 3, 4] \<rparr>, \<lparr> red = Some (1 / 2), green = Some (1 / 4), blue = Some 0 \<rparr>)"
    by code_simp
  have c4: "featureToPolygon example_flat_env example_square example_convert_options (Some 10)
              = Inr (Mesh
       \<lparr> position =
          [Some 0, Some 0, Some 0, Some 1, Some 0, Some 0, Some 1, Some 1,
           Some 0, Some 0, Some 1, Some 0, Some 0, Some 0, Some 0],
         color_attr = Some [255, 0, 0, 255, 0, 0, 255, 0, 0, 255, 0, 0, 255, 0, 0],
         batchId_attr = Some [0, 0, 0, 0, 0],
         index_attr = Some [3, 0, 1, 1, 2, 3] \<rparr>, [])"
    by code_simp
  note d1 = dispatch_by_type [of example_point example_env black example_convert_options "Some 10"]
  note d2 = dispatch_by_type [of example_two_lines example_env black example_convert_options "Some 10"]
  note d3 = dispatch_by_type [of example_square example_extrusion_env black example_convert_options "Some 10"]
  note d4 = dispatch_by_type [of example_square example_flat_env black example_convert_options "Some 10"]
  from d1 t1 have r1: "featureToMesh example_env black example_point example_convert_options (Some 10)
     = Inr (EmptyMesh, [], black)" by blast
  from d2 t2 c2 have r2: "featureToMesh example_env black example_two_lines example_convert_options (Some 10)
     = Inr (LineSegments
             \<lparr> position = replicate 18 (Some 0),
               color_attr = Some [255, 0, 0, 255, 0, 0, 255, 0, 0, 255, 0, 0, 255, 0, 0, 255, 0, 0],
               batchId_attr = Some [0, 0, 0, 1, 1, 1],
               index_attr = Some [0, 1, 1, 2, 3, 4, 4, 5] \<rparr> (Some 2), [], black)" by simp
  from d3 t3 h3 c3 have r3:
    "featureToMesh example_extrusion_env black example_square example_convert_options (Some 10)
       = Inr (Mesh
       \<lparr> position =
          [Some 0, Some 0, Some 0, Some 1, Some 0, Some 0, Some 1, Some 1,
           Some 0, Some 0, Some 1, Some 0, Some 0, Some 0, Some 0, Some 0,
           Some 0, Some 10, Some 1, Some 0, Some 10, Some 1, Some 1,
           Some 10, Some 0, Some 1, Some 10, Some 0, Some 0, Some 10],
         color_attr =
           Some [127, 63, 0, 127, 63, 0, 127, 63, 0, 127, 63, 0, 127, 63, 0,
                 255, 127, 0, 255, 127, 0, 255, 127, 0, 255, 127, 0, 255, 127, 0],
         batchId_attr = Some [0, 0, 0, 0, 0, 0, 0, 0, 0, 0],
         index_attr =
           Some [8, 5, 6, 6, 7, 8, 5, 0, 6, 6, 0, 1, 6, 1, 7, 7, 1, 2, 7, 2, 8,
                 8, 2, 3, 8, 3, 9, 9, 3, 4] \<rparr>, [], \<lparr> red = Some (1 / 2), green = Some (1 / 4), blue = Some 0 \<rparr>)" by simp
  from d4 t3 h4 c4 have r4:
    "featureToMesh example_flat_env black example_square example_convert_options (Some 10)
       = Inr (Mesh
       \<lparr> position =
          [Some 0, Some 0, Some 0, Some 1, Some 0, Some 0, Some 1, Some 1,
           Some 0, Some 0, Some 1, Some 0, Some 0, Some 0, Some 0],
         color_attr = Some [255, 0, 0, 255, 0, 0, 255, 0, 0, 255, 0, 0, 255, 0, 0],
         batchId_attr = Some [0, 0, 0, 0, 0],
         index_attr = Some [3, 0, 1, 1, 2, 3] \<rparr>, [], black)" by simp
  from t1 r1 t2 r2 t3 h3 r3 h4 r4 show ?thesis by blast
qed

text \<open>
  Claim C7 as stated fails for points.  The parser reads one point into a \<^verbatim>\<open>POINT\<close>
  Feature; \<^verbatim>\<open>featureToMesh\<close> returns the empty mesh for it, where \<^verbatim>\<open>featureToPoint\<close>, which
  it does not call, would return the point cloud.
\<close>

theorem dispatch_point_counterexample:
  "new_Feature POINT (FeatureCollection_view ''EPSG:4326'' ''3d'') = Inr example_point3d \<and>
   populate None example_point_json example_point3d = Inr example_point \<and>
   ftype example_point = POINT \<and>
   featureToMesh example_env black example_point example_convert_options (Some 10)
     = Inr (EmptyMesh, [], black) \<and>
   featureToPoint example_env (\<lambda>n. 1 / 2) example_point example_convert_options
     = Inr (Points \<lparr> position = [Some 1, Some 2, Some 3], color_attr = Some [0, 0, 0],
                     batchId_attr = Some [0], index_attr = None \<rparr>)"
proof -
  have 1: "new_Feature POINT (FeatureCollection_view ''EPSG:4326'' ''3d'') = Inr example_point3d"
    by code_simp
  have 2: "populate None example_point_json example_point3d = Inr example_point"
    by code_simp
  have 3: "ftype example_point = POINT" by code_simp
  have 4: "featureToMesh example_env black example_point example_convert_options (Some 10)
     = Inr (EmptyMesh, [], black)" by code_simp
  have 5: "featureToPoint example_env (\<lambda>n. 1 / 2) example_point example_convert_options
     = Inr (Points \<lparr> position = [Some 1, Some 2, Some 3], color_attr = Some [0, 0, 0],
                     batchId_attr = Some [0], index_attr = None \<rparr>)" by code_simp
  from 1 2 3 4 5 show ?thesis by blast
qed


text \<open>
  The point converter, which the dispatch does not call, is the one function that reads
  \<^verbatim>\<open>Math.random()\<close>: without a colour option its colours follow the random values.
\<close>

lemma featureToPoint_reads_random:
  "featureToPoint (example_env \<lparr> Color_hex := (\<lambda>x. \<lparr> red = x, green = Some 0, blue = Some 0 \<rparr>) \<rparr>)
     (\<lambda>n. 0) example_point example_convert_options \<noteq>
   featureToPoint (example_env \<lparr> Color_hex := (\<lambda>x. \<lparr> red = x, green = Some 0, blue = Some 0 \<rparr>) \<rparr>)
     (\<lambda>n. 1 / 16777215) example_point example_convert_options"
  by code_simp

section \<open>Properties of the extruded converter\<close>

lemma length_side_quad [simp]: "length (side_quad len cw i) = 6"
  by (simp add: side_quad_def)

lemma js_write_in: "i < length a \<Longrightarrow> js_write a i v = a[i := Some v]"
  by (simp add: js_write_def)

lemma six_writes:
  assumes "length pre = j"
  shows "js_write (js_write (js_write (js_write (js_write (js_write
           (pre @ None # None # None # None # None # None # rest)
           j a) (j + 1) b) (j + 2) c) (j + 3) d) (j + 4) e) (j + 5) f
         = pre @ Some a # Some b # Some c # Some d # Some e # Some f # rest"
  using assms by (simp add: js_write_in list_update_append eval_nat_numeral)

lemma side_faces_loop_eq:
  "length pre = j \<Longrightarrow> 6 * nat (stop - i) \<le> m \<Longrightarrow>
   side_faces_loop (pre @ replicate m None) len cw i j stop =
     pre @ map Some (concat (map (side_quad len cw) [i .. stop - 1])) @
     replicate (m - 6 * nat (stop - i)) None"
proof (induction "nat (stop - i)" arbitrary: pre m i j)
  case 0
  then have "\<not> i < stop" by simp
  then show ?case by (subst side_faces_loop.simps) simp
next
  case (Suc n)
  then have lt: "i < stop" by simp
  have n: "n = nat (stop - (i + 1))" using Suc.hyps(2) by simp
  have "6 \<le> m" using Suc.prems(2) Suc.hyps(2) by simp
  then obtain m' where m: "m = 6 + m'" by (metis le_add_diff_inverse)
  have rep: "replicate m (None :: rat option) =
             None # None # None # None # None # None # replicate m' None"
    by (simp add: m eval_nat_numeral)
  let ?q = "side_quad len cw i"
  have w: "(if cw then
           js_write (js_write (js_write (js_write (js_write (js_write (pre @ replicate m None)
             j (of_int i)) (j + 1) (of_int i + len)) (j + 2) (of_int i + 1))
             (j + 3) (of_int i + 1)) (j + 4) (of_int i + len)) (j + 5) (of_int i + len + 1)
         else
           js_write (js_write (js_write (js_write (js_write (js_write (pre @ replicate m None)
             j (of_int i + len)) (j + 1) (of_int i)) (j + 2) (of_int i + len + 1))
             (j + 3) (of_int i + len + 1)) (j + 4) (of_int i)) (j + 5) (of_int i + 1))
        = (pre @ map Some ?q) @ replicate m' None"
    unfolding rep
    by (cases cw)
       (simp_all only: if_True if_False side_quad_def six_writes[OF Suc.prems(1)]
          list.map append_assoc append_Cons append_Nil)
  have l: "length (pre @ map Some ?q) = j + 6" using Suc.prems(1) by simp
  have b: "6 * nat (stop - (i + 1)) \<le> m'" using Suc.prems(2) Suc.hyps(2) m n by simp
  have ih: "side_faces_loop ((pre @ map Some ?q) @ replicate m' None) len cw (i + 1) (j + 6) stop =
            (pre @ map Some ?q) @ map Some (concat (map (side_quad len cw) [i + 1 .. stop - 1])) @
            replicate (m' - 6 * nat (stop - (i + 1))) None"
    by (rule Suc.hyps(1)[OF n l b])
  have up: "[i .. stop - 1] = i # [i + 1 .. stop - 1]" using lt by (simp add: upto_rec1)
  have d: "m - 6 * nat (stop - i) = m' - 6 * nat (stop - (i + 1))"
    using Suc.hyps(2) n m by simp
  have "side_faces_loop (pre @ replicate m None) len cw i j stop =
        side_faces_loop ((pre @ map Some ?q) @ replicate m' None) len cw (i + 1) (j + 6) stop"
    by (subst side_faces_loop.simps) (simp only: lt if_True w)
  also note ih
  finally show ?case by (simp only: up d list.map concat.simps map_append append_assoc)
qed

lemma addExtrudedPolygonSideFaces_eq:
  assumes "1 \<le> count r"
  shows "addExtrudedPolygonSideFaces ixs len (offset r) (count r) cw =
           Inr (ixs @ map Some (side_wall len cw r))"
proof -
  let ?off = "offset r" and ?cnt = "count r"
  have s: "set_length ixs (nat (int (length ixs) + (int ?cnt - 1) * 6)) =
           ixs @ replicate ((?cnt - 1) * 6) None"
    using assms by (simp add: set_length_def nat_add_distrib nat_mult_distrib nat_diff_distrib')
  have k: "nat (?off + int ?cnt - 1 - ?off) = ?cnt - 1" using assms by simp
  have "side_faces_loop (ixs @ replicate ((?cnt - 1) * 6) None) len cw ?off (length ixs) (?off + int ?cnt - 1)
        = ixs @ map Some (concat (map (side_quad len cw) [?off .. ?off + int ?cnt - 1 - 1])) @
          replicate ((?cnt - 1) * 6 - 6 * nat (?off + int ?cnt - 1 - ?off)) None"
    by (rule side_faces_loop_eq) (simp_all add: k)
  moreover have "?off + int ?cnt - 1 - 1 = ?off + int ?cnt - 2" by simp
  ultimately have lp: "side_faces_loop (ixs @ replicate ((?cnt - 1) * 6) None) len cw ?off (length ixs)
                         (?off + int ?cnt - 1) = ixs @ map Some (side_wall len cw r)"
    by (simp only: k side_wall_def) simp
  have neg: "\<not> int (length ixs) + (int ?cnt - 1) * 6 < 0" using assms by simp
  show ?thesis
    unfolding addExtrudedPolygonSideFaces_def Let_def
    by (simp only: neg if_False s lp)
qed

lemma length_concat_quads: "length (concat (map (side_quad len cw) xs)) = 6 * length xs"
  by (induction xs) simp_all

lemma length_side_wall: "length (side_wall len cw r) = (count r - 1) * 6"
  by (simp add: side_wall_def length_concat_quads)

lemma side_faces_of_rings_eq:
  assumes "\<forall>r \<in> set rings. 1 \<le> count r"
  shows "side_faces_of_rings ixs len rings cw =
           Inr (ixs @ map Some (concat (map (side_wall len cw) rings)))"
  using assms
proof (induction rings arbitrary: ixs)
  case Nil
  show ?case by simp
next
  case (Cons r rings)
  then have c: "1 \<le> count r" and rest: "\<forall>r \<in> set rings. 1 \<le> count r" by simp_all
  show ?case
    by (simp add: addExtrudedPolygonSideFaces_eq [OF c] Cons.IH [OF rest])
qed

lemma assign_triangles_eq:
  "length pre = k \<Longrightarrow>
   assign_triangles (pre @ replicate (length ts + m) None) k ts start =
     pre @ map (\<lambda>t. Some (of_nat t + start)) ts @ replicate m None"
proof (induction ts arbitrary: pre k)
  case Nil
  show ?case by simp
next
  case (Cons t ts)
  have "js_write (pre @ replicate (length (t # ts) + m) None) k (of_nat t + start) =
        (pre @ [Some (of_nat t + start)]) @ replicate (length ts + m) None"
    using Cons.prems by (simp add: js_write_in list_update_append)
  moreover have "length (pre @ [Some (of_nat t + start)]) = k + 1" using Cons.prems by simp
  ultimately show ?case
    using Cons.IH [of "pre @ [Some (of_nat t + start)]" "k + 1"] by simp
qed

lemma add_triangles_eq:
  "add_triangles ixs ts start = ixs @ map (\<lambda>t. Some (of_nat t + start)) ts"
  using assign_triangles_eq [of ixs "length ixs" ts 0 start]
  by (simp add: add_triangles_def set_length_def)

lemma length_ta_write [simp]: "length (ta_write a i v) = length a"
  by (simp add: ta_write_def)

lemma coordinatesToVertices_loop_length:
  "nrm \<noteq> None \<Longrightarrow>
   \<exists>t. coordinatesToVertices_loop ptsIn nrm target d i j endIn = Inr t \<and> length t = length target"
proof (induction ptsIn nrm target d i j endIn rule: coordinatesToVertices_loop.induct)
  case (1 ptsIn nrm target d i j endIn)
  then obtain ns where ns: "nrm = Some ns" by auto
  show ?case
  proof (cases "i < endIn")
    case True
    with "1.IH" [OF True ns] "1.prems" ns show ?thesis
      by (subst coordinatesToVertices_loop.simps) simp
  next
    case False
    then show ?thesis by (subst coordinatesToVertices_loop.simps) simp
  qed
qed

lemma coordinatesToVertices_length:
  "nrm \<noteq> None \<Longrightarrow>
   \<exists>t. coordinatesToVertices ptsIn nrm target alt extrude offsetOut countIn startIn = Inr t \<and>
       length t = length target"
  unfolding coordinatesToVertices_def by (rule coordinatesToVertices_loop_length)

lemma extruded_step:
  assumes h: "extrusion_height env = ExtrusionFunction height"
    and c: "fill_color env = Some colour"
    and ix: "indices g = first # others"
    and v1: "coordinatesToVertices ptsIn nrm (ex_vertices st) delta (Some 0)
               (of_int (offset first)) (of_int (range_end (first # others) - offset first))
               (of_int (offset first)) = Inr v1"
    and v2: "coordinatesToVertices ptsIn nrm v1 delta (height (properties g))
               (of_int (offset first) + tv) (of_int (range_end (first # others) - offset first))
               (of_int (offset first)) = Inr v2"
    and sf: "side_faces_of_rings
               (add_triangles (ex_indices st)
                  (Earcut env (ta_slice v2 ((of_int (offset first) + tv) * 3)
                                           ((of_int (range_end (first # others)) + tv) * 3))
                     (holesOffsets (first # others) (offset first)) 3)
                  (of_int (offset first) + tv))
               tv (first # others) cw = Inr ixs'"
  shows "\<exists>st2. featureToExtrudedPolygon_geometries env options ptsIn nrm tv delta cw (g # rest) st =
               featureToExtrudedPolygon_geometries env options ptsIn nrm tv delta cw rest st2 \<and>
               ex_vertices st2 = v2 \<and> ex_indices st2 = ixs'"
proof -
  define st1 where "st1 = st \<lparr> ex_vertices := v2,
       ex_colors := fillColorArray
                      (fillColorArray (ex_colors st) (of_int (range_end (first # others) - offset first))
                         (multiplyScalar (colour (properties g)) (Some (1 / 2))) (of_int (offset first)))
                      (of_int (range_end (first # others) - offset first)) (colour (properties g))
                      (of_int (offset first) + tv),
       ex_indices := ixs',
       ex_scratch := multiplyScalar (colour (properties g)) (Some (1 / 2)) \<rparr>"
  define st2 where "st2 = (case (ex_batchIds st, batchId options) of
        (Some batchIds, Some f) \<Rightarrow>
          st1 \<lparr> ex_batchIds :=
            Some (fillBatchIdArray (f (properties g) (ex_featureId st))
                   (fillBatchIdArray (f (properties g) (ex_featureId st))
                      batchIds (of_int (offset first)) (of_int (range_end (first # others))))
                   (of_int (offset first) + tv) (of_int (range_end (first # others)) + tv)),
            ex_featureId := ex_featureId st + 1 \<rparr>
      | _ \<Rightarrow> st1)"
  have "featureToExtrudedPolygon_geometries env options ptsIn nrm tv delta cw (g # rest) st =
        featureToExtrudedPolygon_geometries env options ptsIn nrm tv delta cw rest st2"
    apply (subst featureToExtrudedPolygon_geometries.simps)
    apply (simp only: h c ix v1 v2 sf extrusion.case option.case prod.case list.case sum.case Let_def
             st2_def st1_def)
    done
  moreover have "ex_vertices st2 = v2" "ex_indices st2 = ixs'"
    by (simp_all add: st2_def st1_def split: option.splits)
  ultimately show ?thesis by blast
qed


lemma extruded_geometries_eq:
  assumes h: "extrusion_height env = ExtrusionFunction height"
    and c: "fill_color env = Some colour"
    and nrm: "nrm \<noteq> None"
    and rings: "\<forall>g \<in> set gs. indices g \<noteq> [] \<and> (\<forall>r \<in> set (indices g). 1 \<le> count r)"
  shows "\<exists>st' roofs.
           featureToExtrudedPolygon_geometries env options ptsIn nrm tv delta cw gs st = Inr st' \<and>
           length (ex_vertices st') = length (ex_vertices st) \<and>
           length roofs = length gs \<and>
           ex_indices st' = ex_indices st @
             map Some (concat (map (\<lambda>(g, roof). roof @ concat (map (side_wall tv cw) (indices g)))
                                (zip gs roofs)))"
  using rings
proof (induction gs arbitrary: st)
  case Nil
  show ?case by simp
next
  case (Cons g rest)
  then have rest: "\<forall>g \<in> set rest. indices g \<noteq> [] \<and> (\<forall>r \<in> set (indices g). 1 \<le> count r)"
    and ne: "indices g \<noteq> []" and cnt: "\<forall>r \<in> set (indices g). 1 \<le> count r"
    by simp_all
  from ne obtain first others where ix: "indices g = first # others"
    by (auto simp: neq_Nil_conv)
  from coordinatesToVertices_length [OF nrm] obtain v1 where
    v1: "coordinatesToVertices ptsIn nrm (ex_vertices st) delta (Some 0)
               (of_int (offset first)) (of_int (range_end (first # others) - offset first))
               (of_int (offset first)) = Inr v1"
    and l1: "length v1 = length (ex_vertices st)" by blast
  from coordinatesToVertices_length [OF nrm] obtain v2 where
    v2: "coordinatesToVertices ptsIn nrm v1 delta (height (properties g))
               (of_int (offset first) + tv) (of_int (range_end (first # others) - offset first))
               (of_int (offset first)) = Inr v2"
    and l2: "length v2 = length v1" by blast
  define roof where "roof = map (\<lambda>t. of_nat t + (of_int (offset first) + tv))
                  (Earcut env (ta_slice v2 ((of_int (offset first) + tv) * 3)
                                           ((of_int (range_end (first # others)) + tv) * 3))
                     (holesOffsets (first # others) (offset first)) 3)"
  have at: "add_triangles (ex_indices st)
                  (Earcut env (ta_slice v2 ((of_int (offset first) + tv) * 3)
                                           ((of_int (range_end (first # others)) + tv) * 3))
                     (holesOffsets (first # others) (offset first)) 3)
                  (of_int (offset first) + tv) = ex_indices st @ map Some roof"
    by (simp add: add_triangles_eq roof_def comp_def)
  have cnt': "\<forall>r \<in> set (first # others). 1 \<le> count r" using cnt ix by simp
  have sf: "side_faces_of_rings
               (add_triangles (ex_indices st)
                  (Earcut env (ta_slice v2 ((of_int (offset first) + tv) * 3)
                                           ((of_int (range_end (first # others)) + tv) * 3))
                     (holesOffsets (first # others) (offset first)) 3)
                  (of_int (offset first) + tv))
               tv (first # others) cw =
            Inr (ex_indices st @ map Some (roof @ concat (map (side_wall tv cw) (indices g))))"
    unfolding at side_faces_of_rings_eq [OF cnt'] ix by simp
  from extruded_step [OF h c ix v1 v2 sf, of options rest] obtain st2 where
    step: "featureToExtrudedPolygon_geometries env options ptsIn nrm tv delta cw (g # rest) st =
           featureToExtrudedPolygon_geometries env options ptsIn nrm tv delta cw rest st2"
    and e2: "ex_vertices st2 = v2"
    and i2: "ex_indices st2 = ex_indices st @ map Some (roof @ concat (map (side_wall tv cw) (indices g)))"
    by blast
  from Cons.IH [OF rest, of st2] obtain st' roofs where
    r: "featureToExtrudedPolygon_geometries env options ptsIn nrm tv delta cw rest st2 = Inr st'"
    and lv: "length (ex_vertices st') = length (ex_vertices st2)"
    and lr: "length roofs = length rest"
    and ir: "ex_indices st' = ex_indices st2 @
             map Some (concat (map (\<lambda>(g, roof). roof @ concat (map (side_wall tv cw) (indices g)))
                                (zip rest roofs)))"
    by blast
  have "featureToExtrudedPolygon_geometries env options ptsIn nrm tv delta cw (g # rest) st = Inr st'"
    using step r by simp
  moreover have "length (ex_vertices st') = length (ex_vertices st)"
    using lv e2 l2 l1 by simp
  moreover have "length (roof # roofs) = length (g # rest)" using lr by simp
  moreover have "ex_indices st' = ex_indices st @
             map Some (concat (map (\<lambda>(g, roof). roof @ concat (map (side_wall tv cw) (indices g)))
                                (zip (g # rest) (roof # roofs))))"
    unfolding ir i2 by simp
  ultimately show ?case by blast
qed

lemma extruded_side_faces_nonempty:
  assumes nrm: "normals f \<noteq> None"
    and h: "extrusion_height env = ExtrusionFunction height"
    and c: "fill_color env = Some colour"
    and G: "geometries f \<noteq> []"
    and rings: "\<forall>g \<in> set (geometries f). indices g \<noteq> [] \<and> (\<forall>r \<in> set (indices g). 1 \<le> count r)"
  shows "\<exists>b s' roofs.
           featureToExtrudedPolygon env s f options = Inr (Mesh b, s') \<and>
           length (position b) = 2 * length (vertices f) \<and>
           length roofs = length (geometries f) \<and>
           index_attr b =
             Some (Uint16Array_from (map Some (concat (map
               (\<lambda>(g, roof). roof @ concat (map
                  (\<lambda>r. concat (map
                     (side_quad (of_nat (length (vertices f)) / 3)
                        (num_less (area (vertices f) (of_int (first_offset (hd (geometries f))))
                                     (of_nat (first_count (hd (geometries f))))) (Some 0)))
                     [offset r .. offset r + int (count r) - 2]))
                  (indices g)))
               (zip (geometries f) roofs))))) \<and>
           (\<forall>g \<in> set (geometries f). \<forall>r \<in> set (indices g).
              length (concat (map
                     (side_quad (of_nat (length (vertices f)) / 3)
                        (num_less (area (vertices f) (of_int (first_offset (hd (geometries f))))
                                     (of_nat (first_count (hd (geometries f))))) (Some 0)))
                     [offset r .. offset r + int (count r) - 2])) = (count r - 1) * 6)"
proof -
  let ?tv = "of_nat (length (vertices f)) / 3 :: rat"
  let ?cw = "num_less (area (vertices f) (of_int (first_offset (hd (geometries f))))
                                     (of_nat (first_count (hd (geometries f))))) (Some 0)"
  from G obtain g0 others0 where gs: "geometries f = g0 # others0" by (auto simp: neq_Nil_conv)
  with rings obtain first others where ix: "indices g0 = first # others"
    by (auto simp: neq_Nil_conv)
  have cw: "?cw = num_less (area (vertices f) (of_int (offset first)) (of_nat (count first))) (Some 0)"
    by (simp add: gs ix first_offset_def first_count_def)
  obtain bids where b: "new_batchIds options (of_nat (length (replicate (length (vertices f) * 2) (Some (0::real)))) / 3) = Inr bids"
    using new_batchIds_Inr [of "of_nat (length (replicate (length (vertices f) * 2) (Some (0::real)))) / 3" options]
    by auto
  let ?st0 = "\<lparr> ex_vertices = replicate (length (vertices f) * 2) (Some 0),
                ex_colors = replicate (length (vertices f) * 2) 0, ex_indices = [],
                ex_batchIds = bids, ex_featureId = 0, ex_scratch = s \<rparr>"
  let ?delta = "if amin (altitude f) = Infinity then Some 0 else number_of_ext (amin (altitude f))"
  let ?wf = "num_less (area (vertices f) (of_int (offset first)) (of_nat (count first))) (Some 0)"
  from extruded_geometries_eq [OF h c nrm rings [unfolded gs], of options "vertices f" ?tv ?delta ?wf ?st0]
  obtain st' roofs where
    r: "featureToExtrudedPolygon_geometries env options (vertices f) (normals f) ?tv ?delta ?wf
          (g0 # others0) ?st0 = Inr st'"
    and lv0: "length (ex_vertices st') = length (ex_vertices ?st0)"
    and lr0: "length roofs = length (g0 # others0)"
    and ir0: "ex_indices st' = ex_indices ?st0 @
             map Some (concat (map (\<lambda>(g, roof). roof @ concat (map (side_wall ?tv ?wf) (indices g)))
                                (zip (g0 # others0) roofs)))"
    by blast
  let ?b = "\<lparr> position = ex_vertices st', color_attr = Some (ex_colors st'),
              batchId_attr = ex_batchIds st',
              index_attr = Some (Uint16Array_from (ex_indices st')) \<rparr>"
  have res: "featureToExtrudedPolygon env s f options = Inr (Mesh ?b, ex_scratch st')"
    unfolding featureToExtrudedPolygon_def Let_def gs
    by (simp only: list.case ix b sum.case r prod.case)
  have lp: "length (position ?b) = 2 * length (vertices f)" using lv0 by simp
  have lr: "length roofs = length (geometries f)" using lr0 by (simp only: gs)
  have sw: "side_wall ?tv ?wf =
            (\<lambda>r. concat (map (side_quad ?tv ?cw) [offset r .. offset r + int (count r) - 2]))"
    unfolding cw by (rule ext) (simp only: side_wall_def)
  have "ex_indices st' =
             map Some (concat (map (\<lambda>(g, roof). roof @ concat (map (side_wall ?tv ?wf) (indices g)))
                                (zip (geometries f) roofs)))"
    using ir0 by (simp only: gs extrusion_state.select_convs append_Nil)
  then have ia: "index_attr ?b =
             Some (Uint16Array_from (map Some (concat (map
               (\<lambda>(g, roof). roof @ concat (map
                  (\<lambda>r. concat (map (side_quad ?tv ?cw) [offset r .. offset r + int (count r) - 2]))
                  (indices g)))
               (zip (geometries f) roofs)))))"
    by (simp only: sw buffers.select_convs)
  have ln: "\<forall>g \<in> set (geometries f). \<forall>r \<in> set (indices g).
              length (concat (map (side_quad ?tv ?cw) [offset r .. offset r + int (count r) - 2]))
                = (count r - 1) * 6"
    using length_side_wall [of ?tv ?cw] by (simp add: side_wall_def)
  show ?thesis
    apply (intro exI [of _ ?b] exI [of _ "ex_scratch st'"] exI [of _ roofs] conjI)
        apply (rule res)
       apply (rule lp)
      apply (rule lr)
     apply (rule ia)
    apply (rule ln)
    done
qed

text \<open>
  Claim C4, as amended.  Take a Feature with normals, a style whose extrusion height and
  fill colour are functions of the properties, and geometries that each hold at least
  one ring, every ring with at least one vertex.  Then \<^verbatim>\<open>featureToExtrudedPolygon\<close>
  returns a mesh (for a Feature without geometries it throws).
  \<^item> The position buffer is twice as long as the vertex buffer of the Feature: the
    floor, then the roof.
  \<^item> The array handed to \<^verbatim>\<open>new Uint16Array\<close> holds, geometry after geometry, the
    triangles of the roof and then, ring after ring, the side wall of the ring.
  \<^item> The side wall of the ring \<open>[offset, offset + count)\<close> is the quad \<open>side_quad\<close> of
    every vertex \<open>i\<close> from \<open>offset\<close> to \<open>offset + count - 2\<close>: two triangles on the
    floor vertices \<open>i\<close>, \<open>i + 1\<close> and the roof vertices \<open>i + n\<close>, \<open>i + 1 + n\<close>, where
    \<open>n\<close> is the number of vertices of the Feature.  These are \<open>(count - 1) * 6\<close>
    indices.
\<close>

theorem extruded_side_faces:
  assumes nrm: "normals f \<noteq> None"
    and h: "extrusion_height env = ExtrusionFunction height"
    and c: "fill_color env = Some colour"
    and rings: "\<forall>g \<in> set (geometries f). indices g \<noteq> [] \<and> (\<forall>r \<in> set (indices g). 1 \<le> count r)"
  shows "if geometries f = [] then featureToExtrudedPolygon env s f options = Inl TypeError
         else
         (\<exists>b s' roofs.
           featureToExtrudedPolygon env s f options = Inr (Mesh b, s') \<and>
           length (position b) = 2 * length (vertices f) \<and>
           length roofs = length (geometries f) \<and>
           index_attr b =
             Some (Uint16Array_from (map Some (concat (map
               (\<lambda>(g, roof). roof @ concat (map
                  (\<lambda>r. concat (map
                     (side_quad (of_nat (length (vertices f)) / 3)
                        (num_less (area (vertices f) (of_int (first_offset (hd (geometries f))))
                                     (of_nat (first_count (hd (geometries f))))) (Some 0)))
                     [offset r .. offset r + int (count r) - 2]))
                  (indices g)))
               (zip (geometries f) roofs))))) \<and>
           (\<forall>g \<in> set (geometries f). \<forall>r \<in> set (indices g).
              length (concat (map
                     (side_quad (of_nat (length (vertices f)) / 3)
                        (num_less (area (vertices f) (of_int (first_offset (hd (geometries f))))
                                     (of_nat (first_count (hd (geometries f))))) (Some 0)))
                     [offset r .. offset r + int (count r) - 2])) = (count r - 1) * 6))"
proof (cases "geometries f = []")
  case True
  then show ?thesis by (simp add: featureToExtrudedPolygon_def)
next
  case False
  from extruded_side_faces_nonempty [OF nrm h c False rings, of s options] False
  show ?thesis by (simp only: if_False)
qed

end
